theory Spec2Isabelle
  imports Main
begin

unbundle bit_operations_syntax

section \<open>The declaration model (go/types as the generator sees it)\<close>

text \<open>
  The generator \<open>objcGen\<close> of package \<open>bind\<close> reads a type-checked Go package through
  the \<open>go/types\<close> interface. Only what the generator inspects is modelled: the kind of
  a basic type, the shape of a composite type, and for a named type its package, its name
  and its underlying type.
\<close>

datatype BasicKind =
    types_Invalid
  | types_Bool | types_Int | types_Int8 | types_Int16 | types_Int32 | types_Int64
  | types_Uint | types_Uint8 | types_Uint16 | types_Uint32 | types_Uint64 | types_Uintptr
  | types_Float32 | types_Float64 | types_Complex64 | types_Complex128
  | types_String | types_UnsafePointer
  | types_UntypedBool | types_UntypedInt | types_UntypedRune | types_UntypedFloat
  | types_UntypedComplex | types_UntypedString | types_UntypedNil

text \<open>
  A named type carries the path of its package (\<open>None\<close> for the universe scope), its name
  and its underlying type. Packages are compared by identity in the source
  (\<open>n.Pkg() != g.pkg\<close>); the model identifies a package with its import path.
\<close>

datatype gotype =
    Basic BasicKind
  | Slice gotype
  | Pointer gotype
  | Named "string option" string gotype
  | Array nat gotype
  | Map_t gotype gotype
  | Chan gotype
  | Struct
  | Interface
  | Signature

record var =
  var_Name :: string
  var_Type :: gotype

text \<open>A \<open>*types.Func\<close> with the parameters and results of its signature.\<close>

record func =
  func_Name :: string
  func_Exported :: bool
  func_Params :: "var list"
  func_Results :: "var list"

text \<open>
  A \<open>*types.TypeName\<close>. The helpers \<open>exportedFields\<close> and \<open>exportedMethodSet\<close> are
  not part of the generator's file; the object carries the lists they return
  (the exported fields of the struct in declared order, and the exported methods of the
  pointer type).
\<close>

record typename =
  tn_Name :: string
  tn_Exported :: bool
  tn_Type :: gotype
  exportedFields :: "var list"
  exportedMethodSet :: "func list"

datatype object =
    Func_obj func
  | TypeName_obj typename
  | Const_obj string bool
  | Var_obj string bool

fun Exported :: "object \<Rightarrow> bool" where
  "Exported (Func_obj f) = func_Exported f"
| "Exported (TypeName_obj t) = tn_Exported t"
| "Exported (Const_obj n e) = e"
| "Exported (Var_obj n e) = e"

text \<open>
  A \<open>*types.Package\<close>: \<open>pkg_Scope\<close> lists the objects of the package scope in the order
  of \<open>scope.Names()\<close> (sorted by name), each already looked up.
\<close>

record package =
  pkg_Path :: string
  pkg_Name :: string
  pkg_Scope :: "object list"

text \<open>
  Modelled from the spec: \<open>isErrorType\<close> (defined outside the generator's file) recognises
  the distinguished failure type, Go's predeclared \<open>error\<close>: a named interface type of
  the universe scope.
\<close>

definition universe_error :: gotype where
  "universe_error = Named None ''error'' Interface"

definition isErrorType :: "gotype \<Rightarrow> bool" where
  "isErrorType t = (t = universe_error)"

section \<open>Generator state\<close>

text \<open>
  Diagnostics collected in \<open>g.err\<close>. \<open>UnsupportedType\<close> stands for the messages
  "unsupported type", "unsupported pointer to type", "type ... is in package ..." and
  "unsupported, named type" (the type decides which one it is);
  \<open>ResultNotError\<close> for "second result value must be of type error" and
  \<open>TooManyResults\<close> for "too many result values", both with the name of the function.
\<close>

datatype diagnostic =
    UnsupportedType gotype
  | ResultNotError string
  | TooManyResults string

text \<open>
  The embedded printer is modelled by the sequence of \<open>Printf\<close> calls: each formatted
  text is recorded with the indentation depth in force.
\<close>

record objcGen =
  out :: "(nat \<times> string) list"
  indent :: nat
  pkg :: package
  err :: "diagnostic list"
  pkgName :: string
  namePrefix :: string
  funcs :: "func list"
  names :: "typename list"

text \<open>
  Functions the generator calls that are defined outside its file are parameters of the
  model: the package-level \<open>seqType\<close>, \<open>paramName\<close>, and the matcher of the regular
  expression \<open>paramRE\<close>. So is the part of the standard library that needs the Unicode
  tables: \<open>upperFirst n\<close> is \<open>string(unicode.ToUpper(firstRune)) + n[size:]\<close> for a
  string \<open>n\<close> whose first byte is not ASCII, with \<open>firstRune\<close> and \<open>size\<close> as
  \<open>utf8.DecodeRuneInString\<close> returns them.
\<close>

record helpers =
  seqType :: "gotype \<Rightarrow> string"
  paramName :: "var list \<Rightarrow> nat \<Rightarrow> string"
  paramRE :: "string \<Rightarrow> bool"
  upperFirst :: "string \<Rightarrow> string"

datatype panic = NilDereference | TypeAssertion

definition Printf :: "string \<Rightarrow> objcGen \<Rightarrow> objcGen" where
  "Printf s g = g\<lparr>out := out g @ [(indent g, s)]\<rparr>"

definition Indent :: "objcGen \<Rightarrow> objcGen" where
  "Indent g = g\<lparr>indent := Suc (indent g)\<rparr>"

definition Outdent :: "objcGen \<Rightarrow> objcGen" where
  "Outdent g = g\<lparr>indent := indent g - 1\<rparr>"

definition errorf :: "diagnostic \<Rightarrow> objcGen \<Rightarrow> objcGen" where
  "errorf d g = g\<lparr>err := err g @ [d]\<rparr>"

section \<open>Formatting verbs\<close>

definition digit_chars :: string where
  "digit_chars = ''0123456789abcdef''"

text \<open>\<open>%d\<close> and \<open>%x\<close> of a non-negative integer.\<close>

fun fmt_base :: "nat \<Rightarrow> nat \<Rightarrow> string" where
  "fmt_base b n =
     (if b < 2 \<or> n < b then [digit_chars ! n]
      else fmt_base b (n div b) @ [digit_chars ! (n mod b)])"

declare fmt_base.simps [simp del]

definition fmt_d :: "nat \<Rightarrow> string" where
  "fmt_d n = fmt_base 10 n"

definition fmt_x :: "nat \<Rightarrow> string" where
  "fmt_x n = fmt_base 16 n"

text \<open>
  \<open>%q\<close> of a string: double quotes around it, with quotes and backslashes escaped
  (the other escapes of \<open>strconv.Quote\<close> do not arise for Go identifiers).
\<close>

definition fmt_q :: "string \<Rightarrow> string" where
  "fmt_q s = ''\"'' @ concat (map (\<lambda>c. if c = CHR ''\"'' \<or> c = CHR 0x5C then [CHR 0x5C, c] else [c]) s) @ ''\"''"

definition Join :: "string list \<Rightarrow> string \<Rightarrow> string" where
  "Join xs sep = (case xs of [] \<Rightarrow> [] | x # r \<Rightarrow> x @ concat (map (\<lambda>y. sep @ y) r))"

text \<open>
  \<open>capitalize\<close> upper-cases the first rune. Strings are byte sequences. The empty string
  decodes to the replacement rune U+FFFD with size 0, which is its own upper case and is
  encoded in three bytes. A first byte below 0x80 is a rune of size 1: \<open>ToUpper\<close> is
  \<open>unicode.ToUpper\<close> on ASCII. Any other first byte starts a longer or an invalid
  encoding, and the result is what \<open>upperFirst\<close> gives.
\<close>

definition ToUpper :: "char \<Rightarrow> char" where
  "ToUpper c = (let n = of_char c :: nat in if 97 \<le> n \<and> n \<le> 122 then char_of (n - 32) else c)"

definition capitalize :: "helpers \<Rightarrow> string \<Rightarrow> string" where
  "capitalize h n =
     (case n of
        [] \<Rightarrow> [CHR 0xEF, CHR 0xBF, CHR 0xBD]
      | c # r \<Rightarrow> if (of_char c :: nat) < 128 then ToUpper c # r else upperFirst h n)"

section \<open>init\<close>

definition init_step :: "object \<Rightarrow> objcGen \<Rightarrow> objcGen" where
  "init_step obj g =
     (if \<not> Exported obj then g
      else case obj of
        Func_obj f \<Rightarrow> g\<lparr>funcs := funcs g @ [f]\<rparr>
      | TypeName_obj t \<Rightarrow> g\<lparr>names := names g @ [t]\<rparr>
      | _ \<Rightarrow> g)"

definition init :: "helpers \<Rightarrow> objcGen \<Rightarrow> objcGen" where
  "init h g =
     (let g1 = g\<lparr>pkgName := pkg_Name (pkg g)\<rparr>;
          g2 = g1\<lparr>namePrefix := ''Go'' @ capitalize h (pkgName g1)\<rparr>;
          g3 = g2\<lparr>funcs := [], names := []\<rparr>
      in fold init_step (pkg_Scope (pkg g3)) g3)"

section \<open>The type mapper\<close>

fun objcType :: "gotype \<Rightarrow> objcGen \<Rightarrow> string \<times> objcGen" where
  "objcType typ g =
     (if isErrorType typ then (''NSError*'', g)
      else case typ of
        Basic k \<Rightarrow>
          (case k of
             types_Bool \<Rightarrow> (''BOOL'', g)
           | types_Int \<Rightarrow> (''int'', g)
           | types_Int8 \<Rightarrow> (''int8_t'', g)
           | types_Int16 \<Rightarrow> (''int16_t'', g)
           | types_Int32 \<Rightarrow> (''int32_t'', g)
           | types_Int64 \<Rightarrow> (''int64_t'', g)
           | types_Uint8 \<Rightarrow> (''byte'', g)
           | types_Uint16 \<Rightarrow> (''uint16_t'', g)
           | types_Uint32 \<Rightarrow> (''uint32_t'', g)
           | types_Uint64 \<Rightarrow> (''uint64_t'', g)
           | types_Float32 \<Rightarrow> (''float'', g)
           | types_Float64 \<Rightarrow> (''double'', g)
           | types_String \<Rightarrow> (''NSString*'', g)
           | _ \<Rightarrow> (''TODO'', errorf (UnsupportedType typ) g))
      | Slice e \<Rightarrow>
          (case objcType e g of (elem, g1) \<Rightarrow>
             if elem = ''byte'' then (''NSData*'', g1)
             else (''TODO'', errorf (UnsupportedType typ) g1))
      | Pointer e \<Rightarrow>
          (case e of
             Named p n u \<Rightarrow> (case objcType e g of (s, g1) \<Rightarrow> (s @ ''*'', g1))
           | _ \<Rightarrow> (''TODO'', errorf (UnsupportedType typ) g))
      | Named p n u \<Rightarrow>
          (if p \<noteq> Some (pkg_Path (pkg g)) then (''TODO'', errorf (UnsupportedType typ) g)
           else case u of
             Interface \<Rightarrow> (namePrefix g @ n @ ''*'', g)
           | Struct \<Rightarrow> (namePrefix g @ n, g)
           | _ \<Rightarrow> (''TODO'', errorf (UnsupportedType typ) g))
      | _ \<Rightarrow> (''TODO'', errorf (UnsupportedType typ) g))"

declare objcType.simps [simp del]

section \<open>Signature normalisation\<close>

record paramInfo =
  p_typ :: gotype
  p_name :: string

record funcSummary =
  s_name :: string
  s_ret :: string
  s_params :: "paramInfo list"
  s_retParams :: "paramInfo list"

text \<open>The result is \<open>None\<close> where the source returns \<open>nil\<close>.\<close>

definition funcSummary :: "helpers \<Rightarrow> func \<Rightarrow> objcGen \<Rightarrow> funcSummary option \<times> objcGen" where
  "funcSummary h obj g =
     (let params = func_Params obj;
          s = \<lparr>s_name = func_Name obj, s_ret = [],
               s_params = map (\<lambda>i. \<lparr>p_typ = var_Type (params ! i), p_name = paramName h params i\<rparr>)
                              [0..<length params],
               s_retParams = []\<rparr>;
          res = func_Results obj
      in
      if length res = 0 then (Some (s\<lparr>s_ret := ''void''\<rparr>), g)
      else if length res = 1 then
        (let p = res ! 0 in
         if isErrorType (var_Type p) then
           (Some (s\<lparr>s_retParams := s_retParams s @ [\<lparr>p_typ = var_Type p, p_name = ''error''\<rparr>],
                    s_ret := ''BOOL''\<rparr>), g)
         else
           (let name = (if var_Name p = [] \<or> paramRE h (var_Name p) then ''ret0_'' else var_Name p);
                typ = var_Type p
            in case objcType typ g of (r, g1) \<Rightarrow>
                 (Some (s\<lparr>s_retParams := s_retParams s @ [\<lparr>p_typ = typ, p_name = name\<rparr>],
                          s_ret := r\<rparr>), g1)))
      else if length res = 2 then
        (let name = (if var_Name (res ! 0) = [] \<or> paramRE h (var_Name (res ! 0))
                     then ''ret0_'' else var_Name (res ! 0));
             s1 = s\<lparr>s_retParams := s_retParams s @ [\<lparr>p_typ = var_Type (res ! 0), p_name = name\<rparr>]\<rparr>
         in
         if \<not> isErrorType (var_Type (res ! 1)) then
           (None, errorf (ResultNotError (func_Name obj)) g)
         else
           (Some (s1\<lparr>s_retParams := s_retParams s1 @ [\<lparr>p_typ = var_Type (res ! 1), p_name = ''error''\<rparr>],
                     s_ret := ''BOOL''\<rparr>), g))
      else (None, errorf (TooManyResults (func_Name obj)) g))"

definition returnsVal :: "funcSummary \<Rightarrow> bool" where
  "returnsVal s = (length (s_retParams s) = 1 \<and> \<not> isErrorType (p_typ (s_retParams s ! 0)))"


section \<open>Signatures of the generated stubs\<close>

text \<open>The loops of \<open>asFunc\<close> and \<open>asMethod\<close> append to \<open>params\<close>, by their bodies.\<close>

definition asFunc_param :: "paramInfo \<Rightarrow> string list \<times> objcGen \<Rightarrow> string list \<times> objcGen" where
  "asFunc_param p = (\<lambda>(params, g).
     case objcType (p_typ p) g of (t, g1) \<Rightarrow> (params @ [t @ '' '' @ p_name p], g1))"

definition asFunc_retParam :: "paramInfo \<Rightarrow> string list \<times> objcGen \<Rightarrow> string list \<times> objcGen" where
  "asFunc_retParam p = (\<lambda>(params, g).
     case objcType (p_typ p) g of (t, g1) \<Rightarrow> (params @ [t @ ''* '' @ p_name p], g1))"

definition asFunc :: "funcSummary \<Rightarrow> objcGen \<Rightarrow> string \<times> objcGen" where
  "asFunc s g =
     (case fold asFunc_param (s_params s) ([], g) of (params, g1) \<Rightarrow>
      case (if \<not> returnsVal s then fold asFunc_retParam (s_retParams s) (params, g1)
            else (params, g1)) of (params, g2) \<Rightarrow>
        (s_ret s @ '' '' @ namePrefix g2 @ s_name s @ ''('' @ Join params '', '' @ '')'', g2))"

definition asMethod_param :: "nat \<times> paramInfo \<Rightarrow> string list \<times> objcGen \<Rightarrow> string list \<times> objcGen" where
  "asMethod_param = (\<lambda>(i, p) (params, g).
     let key = (if i \<noteq> 0 then p_name p else [])
     in case objcType (p_typ p) g of
          (t, g1) \<Rightarrow> (params @ [key @ '':('' @ t @ '')'' @ p_name p], g1))"

definition asMethod_retParam :: "paramInfo \<Rightarrow> string list \<times> objcGen \<Rightarrow> string list \<times> objcGen" where
  "asMethod_retParam p = (\<lambda>(params, g).
     let key = (if length params > 0 then p_name p else [])
     in case objcType (p_typ p) g of
          (t, g1) \<Rightarrow> (params @ [key @ '':('' @ (t @ ''*'') @ '')'' @ p_name p], g1))"

definition asMethod :: "funcSummary \<Rightarrow> objcGen \<Rightarrow> string \<times> objcGen" where
  "asMethod s g =
     (case fold asMethod_param (enumerate 0 (s_params s)) ([], g) of (params, g1) \<Rightarrow>
      case (if \<not> returnsVal s then fold asMethod_retParam (s_retParams s) (params, g1)
            else (params, g1)) of (params, g2) \<Rightarrow>
        (''('' @ s_ret s @ '')'' @ s_name s @ Join params '' '', g2))"

section \<open>Stub bodies\<close>

definition objcGen_seqType :: "helpers \<Rightarrow> gotype \<Rightarrow> string" where
  "objcGen_seqType h typ = (let s = seqType h typ in if s = ''String'' then ''UTF8'' else s)"

text \<open>The loop body over \<open>s.params\<close>: one write per parameter.\<close>

definition genFunc_param :: "helpers \<Rightarrow> paramInfo \<Rightarrow> objcGen \<Rightarrow> objcGen" where
  "genFunc_param h p g =
     (let st = objcGen_seqType h (p_typ p) in
      if st = ''Ref'' then
        Printf (''go_seq_write'' @ st @ ''(&in_, '' @ p_name p @ ''.ref);\<newline>'') g
      else
        Printf (''go_seq_write'' @ st @ ''(&in_, '' @ p_name p @ '');\<newline>'') g)"

text \<open>
  The loop body over \<open>s.retParams\<close> of a stub with out-parameters. The slice expression
  \<open>ptype[:len(ptype)-1]\<close> drops the last byte of a string that \<open>objcType\<close> never
  returns empty.
\<close>

definition genFunc_retParam :: "helpers \<Rightarrow> paramInfo \<Rightarrow> objcGen \<Rightarrow> objcGen" where
  "genFunc_retParam h p g =
     (if isErrorType (p_typ p) then
        (let g = Printf (''NSString* _'' @ p_name p @ '' = go_seq_readUTF8(&out_);\<newline>'') g;
             g = Printf (''if ([_'' @ p_name p @ '' length] != 0 && '' @ p_name p @ '' != nil) {\<newline>'') g;
             g = Indent g;
             g = Printf ''NSMutableDictionary *details = [NSMutableDictionary dictionary];\<newline>'' g;
             g = Printf (''[details setValue:_'' @ p_name p @ '' forKey:NSLocalizedDescriptionKey];\<newline>'') g;
             g = Printf (''*'' @ p_name p @ '' = [NSError errorWithDomain:errDomain code:1 userInfo:details];\<newline>'') g;
             g = Outdent g
         in Printf ''}\<newline>'' g)
      else if objcGen_seqType h (p_typ p) \<noteq> ''Ref'' then
        (case objcType (p_typ p) g of (t, g) \<Rightarrow>
         let g = Printf (t @ '' '' @ p_name p @ ''_val = go_seq_read'' @ objcGen_seqType h (p_typ p)
                         @ ''(&out_);\<newline>'') g;
             g = Printf (''if ('' @ p_name p @ '' != NULL) {\<newline>'') g;
             g = Indent g;
             g = Printf (''*'' @ p_name p @ '' = '' @ p_name p @ ''_val;\<newline>'') g;
             g = Outdent g
         in Printf ''}\<newline>'' g)
      else
        (case objcType (p_typ p) g of (ptype, g) \<Rightarrow>
         let g = Printf (''GoSeqRef* '' @ p_name p @ ''_ref = go_seq_readRef(&out_);\<newline>'') g;
             g = Printf (''if ('' @ p_name p @ '' != NULL) {\<newline>'') g;
             g = Indent g;
             g = Printf (''*'' @ p_name p @ '' = '' @ p_name p @ ''_ref.obj;\<newline>'') g;
             g = Printf (''if (*'' @ p_name p @ '' == NULL) {\<newline>'') g;
             g = Indent g;
             g = Printf (''*'' @ p_name p @ '' = [['' @ butlast ptype @ '' alloc] initWithRef:''
                         @ p_name p @ ''_ref];\<newline>'') g;
             g = Outdent g;
             g = Printf ''}\<newline>'' g;
             g = Outdent g
         in Printf ''}\<newline>'' g))"

text \<open>Decoding the response: a returned value, or the out-parameters in order.\<close>

definition genFunc_result :: "helpers \<Rightarrow> funcSummary \<Rightarrow> objcGen \<Rightarrow> objcGen" where
  "genFunc_result h s g =
     (if returnsVal s then
        (let p = s_retParams s ! 0 in
         if objcGen_seqType h (p_typ p) \<noteq> ''Ref'' then
           (case objcType (p_typ p) g of (t, g) \<Rightarrow>
              Printf (t @ '' '' @ p_name p @ '' = go_seq_read'' @ objcGen_seqType h (p_typ p)
                      @ ''(&out_);\<newline>'') g)
         else
           (case objcType (p_typ p) g of (ptype, g) \<Rightarrow>
            let g = Printf (''GoSeqRef* '' @ p_name p @ ''_ref = go_seq_readRef(&out_);\<newline>'') g;
                g = Printf (ptype @ '' '' @ p_name p @ '' = '' @ p_name p @ ''_ref.obj;\<newline>'') g;
                g = Printf (''if ('' @ p_name p @ '' == NULL) {\<newline>'') g;
                g = Indent g;
                g = Printf (p_name p @ '' = [['' @ butlast ptype @ '' alloc] initWithRef:''
                            @ p_name p @ ''_ref];\<newline>'') g;
                g = Outdent g
            in Printf ''}\<newline>'' g))
      else fold (genFunc_retParam h) (s_retParams s) g)"

definition genFunc_return :: "funcSummary \<Rightarrow> objcGen \<Rightarrow> objcGen" where
  "genFunc_return s g =
     (let n = length (s_retParams s) in
      if n > 0 then
        (let p = s_retParams s ! (n - 1) in
         if isErrorType (p_typ p) then Printf (''return ([_'' @ p_name p @ '' length] == 0);\<newline>'') g
         else Printf (''return '' @ p_name p @ '';\<newline>'') g)
      else g)"

definition genFunc :: "helpers \<Rightarrow> string \<Rightarrow> string \<Rightarrow> funcSummary \<Rightarrow> bool \<Rightarrow> objcGen \<Rightarrow> objcGen" where
  "genFunc h pkgDesc callDesc s isMethod g =
     (let g = Printf ''GoSeq in_ = {};\<newline>'' g;
          g = Printf ''GoSeq out_ = {};\<newline>'' g;
          g = (if isMethod then Printf ''go_seq_writeRef(&in_, self.ref);\<newline>'' g else g);
          g = fold (genFunc_param h) (s_params s) g;
          g = Printf (''go_seq_send('' @ pkgDesc @ '', '' @ callDesc @ '', &in_, &out_);\<newline>'') g;
          g = genFunc_result h s g;
          g = Printf ''go_seq_free(&in_);\<newline>'' g;
          g = Printf ''go_seq_free(&out_);\<newline>'' g
      in genFunc_return s g)"

definition genFuncM :: "helpers \<Rightarrow> func \<Rightarrow> objcGen \<Rightarrow> objcGen" where
  "genFuncM h obj g =
     (case funcSummary h obj g of
        (None, g) \<Rightarrow> g
      | (Some s, g) \<Rightarrow>
          (case asFunc s g of (sig, g) \<Rightarrow>
           let g = Printf (sig @ '' {\<newline>'') g;
               g = Indent g;
               g = genFunc h ''_DESCRIPTOR_'' (''_CALL_'' @ s_name s @ ''_'') s False g;
               g = Outdent g
           in Printf ''}\<newline>'' g))"

text \<open>\<open>genInterfaceM\<close> only writes a TODO line to the process log.\<close>

definition genInterfaceM :: "typename \<Rightarrow> objcGen \<Rightarrow> objcGen" where
  "genInterfaceM obj g = g"

section \<open>Structs\<close>

definition structDesc :: "objcGen \<Rightarrow> typename \<Rightarrow> string" where
  "structDesc g obj = ''_GO_'' @ pkgName g @ ''_'' @ tn_Name obj"

text \<open>The three loops of \<open>genStructM\<close>, by their bodies.\<close>

definition genStructM_fieldCodes :: "string \<Rightarrow> nat \<times> var \<Rightarrow> objcGen \<Rightarrow> objcGen" where
  "genStructM_fieldCodes desc = (\<lambda>(i, f) g.
     let g = Printf (''#define '' @ desc @ ''_FIELD_'' @ var_Name f @ ''_GET_ (0x'' @ fmt_x i @ ''0f)\<newline>'') g
     in Printf (''#define '' @ desc @ ''_FIELD_'' @ var_Name f @ ''_SET_ (0x'' @ fmt_x i @ ''1f)\<newline>'') g)"

definition genStructM_methodCode :: "string \<Rightarrow> nat \<times> func \<Rightarrow> objcGen \<Rightarrow> objcGen" where
  "genStructM_methodCode desc = (\<lambda>(i, m) g.
     Printf (''#define '' @ desc @ ''_'' @ func_Name m @ ''_ (0x'' @ fmt_x i @ ''0c)\<newline>'') g)"

definition genStructM_field :: "helpers \<Rightarrow> string \<Rightarrow> var \<Rightarrow> objcGen \<Rightarrow> objcGen" where
  "genStructM_field h desc f g =
     (case objcType (var_Type f) g of (r, g) \<Rightarrow>
      let s = \<lparr>s_name = var_Name f, s_ret = r, s_params = [],
               s_retParams = [\<lparr>p_typ = var_Type f, p_name = ''ret_''\<rparr>]\<rparr>
      in case asMethod s g of (sig, g) \<Rightarrow>
      let g = Printf (''- '' @ sig @ '' {\<newline>'') g;
          g = Indent g;
          g = genFunc h (desc @ ''_DESCRIPTOR_'') (desc @ ''_FIELD_'' @ var_Name f @ ''_GET_'') s True g;
          g = Outdent g;
          g = Printf ''}\<newline>\<newline>'' g;
          s = \<lparr>s_name = ''set'' @ var_Name f, s_ret = ''void'',
               s_params = [\<lparr>p_typ = var_Type f, p_name = ''v''\<rparr>], s_retParams = []\<rparr>
      in case asMethod s g of (sig, g) \<Rightarrow>
      let g = Printf (''- '' @ sig @ '' {\<newline>'') g;
          g = Indent g;
          g = genFunc h (desc @ ''_DESCRIPTOR_'') (desc @ ''_FIELD_'' @ var_Name f @ ''_SET_'') s True g;
          g = Outdent g
      in Printf ''}\<newline>\<newline>'' g)"

text \<open>
  A method whose summary is \<open>nil\<close> makes \<open>s.asMethod(g)\<close> read through a nil pointer:
  the generator panics.
\<close>

definition genStructM_method :: "helpers \<Rightarrow> string \<Rightarrow> func \<Rightarrow> objcGen \<Rightarrow> panic + objcGen" where
  "genStructM_method h desc m g =
     (case funcSummary h m g of
        (None, g) \<Rightarrow> Inl NilDereference
      | (Some s, g) \<Rightarrow>
          (case asMethod s g of (sig, g) \<Rightarrow>
           let g = Printf (''- '' @ sig @ '' {\<newline>'') g;
               g = Indent g;
               g = genFunc h (desc @ ''_DESCRIPTOR_'') (desc @ ''_'' @ func_Name m @ ''_'') s True g;
               g = Outdent g
           in Inr (Printf ''}\<newline>\<newline>'' g)))"

fun foldP :: "('a \<Rightarrow> 's \<Rightarrow> panic + 's) \<Rightarrow> 'a list \<Rightarrow> 's \<Rightarrow> panic + 's" where
  "foldP f [] g = Inr g"
| "foldP f (x # xs) g = (case f x g of Inl p \<Rightarrow> Inl p | Inr g' \<Rightarrow> foldP f xs g')"

definition genStructM :: "helpers \<Rightarrow> typename \<Rightarrow> objcGen \<Rightarrow> panic + objcGen" where
  "genStructM h obj g =
     (let fields = exportedFields obj;
          methods = exportedMethodSet obj;
          desc = structDesc g obj;
          g = Printf (''#define '' @ desc @ ''_DESCRIPTOR_ \"go.'' @ pkgName g @ ''.'' @ tn_Name obj @ ''\"\<newline>'') g;
          g = fold (genStructM_fieldCodes desc) (enumerate 0 fields) g;
          g = fold (genStructM_methodCode desc) (enumerate 0 methods) g;
          g = Printf ''\<newline>'' g;
          g = Printf (''@implementation '' @ namePrefix g @ tn_Name obj @ '' {\<newline>'') g;
          g = Printf ''}\<newline>\<newline>'' g;
          g = Printf ''- (id)initWithRef:(id)ref {\<newline>'' g;
          g = Indent g;
          g = Printf ''self = [super init];\<newline>'' g;
          g = Printf ''if (self) { _ref = ref; }\<newline>'' g;
          g = Printf ''return self;\<newline>'' g;
          g = Outdent g;
          g = Printf ''}\<newline>\<newline>'' g;
          g = fold (genStructM_field h desc) fields g
      in case foldP (genStructM_method h desc) methods g of
           Inl p \<Rightarrow> Inl p
         | Inr g \<Rightarrow> Inr (Printf ''@end\<newline>'' g))"

section \<open>genM\<close>

definition objcPreamble :: "string \<Rightarrow> string \<Rightarrow> string" where
  "objcPreamble a b =
     ''// Objective-C API for talking to '' @ a @ '' Go package.\<newline>'' @
     ''//   gobind -lang=objc '' @ b @ ''\<newline>'' @
     ''//\<newline>'' @
     ''// File is generated by gobind. Do not edit.\<newline>'' @
     ''\<newline>''"

text \<open>The loop body over \<open>g.names\<close>; the type assertion to \<open>*types.Named\<close> can panic.\<close>

definition genM_name :: "helpers \<Rightarrow> typename \<Rightarrow> objcGen \<Rightarrow> panic + objcGen" where
  "genM_name h obj g =
     (case tn_Type obj of
        Named p n u \<Rightarrow>
          (case u of
             Struct \<Rightarrow> (case genStructM h obj g of Inl e \<Rightarrow> Inl e | Inr g \<Rightarrow> Inr (Printf ''\<newline>'' g))
           | Interface \<Rightarrow> Inr (Printf ''\<newline>'' (genInterfaceM obj g))
           | _ \<Rightarrow> Inr (Printf ''\<newline>'' g))
      | _ \<Rightarrow> Inl TypeAssertion)"

definition genM_callCode :: "nat \<times> func \<Rightarrow> objcGen \<Rightarrow> objcGen" where
  "genM_callCode = (\<lambda>(i, obj) g.
     Printf (''#define _CALL_'' @ func_Name obj @ ''_ '' @ fmt_d (i + 1) @ ''\<newline>'') g)"

text \<open>
  \<open>genM\<close> returns the error list when it is not empty, and \<open>nil\<close> (\<open>None\<close>) otherwise;
  the generator itself is returned as well, since the caller reads its buffer.
\<close>

definition genM :: "helpers \<Rightarrow> objcGen \<Rightarrow> panic + (diagnostic list option \<times> objcGen)" where
  "genM h g =
     (let g = init h g;
          g = Printf (objcPreamble (pkg_Path (pkg g)) (pkg_Path (pkg g))) g;
          g = Printf (''#include '' @ fmt_q (namePrefix g @ ''.h'') @ ''\<newline>'') g;
          g = Printf ''#include <Foundation/Foundation.h>\<newline>'' g;
          g = Printf ''#include \"seq.h\"\<newline>'' g;
          g = Printf ''\<newline>'' g;
          g = Printf (''static NSString *errDomain = @\"go.'' @ pkg_Path (pkg g) @ ''\";\<newline>'') g;
          g = Printf ''\<newline>'' g;
          g = Printf (''#define _DESCRIPTOR_ '' @ fmt_q (pkgName g) @ ''\<newline>\<newline>'') g;
          g = fold genM_callCode (enumerate 0 (funcs g)) g;
          g = Printf ''\<newline>'' g
      in case foldP (genM_name h) (names g) g of
           Inl p \<Rightarrow> Inl p
         | Inr g \<Rightarrow>
             (let g = fold (\<lambda>obj g. Printf ''\<newline>'' (genFuncM h obj g)) (funcs g) g
              in Inr (if length (err g) > 0 then Some (err g) else None, g)))"

section \<open>Reading the generated macros\<close>

text \<open>
  The codes and descriptors are emitted as bodies of C macros. Their values are what a C
  compiler reads there: a decimal literal, a parenthesised hexadecimal literal, or a
  string literal.
\<close>

fun index_of :: "'a \<Rightarrow> 'a list \<Rightarrow> nat option" where
  "index_of c [] = None"
| "index_of c (x # xs) = (if c = x then Some 0 else map_option Suc (index_of c xs))"

fun read_digits :: "nat \<Rightarrow> string \<Rightarrow> nat \<Rightarrow> nat option" where
  "read_digits b [] acc = Some acc"
| "read_digits b (c # cs) acc =
     (case index_of c (take b digit_chars) of
        None \<Rightarrow> None
      | Some d \<Rightarrow> read_digits b cs (acc * b + d))"

definition c_int_literal :: "string \<Rightarrow> nat option" where
  "c_int_literal s =
     (if take 3 s = ''(0x'' \<and> 4 < length s \<and> last s = CHR '')''
      then read_digits 16 (butlast (drop 3 s)) 0
      else if s = [] then None else read_digits 10 s 0)"

fun c_unescape :: "string \<Rightarrow> string option" where
  "c_unescape [] = None"
| "c_unescape [c] = (if c = CHR ''\"'' then Some [] else None)"
| "c_unescape (c # d # r) =
     (if c = CHR 0x5C then map_option ((#) d) (c_unescape r)
      else if c = CHR ''\"'' then None
      else map_option ((#) c) (c_unescape (d # r)))"

definition c_string_literal :: "string \<Rightarrow> string option" where
  "c_string_literal s = (case s of [] \<Rightarrow> None | c # r \<Rightarrow> if c = CHR ''\"'' then c_unescape r else None)"

section \<open>The package scope after init, and acceptable result shapes\<close>

definition exportedFuncs :: "package \<Rightarrow> func list" where
  "exportedFuncs p =
     List.map_filter (\<lambda>obj. case obj of Func_obj f \<Rightarrow> if func_Exported f then Some f else None
                                       | _ \<Rightarrow> None) (pkg_Scope p)"

definition exportedNames :: "package \<Rightarrow> typename list" where
  "exportedNames p =
     List.map_filter (\<lambda>obj. case obj of TypeName_obj t \<Rightarrow> if tn_Exported t then Some t else None
                                       | _ \<Rightarrow> None) (pkg_Scope p)"

text \<open>The result lists that \<open>funcSummary\<close> accepts: at most one result, or a value and an error.\<close>

definition acceptedResults :: "func \<Rightarrow> bool" where
  "acceptedResults f =
     (length (func_Results f) \<le> 1 \<or>
      (length (func_Results f) = 2 \<and> isErrorType (var_Type (func_Results f ! 1))))"

text \<open>What \<open>genM\<close> needs of a type name to run to its end.\<close>

definition generable :: "typename \<Rightarrow> bool" where
  "generable t =
     (case tn_Type t of
        Named p n u \<Rightarrow> (u = Struct \<longrightarrow> list_all acceptedResults (exportedMethodSet t))
      | _ \<Rightarrow> False)"

section \<open>The bound test package\<close>

text \<open>
  Modelled from the spec: the package-level \<open>seqType\<close> names the buffer codec primitive of a
  type, \<open>Ref\<close> for object references; \<open>paramName\<close> keeps the source name of a parameter
  and synthesises one when it is absent or of the reserved form matched by \<open>paramRE\<close>.
  The package names bound below are ASCII, so that \<open>upperFirst\<close> is never applied; it is
  left as the identity.
\<close>

definition seqType_spec :: "gotype \<Rightarrow> string" where
  "seqType_spec t =
     (if isErrorType t then ''String''
      else case t of
        Basic k \<Rightarrow>
          (case k of
             types_Bool \<Rightarrow> ''Bool'' | types_Int \<Rightarrow> ''Int'' | types_Int8 \<Rightarrow> ''Int8''
           | types_Int16 \<Rightarrow> ''Int16'' | types_Int32 \<Rightarrow> ''Int32'' | types_Int64 \<Rightarrow> ''Int64''
           | types_Uint8 \<Rightarrow> ''Uint8'' | types_Float32 \<Rightarrow> ''Float32''
           | types_Float64 \<Rightarrow> ''Float64'' | types_String \<Rightarrow> ''String''
           | _ \<Rightarrow> ''TODO'')
      | Slice e \<Rightarrow> (if e = Basic types_Uint8 then ''ByteArray'' else ''TODO'')
      | Pointer e \<Rightarrow> (case e of Named p n u \<Rightarrow> ''Ref'' | _ \<Rightarrow> ''TODO'')
      | Named p n u \<Rightarrow> ''Ref''
      | _ \<Rightarrow> ''TODO'')"

definition paramRE_spec :: "string \<Rightarrow> bool" where
  "paramRE_spec s =
     (case s of [] \<Rightarrow> False
      | c # ds \<Rightarrow> c = CHR ''p'' \<and> ds \<noteq> [] \<and> list_all (\<lambda>d. d \<in> set ''0123456789'') ds)"

definition paramName_spec :: "var list \<Rightarrow> nat \<Rightarrow> string" where
  "paramName_spec params i =
     (let n = var_Name (params ! i)
      in if n = [] \<or> paramRE_spec n then ''p'' @ fmt_d i else n)"

definition spec_helpers :: helpers where
  "spec_helpers = \<lparr>seqType = seqType_spec, paramName = paramName_spec, paramRE = paramRE_spec,
                   upperFirst = (\<lambda>n. n)\<rparr>"

text \<open>A generator as its callers create it: only the printer and the package are set.\<close>

definition newGen :: "package \<Rightarrow> objcGen" where
  "newGen p = \<lparr>out = [], indent = 0, pkg = p, err = [], pkgName = [], namePrefix = [],
               funcs = [], names = []\<rparr>"

text \<open>
  The declarations of package \<open>testpkg\<close>, as the generated Go binder
  \<open>go_testpkg.go\<close> shows them: nine functions and the struct \<open>S\<close> with two fields and
  two methods.
\<close>

definition testpkg_path :: string where
  "testpkg_path = ''golang.org/x/mobile/bind/objc/testpkg''"

definition mkvar :: "string \<Rightarrow> gotype \<Rightarrow> var" where
  "mkvar n t = \<lparr>var_Name = n, var_Type = t\<rparr>"

definition mkfunc :: "string \<Rightarrow> var list \<Rightarrow> var list \<Rightarrow> func" where
  "mkfunc n ps rs = \<lparr>func_Name = n, func_Exported = True, func_Params = ps, func_Results = rs\<rparr>"

definition testpkg_S_type :: gotype where
  "testpkg_S_type = Named (Some testpkg_path) ''S'' Struct"

definition testpkg_S :: typename where
  "testpkg_S =
     \<lparr>tn_Name = ''S'', tn_Exported = True, tn_Type = testpkg_S_type,
      exportedFields = [mkvar ''X'' (Basic types_Float64), mkvar ''Y'' (Basic types_Float64)],
      exportedMethodSet =
        [mkfunc ''Sum'' [] [mkvar [] (Basic types_Float64)],
         mkfunc ''TryTwoStrings''
           [mkvar ''first'' (Basic types_String), mkvar ''second'' (Basic types_String)]
           [mkvar [] (Basic types_String)]]\<rparr>"

definition testpkg_ReturnsError :: func where
  "testpkg_ReturnsError =
     mkfunc ''ReturnsError'' [mkvar ''b'' (Basic types_Bool)]
       [mkvar [] (Basic types_String), mkvar [] universe_error]"

definition testpkg_Sum :: func where
  "testpkg_Sum =
     mkfunc ''Sum'' [mkvar ''x'' (Basic types_Int64), mkvar ''y'' (Basic types_Int64)]
       [mkvar [] (Basic types_Int64)]"

definition testpkg :: package where
  "testpkg =
     \<lparr>pkg_Path = testpkg_path, pkg_Name = ''testpkg'',
      pkg_Scope =
        [Func_obj (mkfunc ''BytesAppend''
            [mkvar ''a'' (Slice (Basic types_Uint8)), mkvar ''b'' (Slice (Basic types_Uint8))]
            [mkvar [] (Slice (Basic types_Uint8))]),
         Func_obj (mkfunc ''CallSSum'' [mkvar ''s'' (Pointer testpkg_S_type)]
            [mkvar [] (Basic types_Float64)]),
         Func_obj (mkfunc ''CollectS''
            [mkvar ''want'' (Basic types_Int), mkvar ''timeoutSec'' (Basic types_Int)]
            [mkvar [] (Basic types_Int)]),
         Func_obj (mkfunc ''Hello'' [mkvar ''s'' (Basic types_String)] [mkvar [] (Basic types_String)]),
         Func_obj (mkfunc ''Hi'' [] []),
         Func_obj (mkfunc ''Int'' [mkvar ''x'' (Basic types_Int32)] []),
         Func_obj (mkfunc ''NewS''
            [mkvar ''x'' (Basic types_Float64), mkvar ''y'' (Basic types_Float64)]
            [mkvar [] (Pointer testpkg_S_type)]),
         Func_obj testpkg_ReturnsError,
         TypeName_obj testpkg_S,
         Func_obj testpkg_Sum]\<rparr>"

section \<open>The Go half for testpkg\<close>

text \<open>
  The constants and the registrations of \<open>go_testpkg.go\<close>.
  Modelled from the spec: \<open>seq.Register\<close> enters a handler into the process-wide dispatch
  table under (descriptor, code); a key that is already taken is fatal.
\<close>

datatype proxy =
    proxy_BytesAppend | proxy_CallSSum | proxy_CollectS | proxy_Hello | proxy_Hi | proxy_Int
  | proxy_NewS | proxy_ReturnsError | proxy_Sum
  | proxyS_X_Set | proxyS_X_Get | proxyS_Y_Set | proxyS_Y_Get | proxyS_Sum | proxyS_TryTwoStrings

definition proxyS_Descriptor :: string where "proxyS_Descriptor = ''go.testpkg.S''"
definition proxyS_X_Get_Code :: nat where "proxyS_X_Get_Code = 0x00f"
definition proxyS_X_Set_Code :: nat where "proxyS_X_Set_Code = 0x01f"
definition proxyS_Y_Get_Code :: nat where "proxyS_Y_Get_Code = 0x10f"
definition proxyS_Y_Set_Code :: nat where "proxyS_Y_Set_Code = 0x11f"
definition proxyS_Sum_Code :: nat where "proxyS_Sum_Code = 0x00c"
definition proxyS_TryTwoStrings_Code :: nat where "proxyS_TryTwoStrings_Code = 0x10c"

type_synonym registry = "((string \<times> nat) \<times> proxy) list"

datatype fatal = DuplicateRegistration

definition Register :: "string \<Rightarrow> nat \<Rightarrow> proxy \<Rightarrow> registry \<Rightarrow> fatal + registry" where
  "Register descriptor code fn r =
     (case map_of r (descriptor, code) of
        Some other \<Rightarrow> Inl DuplicateRegistration
      | None \<Rightarrow> Inr (r @ [((descriptor, code), fn)]))"

fun registerAll :: "(string \<times> nat \<times> proxy) list \<Rightarrow> registry \<Rightarrow> fatal + registry" where
  "registerAll [] r = Inr r"
| "registerAll ((d, c, f) # xs) r =
     (case Register d c f r of Inl e \<Rightarrow> Inl e | Inr r' \<Rightarrow> registerAll xs r')"

text \<open>The two \<open>init\<close> functions of the file, in source order.\<close>

definition go_testpkg_init :: "registry \<Rightarrow> fatal + registry" where
  "go_testpkg_init r =
     registerAll
       [(proxyS_Descriptor, proxyS_X_Set_Code, proxyS_X_Set),
        (proxyS_Descriptor, proxyS_X_Get_Code, proxyS_X_Get),
        (proxyS_Descriptor, proxyS_Y_Set_Code, proxyS_Y_Set),
        (proxyS_Descriptor, proxyS_Y_Get_Code, proxyS_Y_Get),
        (proxyS_Descriptor, proxyS_Sum_Code, proxyS_Sum),
        (proxyS_Descriptor, proxyS_TryTwoStrings_Code, proxyS_TryTwoStrings),
        (''testpkg'', 1, proxy_BytesAppend),
        (''testpkg'', 2, proxy_CallSSum),
        (''testpkg'', 3, proxy_CollectS),
        (''testpkg'', 4, proxy_Hello),
        (''testpkg'', 5, proxy_Hi),
        (''testpkg'', 6, proxy_Int),
        (''testpkg'', 7, proxy_NewS),
        (''testpkg'', 8, proxy_ReturnsError),
        (''testpkg'', 9, proxy_Sum)] r"

section \<open>What a run leaves untouched\<close>

text \<open>
  The generator only ever appends to its buffer and to its error list.
  \<open>prepend\<close> puts earlier output and earlier diagnostics in front of a generator's own;
  \<open>frame\<close> collects the fields that the emitters read but do not change.
\<close>

definition prepend :: "(nat \<times> string) list \<Rightarrow> diagnostic list \<Rightarrow> objcGen \<Rightarrow> objcGen" where
  "prepend os es g = g\<lparr>out := os @ out g, err := es @ err g\<rparr>"

definition frame :: "objcGen \<Rightarrow> nat \<times> package \<times> string \<times> string \<times> func list \<times> typename list" where
  "frame g = (indent g, pkg g, pkgName g, namePrefix g, funcs g, names g)"

text \<open>The same generator with an empty buffer and an empty error list.\<close>

definition fresh :: "objcGen \<Rightarrow> objcGen" where
  "fresh g = g\<lparr>out := [], err := []\<rparr>"

text \<open>A function with two results, neither of them an error: \<open>func Pair() (string, int)\<close>.\<close>

definition pairFunc :: func where
  "pairFunc = mkfunc ''Pair'' [] [mkvar [] (Basic types_String), mkvar [] (Basic types_Int)]"

text \<open>\<open>func Triple() (string, int, error)\<close> and \<open>func Fail() error\<close>.\<close>

definition tripleFunc :: func where
  "tripleFunc = mkfunc ''Triple'' []
     [mkvar [] (Basic types_String), mkvar [] (Basic types_Int), mkvar [] universe_error]"

definition failFunc :: func where
  "failFunc = mkfunc ''Fail'' [] [mkvar [] universe_error]"

section \<open>One run of genM\<close>

text \<open>
  What \<open>genM\<close> prints between \<open>init\<close> and its loop over the type names: the preamble,
  the includes, the error domain, and the descriptor and call codes of the functions.
\<close>

definition genM_head :: "objcGen \<Rightarrow> objcGen" where
  "genM_head g =
     (let g = Printf (objcPreamble (pkg_Path (pkg g)) (pkg_Path (pkg g))) g;
          g = Printf (''#include '' @ fmt_q (namePrefix g @ ''.h'') @ ''\<newline>'') g;
          g = Printf ''#include <Foundation/Foundation.h>\<newline>'' g;
          g = Printf ''#include \"seq.h\"\<newline>'' g;
          g = Printf ''\<newline>'' g;
          g = Printf (''static NSString *errDomain = @\"go.'' @ pkg_Path (pkg g) @ ''\";\<newline>'') g;
          g = Printf ''\<newline>'' g;
          g = Printf (''#define _DESCRIPTOR_ '' @ fmt_q (pkgName g) @ ''\<newline>\<newline>'') g;
          g = fold genM_callCode (enumerate 0 (funcs g)) g
      in Printf ''\<newline>'' g)"

text \<open>The text that one run of \<open>genM\<close> appends to the buffer, or the panic that ends it.\<close>

definition emitted :: "helpers \<Rightarrow> objcGen \<Rightarrow> panic + (nat \<times> string) list" where
  "emitted h g = map_sum id (\<lambda>(r, g'). drop (length (out g)) (out g')) (genM h g)"

text \<open>The call of a stub: the send under a descriptor macro and a code macro.\<close>

definition send_line :: "string \<Rightarrow> string \<Rightarrow> string" where
  "send_line pkgDesc callDesc = ''go_seq_send('' @ pkgDesc @ '', '' @ callDesc @ '', &in_, &out_);\<newline>''"

text \<open>
  A generator that has run before: stale functions, names, diagnostics and output are left in
  it. And a package with an unsupported parameter type: \<open>func Bad(m map[string]int)\<close>
  next to \<open>func Good()\<close>.
\<close>

definition usedGen :: "package \<Rightarrow> objcGen" where
  "usedGen p = \<lparr>out = [(0, ''stale'')], indent = 0, pkg = p, err = [TooManyResults ''Old''],
                pkgName = ''old'', namePrefix = ''GoOld'', funcs = [pairFunc], names = []\<rparr>"

definition badpkg :: package where
  "badpkg = \<lparr>pkg_Path = ''example.com/bad'', pkg_Name = ''bad'',
     pkg_Scope = [Func_obj (mkfunc ''Bad'' [mkvar ''m'' (Map_t (Basic types_String) (Basic types_Int))] []),
                  Func_obj (mkfunc ''Good'' [] [])]\<rparr>"

definition isNamed :: "gotype \<Rightarrow> bool" where
  "isNamed t = (case t of Named p n u \<Rightarrow> True | _ \<Rightarrow> False)"

section \<open>The generated stub as a program\<close>

text \<open>
  \<open>genFunc\<close> prints the body of a caller stub line by line. To say what a stub does
  when it runs, the same body is given as a list of statements: \<open>stub\<close> builds the
  statements as \<open>genFunc\<close> prints them, and \<open>render\<close> prints a statement as its lines,
  one per \<open>Printf\<close> call, with the indentation of the nesting.
  Locals of the stub and its parameters are kept apart (a stub in which they collide
  does not compile).
\<close>

datatype stmt =
    DeclSeq string
  | WriteSelfRef
  | WriteParam string string bool
  | Send string string
  | ReadVal string string string
  | ReadRef string
  | DeclObj string string string
  | IfNull string "stmt list"
  | AllocInit string string string
  | IfError string string "stmt list"
  | DeclDetails
  | SetDetails string
  | StoreNSError string
  | IfPtr string "stmt list"
  | Store string string
  | StoreObj string string
  | IfDerefNull string "stmt list"
  | StoreAllocInit string string string
  | Free string
  | ReturnEmpty string
  | Return string

fun render :: "nat \<Rightarrow> stmt \<Rightarrow> (nat \<times> string) list" where
  "render n (DeclSeq x) = [(n, ''GoSeq '' @ x @ '' = {};\<newline>'')]"
| "render n WriteSelfRef = [(n, ''go_seq_writeRef(&in_, self.ref);\<newline>'')]"
| "render n (WriteParam st x isRef) =
     [(n, ''go_seq_write'' @ st @ ''(&in_, '' @ x @ (if isRef then ''.ref);\<newline>'' else '');\<newline>''))]"
| "render n (Send pkgDesc callDesc) =
     [(n, ''go_seq_send('' @ pkgDesc @ '', '' @ callDesc @ '', &in_, &out_);\<newline>'')]"
| "render n (ReadVal t x st) = [(n, t @ '' '' @ x @ '' = go_seq_read'' @ st @ ''(&out_);\<newline>'')]"
| "render n (ReadRef x) = [(n, ''GoSeqRef* '' @ x @ '' = go_seq_readRef(&out_);\<newline>'')]"
| "render n (DeclObj t x r) = [(n, t @ '' '' @ x @ '' = '' @ r @ ''.obj;\<newline>'')]"
| "render n (IfNull x body) =
     [(n, ''if ('' @ x @ '' == NULL) {\<newline>'')] @ concat (map (render (Suc n)) body) @ [(n, ''}\<newline>'')]"
| "render n (AllocInit x c r) = [(n, x @ '' = [['' @ c @ '' alloc] initWithRef:'' @ r @ ''];\<newline>'')]"
| "render n (IfError e p body) =
     [(n, ''if (['' @ e @ '' length] != 0 && '' @ p @ '' != nil) {\<newline>'')]
     @ concat (map (render (Suc n)) body) @ [(n, ''}\<newline>'')]"
| "render n DeclDetails = [(n, ''NSMutableDictionary *details = [NSMutableDictionary dictionary];\<newline>'')]"
| "render n (SetDetails e) = [(n, ''[details setValue:'' @ e @ '' forKey:NSLocalizedDescriptionKey];\<newline>'')]"
| "render n (StoreNSError p) =
     [(n, ''*'' @ p @ '' = [NSError errorWithDomain:errDomain code:1 userInfo:details];\<newline>'')]"
| "render n (IfPtr p body) =
     [(n, ''if ('' @ p @ '' != NULL) {\<newline>'')] @ concat (map (render (Suc n)) body) @ [(n, ''}\<newline>'')]"
| "render n (Store p x) = [(n, ''*'' @ p @ '' = '' @ x @ '';\<newline>'')]"
| "render n (StoreObj p r) = [(n, ''*'' @ p @ '' = '' @ r @ ''.obj;\<newline>'')]"
| "render n (IfDerefNull p body) =
     [(n, ''if (*'' @ p @ '' == NULL) {\<newline>'')] @ concat (map (render (Suc n)) body) @ [(n, ''}\<newline>'')]"
| "render n (StoreAllocInit p c r) =
     [(n, ''*'' @ p @ '' = [['' @ c @ '' alloc] initWithRef:'' @ r @ ''];\<newline>'')]"
| "render n (Free x) = [(n, ''go_seq_free(&'' @ x @ '');\<newline>'')]"
| "render n (ReturnEmpty e) = [(n, ''return (['' @ e @ '' length] == 0);\<newline>'')]"
| "render n (Return x) = [(n, ''return '' @ x @ '';\<newline>'')]"

definition stub_param :: "helpers \<Rightarrow> paramInfo \<Rightarrow> stmt" where
  "stub_param h p =
     (let st = objcGen_seqType h (p_typ p) in WriteParam st (p_name p) (st = ''Ref''))"

definition stub_retParam :: "helpers \<Rightarrow> objcGen \<Rightarrow> paramInfo \<Rightarrow> stmt list" where
  "stub_retParam h g p =
     (if isErrorType (p_typ p) then
        [ReadVal ''NSString*'' (''_'' @ p_name p) ''UTF8'',
         IfError (''_'' @ p_name p) (p_name p)
           [DeclDetails, SetDetails (''_'' @ p_name p), StoreNSError (p_name p)]]
      else if objcGen_seqType h (p_typ p) \<noteq> ''Ref'' then
        [ReadVal (fst (objcType (p_typ p) g)) (p_name p @ ''_val'') (objcGen_seqType h (p_typ p)),
         IfPtr (p_name p) [Store (p_name p) (p_name p @ ''_val'')]]
      else
        [ReadRef (p_name p @ ''_ref''),
         IfPtr (p_name p)
           [StoreObj (p_name p) (p_name p @ ''_ref''),
            IfDerefNull (p_name p)
              [StoreAllocInit (p_name p) (butlast (fst (objcType (p_typ p) g))) (p_name p @ ''_ref'')]]])"

definition stub_result :: "helpers \<Rightarrow> objcGen \<Rightarrow> funcSummary \<Rightarrow> stmt list" where
  "stub_result h g s =
     (if returnsVal s then
        (let p = s_retParams s ! 0 in
         if objcGen_seqType h (p_typ p) \<noteq> ''Ref'' then
           [ReadVal (fst (objcType (p_typ p) g)) (p_name p) (objcGen_seqType h (p_typ p))]
         else
           [ReadRef (p_name p @ ''_ref''),
            DeclObj (fst (objcType (p_typ p) g)) (p_name p) (p_name p @ ''_ref''),
            IfNull (p_name p)
              [AllocInit (p_name p) (butlast (fst (objcType (p_typ p) g))) (p_name p @ ''_ref'')]])
      else concat (map (stub_retParam h g) (s_retParams s)))"

definition stub_return :: "funcSummary \<Rightarrow> stmt list" where
  "stub_return s =
     (let n = length (s_retParams s) in
      if n > 0 then
        (let p = s_retParams s ! (n - 1) in
         if isErrorType (p_typ p) then [ReturnEmpty (''_'' @ p_name p)] else [Return (p_name p)])
      else [])"

definition stub :: "helpers \<Rightarrow> objcGen \<Rightarrow> string \<Rightarrow> string \<Rightarrow> funcSummary \<Rightarrow> bool \<Rightarrow> stmt list" where
  "stub h g pkgDesc callDesc s isMethod =
     [DeclSeq ''in_'', DeclSeq ''out_'']
     @ (if isMethod then [WriteSelfRef] else [])
     @ map (stub_param h) (s_params s)
     @ [Send pkgDesc callDesc]
     @ stub_result h g s
     @ [Free ''in_'', Free ''out_'']
     @ stub_return s"

section \<open>Running a stub\<close>

text \<open>
  Modelled from the spec: the buffer primitives and the reference registry of \<open>seq.h\<close>.
  A buffer is the sequence of values written to it; a read takes the next value. An
  object reference is an integer handle; \<open>refobj\<close> is the registry, which holds for a
  handle the wrapper attached to its reference (the \<open>obj\<close> property that the stub reads).
  \<open>alloc\<close> creates a new object, identified by its index in \<open>heap\<close>, and the generated
  \<open>initWithRef:\<close> stores the reference in the new wrapper and nothing else.
\<close>

datatype val = Nil | Num int | Bool bool | Str string | Ref int | Obj nat | NSError val

datatype fault = NullDereference | BufferUnderrun | BadValue

record cstate =
  in_buf :: "val list"
  out_buf :: "val list"
  locals :: "string \<Rightarrow> val option"
  mem :: "nat \<Rightarrow> val option"
  refobj :: "int \<Rightarrow> nat option"
  heap :: "(string \<times> val) list"
  freed :: "string list"
  returned :: "val option"

text \<open>
  What a call is given: the receiver's reference, the arguments, the out-parameter pointers
  (\<open>None\<close> is NULL, otherwise the address of a cell of \<open>mem\<close>) and the callee side behind
  \<open>go_seq_send\<close>.
\<close>

record cenv =
  self_ref :: val
  args :: "string \<Rightarrow> val"
  ptrs :: "string \<Rightarrow> nat option"
  respond :: "string \<Rightarrow> string \<Rightarrow> val list \<Rightarrow> val list"

definition obj_of :: "cstate \<Rightarrow> int \<Rightarrow> val" where
  "obj_of s r = (case refobj s r of None \<Rightarrow> Nil | Some w \<Rightarrow> Obj w)"

definition ref_of :: "cstate \<Rightarrow> val \<Rightarrow> val" where
  "ref_of s v = (case v of Obj w \<Rightarrow> if w < length (heap s) then snd (heap s ! w) else Nil | _ \<Rightarrow> Nil)"

fun exec :: "cenv \<Rightarrow> stmt \<Rightarrow> cstate \<Rightarrow> fault + cstate"
  and execs :: "cenv \<Rightarrow> stmt list \<Rightarrow> cstate \<Rightarrow> fault + cstate" where
  "execs env [] s = Inr s"
| "execs env (x # xs) s = (case exec env x s of Inl f \<Rightarrow> Inl f | Inr s' \<Rightarrow> execs env xs s')"
| "exec env (DeclSeq x) s = Inr (if x = ''in_'' then s\<lparr>in_buf := []\<rparr> else s\<lparr>out_buf := []\<rparr>)"
| "exec env WriteSelfRef s = Inr (s\<lparr>in_buf := in_buf s @ [self_ref env]\<rparr>)"
| "exec env (WriteParam st x isRef) s =
     Inr (s\<lparr>in_buf := in_buf s @ [if isRef then ref_of s (args env x) else args env x]\<rparr>)"
| "exec env (Send pkgDesc callDesc) s = Inr (s\<lparr>out_buf := respond env pkgDesc callDesc (in_buf s)\<rparr>)"
| "exec env (ReadVal t x st) s =
     (case out_buf s of
        [] \<Rightarrow> Inl BufferUnderrun
      | v # r \<Rightarrow> Inr (s\<lparr>out_buf := r, locals := (locals s)(x \<mapsto> v)\<rparr>))"
| "exec env (ReadRef x) s =
     (case out_buf s of
        [] \<Rightarrow> Inl BufferUnderrun
      | v # r \<Rightarrow> (case v of Ref n \<Rightarrow> Inr (s\<lparr>out_buf := r, locals := (locals s)(x \<mapsto> v)\<rparr>)
                           | _ \<Rightarrow> Inl BadValue))"
| "exec env (DeclObj t x r) s =
     (case locals s r of
        Some (Ref n) \<Rightarrow> Inr (s\<lparr>locals := (locals s)(x \<mapsto> obj_of s n)\<rparr>)
      | _ \<Rightarrow> Inl BadValue)"
| "exec env (IfNull x body) s =
     (case locals s x of
        None \<Rightarrow> Inl BadValue
      | Some v \<Rightarrow> if v = Nil then execs env body s else Inr s)"
| "exec env (AllocInit x c r) s =
     (case locals s r of
        None \<Rightarrow> Inl BadValue
      | Some v \<Rightarrow> Inr (s\<lparr>heap := heap s @ [(c, v)],
                          locals := (locals s)(x \<mapsto> Obj (length (heap s)))\<rparr>))"
| "exec env (IfError e p body) s =
     (case locals s e of
        Some (Str m) \<Rightarrow> if m \<noteq> [] \<and> ptrs env p \<noteq> None then execs env body s else Inr s
      | _ \<Rightarrow> Inl BadValue)"
| "exec env DeclDetails s = Inr (s\<lparr>locals := (locals s)(''details'' \<mapsto> Nil)\<rparr>)"
| "exec env (SetDetails e) s =
     (case locals s e of
        None \<Rightarrow> Inl BadValue
      | Some v \<Rightarrow> Inr (s\<lparr>locals := (locals s)(''details'' \<mapsto> v)\<rparr>))"
| "exec env (StoreNSError p) s =
     (case ptrs env p of
        None \<Rightarrow> Inl NullDereference
      | Some a \<Rightarrow> (case locals s ''details'' of
                     None \<Rightarrow> Inl BadValue
                   | Some d \<Rightarrow> Inr (s\<lparr>mem := (mem s)(a \<mapsto> NSError d)\<rparr>)))"
| "exec env (IfPtr p body) s = (if ptrs env p \<noteq> None then execs env body s else Inr s)"
| "exec env (Store p x) s =
     (case ptrs env p of
        None \<Rightarrow> Inl NullDereference
      | Some a \<Rightarrow> (case locals s x of
                     None \<Rightarrow> Inl BadValue
                   | Some v \<Rightarrow> Inr (s\<lparr>mem := (mem s)(a \<mapsto> v)\<rparr>)))"
| "exec env (StoreObj p r) s =
     (case ptrs env p of
        None \<Rightarrow> Inl NullDereference
      | Some a \<Rightarrow> (case locals s r of
                     Some (Ref n) \<Rightarrow> Inr (s\<lparr>mem := (mem s)(a \<mapsto> obj_of s n)\<rparr>)
                   | _ \<Rightarrow> Inl BadValue))"
| "exec env (IfDerefNull p body) s =
     (case ptrs env p of
        None \<Rightarrow> Inl NullDereference
      | Some a \<Rightarrow> if mem s a = Some Nil then execs env body s else Inr s)"
| "exec env (StoreAllocInit p c r) s =
     (case ptrs env p of
        None \<Rightarrow> Inl NullDereference
      | Some a \<Rightarrow> (case locals s r of
                     None \<Rightarrow> Inl BadValue
                   | Some v \<Rightarrow> Inr (s\<lparr>heap := heap s @ [(c, v)],
                                       mem := (mem s)(a \<mapsto> Obj (length (heap s)))\<rparr>)))"
| "exec env (Free x) s = Inr (s\<lparr>freed := freed s @ [x]\<rparr>)"
| "exec env (ReturnEmpty e) s =
     (case locals s e of
        Some (Str m) \<Rightarrow> Inr (s\<lparr>returned := Some (Bool (m = []))\<rparr>)
      | _ \<Rightarrow> Inl BadValue)"
| "exec env (Return x) s =
     (case locals s x of
        None \<Rightarrow> Inl BadValue
      | Some v \<Rightarrow> Inr (s\<lparr>returned := Some v\<rparr>))"

text \<open>One call of a stub: a new activation on the memory, registry and heap as they are.\<close>

definition call :: "cenv \<Rightarrow> stmt list \<Rightarrow> cstate \<Rightarrow> fault + cstate" where
  "call env body s = execs env body (s\<lparr>locals := Map.empty, freed := [], returned := None\<rparr>)"

definition start :: cstate where
  "start = \<lparr>in_buf = [], out_buf = [], locals = Map.empty, mem = Map.empty, refobj = Map.empty,
            heap = [], freed = [], returned = None\<rparr>"

section \<open>The Go half of ReturnsError\<close>

text \<open>
  A Go error is \<open>nil\<close> (\<open>None\<close>) or a value whose \<open>Error()\<close> method returns a
  message. \<open>proxy_ReturnsError\<close> is the dispatcher of \<open>go_testpkg.go\<close>; the bound function
  \<open>testpkg.ReturnsError\<close> is its parameter \<open>callee\<close>. Modelled from the spec: the
  primitives of \<open>seq.Buffer\<close>: a read takes the next value of the buffer, a write appends.
\<close>

type_synonym goerror = "string option"

definition ReadBool :: "val list \<Rightarrow> (bool \<times> val list) option" where
  "ReadBool b = (case b of Bool x # r \<Rightarrow> Some (x, r) | _ \<Rightarrow> None)"

definition WriteString :: "string \<Rightarrow> val list \<Rightarrow> val list" where
  "WriteString v b = b @ [Str v]"

definition proxy_ReturnsError_run ::
    "(bool \<Rightarrow> string \<times> goerror) \<Rightarrow> val list \<Rightarrow> val list \<Rightarrow> val list option" where
  "proxy_ReturnsError_run callee outb inb =
     (case ReadBool inb of
        None \<Rightarrow> None
      | Some (param_b, inb) \<Rightarrow>
          (case callee param_b of (res, failure) \<Rightarrow>
           let outb = WriteString res outb
           in Some (case failure of None \<Rightarrow> WriteString [] outb
                              | Some e \<Rightarrow> WriteString e outb)))"

section \<open>Responses and stubs with out-parameters\<close>

text \<open>
  A response fits the out-parameters of a stub when it holds one value for each, a string
  where the stub reads a failure message and a reference where it reads one.
\<close>

fun fits :: "helpers \<Rightarrow> paramInfo list \<Rightarrow> val list \<Rightarrow> bool" where
  "fits h [] vs = (vs = [])"
| "fits h (p # ps) [] = False"
| "fits h (p # ps) (v # vs) =
     ((if isErrorType (p_typ p) then (case v of Str m \<Rightarrow> True | _ \<Rightarrow> False)
       else if objcGen_seqType h (p_typ p) = ''Ref'' then (case v of Ref n \<Rightarrow> True | _ \<Rightarrow> False)
       else True)
      \<and> fits h ps vs)"

definition lastIsError :: "funcSummary \<Rightarrow> bool" where
  "lastIsError s = (s_retParams s = [] \<or> isErrorType (p_typ (last (s_retParams s))))"

text \<open>A caller that passes NULL for every out-parameter, and receives a fixed response.\<close>

definition nullCaller :: "val list \<Rightarrow> cenv" where
  "nullCaller resp = \<lparr>self_ref = Nil, args = (\<lambda>x. Num 0), ptrs = (\<lambda>x. None),
                       respond = (\<lambda>pkgDesc callDesc inb. resp)\<rparr>"

text \<open>The summaries of \<open>ReturnsError\<close> and \<open>NewS\<close> of testpkg, as \<open>funcSummary\<close> gives them.\<close>

definition summary_ReturnsError :: funcSummary where
  "summary_ReturnsError =
     \<lparr>s_name = ''ReturnsError'', s_ret = ''BOOL'',
      s_params = [\<lparr>p_typ = Basic types_Bool, p_name = ''b''\<rparr>],
      s_retParams = [\<lparr>p_typ = Basic types_String, p_name = ''ret0_''\<rparr>,
                     \<lparr>p_typ = universe_error, p_name = ''error''\<rparr>]\<rparr>"

definition summary_NewS :: funcSummary where
  "summary_NewS =
     \<lparr>s_name = ''NewS'', s_ret = ''GoTestpkgS*'',
      s_params = [\<lparr>p_typ = Basic types_Float64, p_name = ''x''\<rparr>,
                  \<lparr>p_typ = Basic types_Float64, p_name = ''y''\<rparr>],
      s_retParams = [\<lparr>p_typ = Pointer testpkg_S_type, p_name = ''ret0_''\<rparr>]\<rparr>"

text \<open>
  A bound function that fails with an error whose message is empty (\<open>errors.New("")\<close>),
  and a caller of the stub of \<open>ReturnsError\<close> whose sends reach \<open>proxy_ReturnsError\<close>.
\<close>

definition emptyError :: "bool \<Rightarrow> string \<times> goerror" where
  "emptyError b = ([], Some [])"

definition goCaller :: "(bool \<Rightarrow> string \<times> goerror) \<Rightarrow> bool \<Rightarrow> (string \<Rightarrow> nat option) \<Rightarrow> cenv" where
  "goCaller callee b ps =
     \<lparr>self_ref = Nil, args = (\<lambda>x. Bool b), ptrs = ps,
      respond = (\<lambda>pkgDesc callDesc inb.
        case proxy_ReturnsError_run callee [] inb of None \<Rightarrow> [] | Some r \<Rightarrow> r)\<rparr>"

definition stub_ReturnsError :: "stmt list" where
  "stub_ReturnsError =
     stub spec_helpers (init spec_helpers (newGen testpkg)) ''_DESCRIPTOR_'' ''_CALL_ReturnsError_''
       summary_ReturnsError False"

definition stub_NewS :: "stmt list" where
  "stub_NewS =
     stub spec_helpers (init spec_helpers (newGen testpkg)) ''_DESCRIPTOR_'' ''_CALL_NewS_'' summary_NewS False"

text \<open>
  A caller that receives a fixed response and passes the pointers \<open>ps\<close>, and the pointers of
  a caller of \<open>ReturnsError\<close> that passes the addresses of two cells.
\<close>

definition caller :: "(string \<Rightarrow> nat option) \<Rightarrow> val list \<Rightarrow> cenv" where
  "caller ps resp = \<lparr>self_ref = Nil, args = (\<lambda>x. Num 0), ptrs = ps,
                      respond = (\<lambda>pkgDesc callDesc inb. resp)\<rparr>"

definition twoPointers :: "string \<Rightarrow> nat option" where
  "twoPointers x = (if x = ''ret0_'' then Some 0 else if x = ''error'' then Some 1 else None)"

section \<open>The macros of the generated file\<close>

text \<open>
  The generated file assigns a descriptor or a code by a line \<open>#define NAME BODY\<close>. What
  a C compiler sees is read off the printed lines: a \<open>Printf\<close> defines a macro when its
  text starts with \<open>#define\<close> and a space; the name ends at the next space and the body at
  the end of the line; the body is a string literal (a descriptor) or an integer literal
  (a code). \<open>macros\<close> lists the macros of a text in the order of their definition.
\<close>

datatype macro_value = Descriptor string | Code nat

definition isMacro :: "nat \<times> string \<Rightarrow> bool" where
  "isMacro l = (take 8 (snd l) = ''#define '')"

definition macro_value_of :: "string \<Rightarrow> macro_value option" where
  "macro_value_of body =
     (if take 1 body = ''\"'' then map_option Descriptor (c_string_literal body)
      else map_option Code (c_int_literal body))"

definition read_macro :: "string \<Rightarrow> (string \<times> macro_value) option" where
  "read_macro s =
     (let r = drop 8 s;
          name = takeWhile (\<lambda>c. c \<noteq> CHR '' '') r;
          body = takeWhile (\<lambda>c. c \<noteq> CHR 0x0A) (drop (Suc (length name)) r)
      in map_option (Pair name) (macro_value_of body))"

definition macros :: "(nat \<times> string) list \<Rightarrow> (string \<times> macro_value) option list" where
  "macros E = map (\<lambda>l. read_macro (snd l)) (filter isMacro E)"

text \<open>
  Go identifiers: letters, digits and the underscore, not starting with a digit; a byte
  from 0x80 on belongs to the encoding of a letter outside ASCII. A package is well named
  when the names of its exported declarations, of their fields and methods, and the names
  of the results (which may be absent) are identifiers.
\<close>

definition identChar :: "char \<Rightarrow> bool" where
  "identChar c =
     (let n = of_char c :: nat
      in (48 \<le> n \<and> n \<le> 57) \<or> (65 \<le> n \<and> n \<le> 90) \<or> n = 95 \<or> (97 \<le> n \<and> n \<le> 122) \<or> 128 \<le> n)"

definition goIdentifier :: "string \<Rightarrow> bool" where
  "goIdentifier s =
     (case s of [] \<Rightarrow> False
      | c # r \<Rightarrow> \<not> (48 \<le> (of_char c :: nat) \<and> (of_char c :: nat) \<le> 57) \<and> list_all identChar s)"

definition funcNamed :: "func \<Rightarrow> bool" where
  "funcNamed f =
     (goIdentifier (func_Name f) \<and>
      list_all (\<lambda>r. var_Name r = [] \<or> goIdentifier (var_Name r)) (func_Results f))"

definition wellNamed :: "package \<Rightarrow> bool" where
  "wellNamed p =
     (goIdentifier (pkg_Name p) \<and> list_all funcNamed (exportedFuncs p) \<and>
      list_all (\<lambda>t. goIdentifier (tn_Name t) \<and>
                    list_all (\<lambda>f. goIdentifier (var_Name f)) (exportedFields t) \<and>
                    list_all funcNamed (exportedMethodSet t))
        (exportedNames p))"

text \<open>Whether \<open>genM\<close> takes a type name for a struct.\<close>

definition isStruct :: "typename \<Rightarrow> bool" where
  "isStruct t = (case tn_Type t of Named p n u \<Rightarrow> (case u of Struct \<Rightarrow> True | _ \<Rightarrow> False) | _ \<Rightarrow> False)"

section \<open>The assignment, in the words of the specification\<close>

text \<open>
  The declaration model of the specification: the package name, the exported functions in
  their order, and the exported types in their order, a struct with its exported fields
  and its exported methods in their order. Only names, order and kind are kept: no
  signature, no type of a field, no import path.
\<close>

datatype type_decl = StructDecl string "string list" "string list" | OtherDecl string

record declaration_model =
  dm_package :: string
  dm_functions :: "string list"
  dm_types :: "type_decl list"

definition type_decl_of :: "typename \<Rightarrow> type_decl" where
  "type_decl_of t =
     (if isStruct t
      then StructDecl (tn_Name t) (map var_Name (exportedFields t)) (map func_Name (exportedMethodSet t))
      else OtherDecl (tn_Name t))"

definition declaration_model_of :: "package \<Rightarrow> declaration_model" where
  "declaration_model_of p =
     \<lparr>dm_package = pkg_Name p, dm_functions = map func_Name (exportedFuncs p),
      dm_types = map type_decl_of (exportedNames p)\<rparr>"

text \<open>
  The assignment of the specification, as a table in the order of the generated file:
  for each surface the macro that names its descriptor or its code, and the value. The
  package has the descriptor that is its name, and its i-th function the code i+1; a
  struct T has the descriptor go.<package>.T, its i-th field the getter code (i<<8)|0x0f
  and the setter code (i<<8)|0x1f, its k-th method the code (k<<8)|0x0c. A callable
  surface is called under the descriptor of its package or struct and its own code.
\<close>

datatype surface =
    PackageOf string
  | FreeFunction string
  | StructOf string
  | FieldGetter string string
  | FieldSetter string string
  | Method string string

definition struct_assignment_spec ::
    "string \<Rightarrow> string \<Rightarrow> string list \<Rightarrow> string list \<Rightarrow> (surface \<times> string \<times> macro_value) list" where
  "struct_assignment_spec pn t fs ms =
     [(StructOf t, ''_GO_'' @ pn @ ''_'' @ t @ ''_DESCRIPTOR_'', Descriptor (''go.'' @ pn @ ''.'' @ t))] @
     concat (map (\<lambda>(i, f).
        [(FieldGetter t f, ''_GO_'' @ pn @ ''_'' @ t @ ''_FIELD_'' @ f @ ''_GET_'', Code (push_bit 8 i OR 0x0f)),
         (FieldSetter t f, ''_GO_'' @ pn @ ''_'' @ t @ ''_FIELD_'' @ f @ ''_SET_'', Code (push_bit 8 i OR 0x1f))])
       (enumerate 0 fs)) @
     map (\<lambda>(k, m). (Method t m, ''_GO_'' @ pn @ ''_'' @ t @ ''_'' @ m @ ''_'', Code (push_bit 8 k OR 0x0c)))
       (enumerate 0 ms)"

definition type_assignment_spec :: "string \<Rightarrow> type_decl \<Rightarrow> (surface \<times> string \<times> macro_value) list" where
  "type_assignment_spec pn d =
     (case d of StructDecl t fs ms \<Rightarrow> struct_assignment_spec pn t fs ms | OtherDecl t \<Rightarrow> [])"

definition assignment_spec :: "declaration_model \<Rightarrow> (surface \<times> string \<times> macro_value) list" where
  "assignment_spec m =
     [(PackageOf (dm_package m), ''_DESCRIPTOR_'', Descriptor (dm_package m))] @
     map (\<lambda>(i, f). (FreeFunction f, ''_CALL_'' @ f @ ''_'', Code (i + 1))) (enumerate 0 (dm_functions m)) @
     concat (map (type_assignment_spec (dm_package m)) (dm_types m))"

text \<open>
  The hash sign does not start a text: what \<open>objcType\<close> returns, and the names the stubs
  start a line with, in a well-named package.
\<close>

definition nohash :: "string \<Rightarrow> bool" where
  "nohash s = (case s of [] \<Rightarrow> True | c # r \<Rightarrow> c \<noteq> CHR ''#'')"

text \<open>A text in which no \<open>Printf\<close> defines a macro, and a generator whose name prefix is set.\<close>

definition quiet :: "(nat \<times> string) list \<Rightarrow> bool" where
  "quiet xs = (\<forall>l \<in> set xs. \<not> isMacro l)"

definition prefixed :: "objcGen \<Rightarrow> bool" where
  "prefixed g = (namePrefix g \<noteq> [] \<and> nohash (namePrefix g))"

text \<open>
  A second package with the declaration model of \<open>badpkg\<close>: another import path, other
  signatures, and a constant between the two functions:
  \<open>func Bad(n int) int\<close>, \<open>const Limit\<close>, \<open>func Good() error\<close>.
\<close>

definition otherpkg :: package where
  "otherpkg = \<lparr>pkg_Path = ''example.com/other'', pkg_Name = ''bad'',
     pkg_Scope = [Func_obj (mkfunc ''Bad'' [mkvar ''n'' (Basic types_Int)] [mkvar [] (Basic types_Int)]),
                  Const_obj ''Limit'' True,
                  Func_obj (mkfunc ''Good'' [] [mkvar [] universe_error])]\<rparr>"

section \<open>Basic facts\<close>

lemma isErrorType_simps [simp]:
  "isErrorType (Basic k) = False" "isErrorType (Slice e) = False" "isErrorType (Pointer e) = False"
  "isErrorType (Array n e) = False" "isErrorType (Map_t a b) = False" "isErrorType (Chan e) = False"
  "isErrorType Struct = False" "isErrorType Interface = False" "isErrorType Signature = False"
  "isErrorType universe_error"
  by (simp_all add: isErrorType_def universe_error_def)

lemma mk_simps [simp]:
  "var_Name (mkvar n t) = n" "var_Type (mkvar n t) = t"
  "func_Name (mkfunc n ps rs) = n" "func_Exported (mkfunc n ps rs)"
  "func_Params (mkfunc n ps rs) = ps" "func_Results (mkfunc n ps rs) = rs"
  by (simp_all add: mkvar_def mkfunc_def)

lemma newGen_simps [simp]:
  "out (newGen p) = []" "indent (newGen p) = 0" "pkg (newGen p) = p" "err (newGen p) = []"
  by (simp_all add: newGen_def)

subsection \<open>Result shapes\<close>

lemma funcSummary_too_many:
  "3 \<le> length (func_Results obj) \<Longrightarrow>
   funcSummary h obj g = (None, errorf (TooManyResults (func_Name obj)) g)"
  by (auto simp add: funcSummary_def Let_def)

lemma funcSummary_not_error:
  "length (func_Results obj) = 2 \<Longrightarrow> \<not> isErrorType (var_Type (func_Results obj ! 1)) \<Longrightarrow>
   funcSummary h obj g = (None, errorf (ResultNotError (func_Name obj)) g)"
  by (auto simp add: funcSummary_def Let_def)

lemma funcSummary_only_error:
  "length (func_Results obj) = 1 \<Longrightarrow> isErrorType (var_Type (func_Results obj ! 0)) \<Longrightarrow>
   \<exists>s. funcSummary h obj g = (Some s, g) \<and> s_ret s = ''BOOL'' \<and>
       s_retParams s = [\<lparr>p_typ = universe_error, p_name = ''error''\<rparr>] \<and> \<not> returnsVal s \<and>
       genFunc_return s g = Printf ''return ([_error length] == 0);\<newline>'' g"
  by (auto simp add: funcSummary_def Let_def returnsVal_def isErrorType_def genFunc_return_def)

text \<open>
  C4. \<open>funcSummary\<close> classifies a function by the number of its results. With three or
  more results it returns nil and records TooManyResults. With exactly two results whose
  second is not the error type it returns nil and records ResultNotError. With the error
  type as the only result it returns a summary, records nothing, and the summary follows
  the boolean-success convention: the stub's return type is BOOL, the only out-parameter
  is the error, no value is returned, and the stub ends by returning whether the failure
  message is empty.
\<close>

theorem funcSummary_classifies_results:
  "(3 \<le> length (func_Results obj) \<longrightarrow>
      funcSummary h obj g = (None, errorf (TooManyResults (func_Name obj)) g)) \<and>
   (length (func_Results obj) = 2 \<and> \<not> isErrorType (var_Type (func_Results obj ! 1)) \<longrightarrow>
      funcSummary h obj g = (None, errorf (ResultNotError (func_Name obj)) g)) \<and>
   (length (func_Results obj) = 1 \<and> isErrorType (var_Type (func_Results obj ! 0)) \<longrightarrow>
      (\<exists>s. funcSummary h obj g = (Some s, g) \<and> s_ret s = ''BOOL'' \<and>
           s_retParams s = [\<lparr>p_typ = universe_error, p_name = ''error''\<rparr>] \<and>
           \<not> returnsVal s \<and>
           genFunc_return s g = Printf ''return ([_error length] == 0);\<newline>'' g))"
  using funcSummary_too_many funcSummary_not_error funcSummary_only_error by blast

theorem funcSummary_classifies_results_witness:
  "funcSummary spec_helpers tripleFunc (newGen testpkg)
     = (None, errorf (TooManyResults ''Triple'') (newGen testpkg)) \<and>
   funcSummary spec_helpers pairFunc (newGen testpkg)
     = (None, errorf (ResultNotError ''Pair'') (newGen testpkg)) \<and>
   (\<exists>s. funcSummary spec_helpers failFunc (newGen testpkg) = (Some s, newGen testpkg) \<and>
        s_ret s = ''BOOL'' \<and> \<not> returnsVal s)"
  using funcSummary_classifies_results [where obj = tripleFunc and h = spec_helpers and g = "newGen testpkg"]
        funcSummary_classifies_results [where obj = pairFunc and h = spec_helpers and g = "newGen testpkg"]
        funcSummary_classifies_results [where obj = failFunc and h = spec_helpers and g = "newGen testpkg"]
  by (simp add: tripleFunc_def pairFunc_def failFunc_def) blast


subsection \<open>Frames and prepending\<close>

lemma prepend_fields [simp]:
  "out (prepend os es g) = os @ out g" "err (prepend os es g) = es @ err g"
  "indent (prepend os es g) = indent g" "pkg (prepend os es g) = pkg g"
  "pkgName (prepend os es g) = pkgName g" "namePrefix (prepend os es g) = namePrefix g"
  "funcs (prepend os es g) = funcs g" "names (prepend os es g) = names g"
  by (simp_all add: prepend_def)

lemma frame_prepend [simp]: "frame (prepend os es g) = frame g"
  by (simp add: frame_def)

lemma frame_fields:
  "frame a = frame b \<Longrightarrow> indent a = indent b"
  "frame a = frame b \<Longrightarrow> pkg a = pkg b"
  "frame a = frame b \<Longrightarrow> pkgName a = pkgName b"
  "frame a = frame b \<Longrightarrow> namePrefix a = namePrefix b"
  "frame a = frame b \<Longrightarrow> funcs a = funcs b"
  "frame a = frame b \<Longrightarrow> names a = names b"
  by (simp_all add: frame_def)

lemma Printf_fields [simp]:
  "out (Printf s g) = out g @ [(indent g, s)]" "err (Printf s g) = err g"
  "frame (Printf s g) = frame g"
  by (simp_all add: Printf_def frame_def)

lemmas Printf_frame_fields [simp] = frame_fields [OF Printf_fields(3)]

lemma errorf_fields [simp]:
  "out (errorf d g) = out g" "err (errorf d g) = err g @ [d]" "frame (errorf d g) = frame g"
  by (simp_all add: errorf_def frame_def)

lemmas errorf_frame_fields [simp] = frame_fields [OF errorf_fields(3)]

lemma Indent_fields [simp]:
  "out (Indent g) = out g" "err (Indent g) = err g" "indent (Indent g) = Suc (indent g)"
  "pkg (Indent g) = pkg g" "pkgName (Indent g) = pkgName g" "namePrefix (Indent g) = namePrefix g"
  "funcs (Indent g) = funcs g" "names (Indent g) = names g"
  by (simp_all add: Indent_def)

lemma Outdent_fields [simp]:
  "out (Outdent g) = out g" "err (Outdent g) = err g" "indent (Outdent g) = indent g - 1"
  "pkg (Outdent g) = pkg g" "pkgName (Outdent g) = pkgName g" "namePrefix (Outdent g) = namePrefix g"
  "funcs (Outdent g) = funcs g" "names (Outdent g) = names g"
  by (simp_all add: Outdent_def)

lemma Printf_prepend [simp]: "Printf s (prepend os es g) = prepend os es (Printf s g)"
  by (simp add: Printf_def prepend_def)

lemma Indent_prepend [simp]: "Indent (prepend os es g) = prepend os es (Indent g)"
  by (simp add: Indent_def prepend_def)

lemma Outdent_prepend [simp]: "Outdent (prepend os es g) = prepend os es (Outdent g)"
  by (simp add: Outdent_def prepend_def)

lemma errorf_prepend [simp]: "errorf d (prepend os es g) = prepend os es (errorf d g)"
  by (simp add: errorf_def prepend_def)

subsection \<open>The type mapper, case by case\<close>

lemma objcType_Basic:
  "objcType (Basic k) g =
     (case k of
        types_Bool \<Rightarrow> (''BOOL'', g) | types_Int \<Rightarrow> (''int'', g) | types_Int8 \<Rightarrow> (''int8_t'', g)
      | types_Int16 \<Rightarrow> (''int16_t'', g) | types_Int32 \<Rightarrow> (''int32_t'', g)
      | types_Int64 \<Rightarrow> (''int64_t'', g) | types_Uint8 \<Rightarrow> (''byte'', g)
      | types_Uint16 \<Rightarrow> (''uint16_t'', g) | types_Uint32 \<Rightarrow> (''uint32_t'', g)
      | types_Uint64 \<Rightarrow> (''uint64_t'', g) | types_Float32 \<Rightarrow> (''float'', g)
      | types_Float64 \<Rightarrow> (''double'', g) | types_String \<Rightarrow> (''NSString*'', g)
      | _ \<Rightarrow> (''TODO'', errorf (UnsupportedType (Basic k)) g))"
  by (subst objcType.simps) simp

lemma objcType_Slice:
  "objcType (Slice e) g =
     (case objcType e g of (elem, g1) \<Rightarrow>
        if elem = ''byte'' then (''NSData*'', g1)
        else (''TODO'', errorf (UnsupportedType (Slice e)) g1))"
  by (subst objcType.simps) simp

lemma objcType_Pointer:
  "objcType (Pointer e) g =
     (case e of
        Named p n u \<Rightarrow> (case objcType e g of (s, g1) \<Rightarrow> (s @ ''*'', g1))
      | _ \<Rightarrow> (''TODO'', errorf (UnsupportedType (Pointer e)) g))"
  by (subst objcType.simps) simp

lemma objcType_Named:
  "objcType (Named p n u) g =
     (if isErrorType (Named p n u) then (''NSError*'', g)
      else if p \<noteq> Some (pkg_Path (pkg g)) then (''TODO'', errorf (UnsupportedType (Named p n u)) g)
      else case u of
             Interface \<Rightarrow> (namePrefix g @ n @ ''*'', g)
           | Struct \<Rightarrow> (namePrefix g @ n, g)
           | _ \<Rightarrow> (''TODO'', errorf (UnsupportedType (Named p n u)) g))"
  by (subst objcType.simps) simp

lemma objcType_other:
  "objcType (Array k e) g = (''TODO'', errorf (UnsupportedType (Array k e)) g)"
  "objcType (Map_t a b) g = (''TODO'', errorf (UnsupportedType (Map_t a b)) g)"
  "objcType (Chan e) g = (''TODO'', errorf (UnsupportedType (Chan e)) g)"
  "objcType Struct g = (''TODO'', errorf (UnsupportedType Struct) g)"
  "objcType Interface g = (''TODO'', errorf (UnsupportedType Interface) g)"
  "objcType Signature g = (''TODO'', errorf (UnsupportedType Signature) g)"
  by (subst objcType.simps, simp)+

lemma objcType_prepend:
  "objcType t (prepend os es g) = (fst (objcType t g), prepend os es (snd (objcType t g)))"
proof (induction t arbitrary: g)
  case (Basic k)
  show ?case by (cases k) (simp_all add: objcType_Basic)
next
  case (Slice e)
  show ?case by (simp add: objcType_Slice Slice split: prod.splits)
next
  case (Pointer e)
  show ?case using Pointer [of g] by (cases e) (simp_all add: objcType_Pointer split: prod.splits)
next
  case (Named p n u)
  show ?case by (cases u) (simp_all add: objcType_Named)
qed (simp_all add: objcType_other)

lemma objcType_frame_out: "frame (snd (objcType t g)) = frame g \<and> out (snd (objcType t g)) = out g"
proof (induction t arbitrary: g)
  case (Basic k)
  show ?case by (cases k) (simp_all add: objcType_Basic)
next
  case (Slice e)
  show ?case using Slice [of g] by (auto simp add: objcType_Slice split: prod.splits)
next
  case (Pointer e)
  show ?case using Pointer [of g] by (cases e) (auto simp add: objcType_Pointer split: prod.splits)
next
  case (Named p n u)
  show ?case by (cases u) (simp_all add: objcType_Named)
qed (simp_all add: objcType_other)

lemmas objcType_frame [simp] = objcType_frame_out [THEN conjunct1]
lemmas objcType_out [simp] = objcType_frame_out [THEN conjunct2]
lemmas objcType_frame_fields [simp] = frame_fields [OF objcType_frame]

lemma objcType_nonempty: "namePrefix g \<noteq> [] \<Longrightarrow> fst (objcType t g) \<noteq> []"
proof (induction t arbitrary: g)
  case (Basic k)
  then show ?case by (cases k) (simp_all add: objcType_Basic)
next
  case (Slice e)
  then show ?case by (simp add: objcType_Slice split: prod.splits)
next
  case (Pointer e)
  then show ?case by (cases e) (simp_all add: objcType_Pointer split: prod.splits)
next
  case (Named p n u)
  then show ?case by (cases u) (simp_all add: objcType_Named)
qed (simp_all add: objcType_other)


subsection \<open>Loops\<close>

lemma fold_frame:
  assumes "\<And>x g. frame (f x g) = frame g"
  shows "frame (fold f xs g) = frame g"
  by (induction xs arbitrary: g) (simp_all add: assms)

lemma fold_prepend:
  assumes "\<And>x g. f x (prepend os es g) = prepend os es (f x g)"
  shows "fold f xs (prepend os es g) = prepend os es (fold f xs g)"
  by (induction xs arbitrary: g) (simp_all add: assms)

lemma fold_acc_frame:
  assumes "\<And>x ps g. frame (snd (F x (ps, g))) = frame g"
  shows "frame (snd (fold F xs (ps, g))) = frame g"
proof (induction xs arbitrary: ps g)
  case Nil
  show ?case by simp
next
  case (Cons x xs)
  obtain ps' g' where s: "F x (ps, g) = (ps', g')" by (cases "F x (ps, g)")
  have "frame g' = frame g" using assms [of x ps g] s by simp
  then show ?case using Cons [of ps' g'] s by simp
qed

lemma fold_acc_prepend:
  assumes "\<And>x ps g. F x (ps, prepend os es g) = (fst (F x (ps, g)), prepend os es (snd (F x (ps, g))))"
  shows "fold F xs (ps, prepend os es g)
         = (fst (fold F xs (ps, g)), prepend os es (snd (fold F xs (ps, g))))"
proof (induction xs arbitrary: ps g)
  case Nil
  show ?case by simp
next
  case (Cons x xs)
  obtain ps' g' where s: "F x (ps, g) = (ps', g')" by (cases "F x (ps, g)")
  show ?case using Cons [of ps' g'] s assms [of x ps g] by simp
qed

lemma foldP_frame:
  assumes "\<And>x g g'. f x g = Inr g' \<Longrightarrow> frame g' = frame g"
  shows "foldP f xs g = Inr g' \<Longrightarrow> frame g' = frame g"
proof (induction xs arbitrary: g)
  case Nil
  then show ?case by simp
next
  case (Cons x xs)
  then show ?case using assms by (auto split: sum.splits)
qed

lemma foldP_prepend:
  assumes "\<And>x g. f x (prepend os es g) = map_sum id (prepend os es) (f x g)"
  shows "foldP f xs (prepend os es g) = map_sum id (prepend os es) (foldP f xs g)"
proof (induction xs arbitrary: g)
  case Nil
  show ?case by simp
next
  case (Cons x xs)
  show ?case using Cons by (cases "f x g") (simp_all add: assms)
qed

subsection \<open>Summaries and signatures\<close>

lemma funcSummary_frame_out:
  "frame (snd (funcSummary h obj g)) = frame g \<and> out (snd (funcSummary h obj g)) = out g"
  by (simp add: funcSummary_def Let_def case_prod_beta)

lemmas funcSummary_frame [simp] = funcSummary_frame_out [THEN conjunct1]
lemmas funcSummary_out [simp] = funcSummary_frame_out [THEN conjunct2]
lemmas funcSummary_frame_fields [simp] = frame_fields [OF funcSummary_frame]

lemma funcSummary_prepend:
  "funcSummary h obj (prepend os es g)
   = (fst (funcSummary h obj g), prepend os es (snd (funcSummary h obj g)))"
  by (simp add: funcSummary_def Let_def case_prod_beta objcType_prepend)

lemma asFunc_param_frame: "frame (snd (asFunc_param p (ps, g))) = frame g"
  by (simp add: asFunc_param_def case_prod_beta)
lemma asFunc_retParam_frame: "frame (snd (asFunc_retParam p (ps, g))) = frame g"
  by (simp add: asFunc_retParam_def case_prod_beta)
lemma asMethod_param_frame: "frame (snd (asMethod_param ip (ps, g))) = frame g"
  by (simp add: asMethod_param_def case_prod_beta Let_def)
lemma asMethod_retParam_frame: "frame (snd (asMethod_retParam p (ps, g))) = frame g"
  by (simp add: asMethod_retParam_def case_prod_beta Let_def)

lemma asFunc_param_out: "out (snd (asFunc_param p (ps, g))) = out g"
  by (simp add: asFunc_param_def case_prod_beta)
lemma asFunc_retParam_out: "out (snd (asFunc_retParam p (ps, g))) = out g"
  by (simp add: asFunc_retParam_def case_prod_beta)
lemma asMethod_param_out: "out (snd (asMethod_param ip (ps, g))) = out g"
  by (simp add: asMethod_param_def case_prod_beta Let_def)
lemma asMethod_retParam_out: "out (snd (asMethod_retParam p (ps, g))) = out g"
  by (simp add: asMethod_retParam_def case_prod_beta Let_def)

lemma fold_acc_out:
  assumes "\<And>x ps g. out (snd (F x (ps, g))) = out g"
  shows "out (snd (fold F xs (ps, g))) = out g"
proof (induction xs arbitrary: ps g)
  case Nil
  show ?case by simp
next
  case (Cons x xs)
  obtain ps' g' where s: "F x (ps, g) = (ps', g')" by (cases "F x (ps, g)")
  have "out g' = out g" using assms [of x ps g] s by simp
  then show ?case using Cons [of ps' g'] s by simp
qed

lemma asFunc_frame_out: "frame (snd (asFunc s g)) = frame g \<and> out (snd (asFunc s g)) = out g"
proof -
  obtain ps g1 where a: "fold asFunc_param (s_params s) ([], g) = (ps, g1)"
    by (cases "fold asFunc_param (s_params s) ([], g)")
  have 1: "frame g1 = frame g" "out g1 = out g"
    using fold_acc_frame [of asFunc_param "s_params s" "[]" g, OF asFunc_param_frame]
          fold_acc_out [of asFunc_param "s_params s" "[]" g, OF asFunc_param_out] a by simp_all
  have 2: "frame (snd (fold asFunc_retParam (s_retParams s) (ps, g1))) = frame g1"
          "out (snd (fold asFunc_retParam (s_retParams s) (ps, g1))) = out g1"
    using fold_acc_frame [of asFunc_retParam, OF asFunc_retParam_frame]
          fold_acc_out [of asFunc_retParam, OF asFunc_retParam_out] by simp_all
  show ?thesis using 1 2 a by (simp add: asFunc_def case_prod_beta)
qed

lemmas asFunc_frame [simp] = asFunc_frame_out [THEN conjunct1]
lemmas asFunc_out [simp] = asFunc_frame_out [THEN conjunct2]
lemmas asFunc_frame_fields [simp] = frame_fields [OF asFunc_frame]

lemma asMethod_frame_out: "frame (snd (asMethod s g)) = frame g \<and> out (snd (asMethod s g)) = out g"
proof -
  obtain ps g1 where a: "fold asMethod_param (enumerate 0 (s_params s)) ([], g) = (ps, g1)"
    by (cases "fold asMethod_param (enumerate 0 (s_params s)) ([], g)")
  have 1: "frame g1 = frame g" "out g1 = out g"
    using fold_acc_frame [of asMethod_param "enumerate 0 (s_params s)" "[]" g, OF asMethod_param_frame]
          fold_acc_out [of asMethod_param "enumerate 0 (s_params s)" "[]" g, OF asMethod_param_out] a
    by simp_all
  have 2: "frame (snd (fold asMethod_retParam (s_retParams s) (ps, g1))) = frame g1"
          "out (snd (fold asMethod_retParam (s_retParams s) (ps, g1))) = out g1"
    using fold_acc_frame [of asMethod_retParam, OF asMethod_retParam_frame]
          fold_acc_out [of asMethod_retParam, OF asMethod_retParam_out] by simp_all
  show ?thesis using 1 2 a by (simp add: asMethod_def case_prod_beta)
qed

lemmas asMethod_frame [simp] = asMethod_frame_out [THEN conjunct1]
lemmas asMethod_out [simp] = asMethod_frame_out [THEN conjunct2]
lemmas asMethod_frame_fields [simp] = frame_fields [OF asMethod_frame]

lemma asFunc_prepend:
  "asFunc s (prepend os es g) = (fst (asFunc s g), prepend os es (snd (asFunc s g)))"
proof -
  have p: "\<And>xs ps g. fold asFunc_param xs (ps, prepend os es g)
      = (fst (fold asFunc_param xs (ps, g)), prepend os es (snd (fold asFunc_param xs (ps, g))))"
    by (rule fold_acc_prepend) (simp add: asFunc_param_def case_prod_beta objcType_prepend)
  have r: "\<And>xs ps g. fold asFunc_retParam xs (ps, prepend os es g)
      = (fst (fold asFunc_retParam xs (ps, g)), prepend os es (snd (fold asFunc_retParam xs (ps, g))))"
    by (rule fold_acc_prepend) (simp add: asFunc_retParam_def case_prod_beta objcType_prepend)
  show ?thesis by (simp add: asFunc_def p r case_prod_beta)
qed

lemma asMethod_prepend:
  "asMethod s (prepend os es g) = (fst (asMethod s g), prepend os es (snd (asMethod s g)))"
proof -
  have p: "\<And>xs ps g. fold asMethod_param xs (ps, prepend os es g)
      = (fst (fold asMethod_param xs (ps, g)), prepend os es (snd (fold asMethod_param xs (ps, g))))"
    by (rule fold_acc_prepend) (simp add: asMethod_param_def case_prod_beta objcType_prepend Let_def)
  have r: "\<And>xs ps g. fold asMethod_retParam xs (ps, prepend os es g)
      = (fst (fold asMethod_retParam xs (ps, g)), prepend os es (snd (fold asMethod_retParam xs (ps, g))))"
    by (rule fold_acc_prepend) (simp add: asMethod_retParam_def case_prod_beta objcType_prepend Let_def)
  show ?thesis by (simp add: asMethod_def p r case_prod_beta)
qed


subsection \<open>Stub bodies\<close>

lemma fresh_fields [simp]:
  "out (fresh g) = []" "err (fresh g) = []" "frame (fresh g) = frame g"
  by (simp_all add: fresh_def frame_def)

lemmas fresh_frame_fields [simp] = frame_fields [OF fresh_fields(3)]

lemma prepend_fresh: "prepend (out g) (err g) (fresh g) = g"
  by (simp add: prepend_def fresh_def)

lemma genFunc_param_frame [simp]: "frame (genFunc_param h p g) = frame g"
  by (simp add: genFunc_param_def Let_def)

lemma genFunc_param_prepend:
  "genFunc_param h p (prepend os es g) = prepend os es (genFunc_param h p g)"
  by (simp add: genFunc_param_def Let_def)

lemma genFunc_param_out:
  "out (genFunc_param h p g) = out g @ [(indent g,
     ''go_seq_write'' @ objcGen_seqType h (p_typ p) @ ''(&in_, '' @ p_name p @
     (if objcGen_seqType h (p_typ p) = ''Ref'' then ''.ref);\<newline>'' else '');\<newline>''))]"
  by (simp add: genFunc_param_def Let_def)

lemma genFunc_retParam_frame [simp]: "frame (genFunc_retParam h p g) = frame g"
  by (simp add: genFunc_retParam_def Let_def case_prod_beta frame_def)

lemmas genFunc_retParam_frame_fields [simp] = frame_fields [OF genFunc_retParam_frame]

lemma genFunc_retParam_prepend:
  "genFunc_retParam h p (prepend os es g) = prepend os es (genFunc_retParam h p g)"
  by (simp add: genFunc_retParam_def Let_def case_prod_beta objcType_prepend)

lemma genFunc_result_frame [simp]: "frame (genFunc_result h s g) = frame g"
proof -
  have "frame (fold (genFunc_retParam h) (s_retParams s) g) = frame g"
    by (rule fold_frame) simp
  then show ?thesis
    by (simp add: genFunc_result_def Let_def case_prod_beta) (simp add: frame_def)
qed

lemmas genFunc_result_frame_fields [simp] = frame_fields [OF genFunc_result_frame]

lemma genFunc_result_prepend:
  "genFunc_result h s (prepend os es g) = prepend os es (genFunc_result h s g)"
  by (simp add: genFunc_result_def Let_def case_prod_beta objcType_prepend
        fold_prepend [of "genFunc_retParam h", OF genFunc_retParam_prepend])

lemma genFunc_return_frame [simp]: "frame (genFunc_return s g) = frame g"
  by (simp add: genFunc_return_def Let_def)

lemmas genFunc_return_frame_fields [simp] = frame_fields [OF genFunc_return_frame]

lemma genFunc_return_prepend:
  "genFunc_return s (prepend os es g) = prepend os es (genFunc_return s g)"
  by (simp add: genFunc_return_def Let_def)

lemma genFunc_params_frame [simp]: "frame (fold (genFunc_param h) ps g) = frame g"
  by (rule fold_frame) simp

lemmas genFunc_params_frame_fields [simp] = frame_fields [OF genFunc_params_frame]

lemma genFunc_frame [simp]: "frame (genFunc h pd cd s m g) = frame g"
  by (simp add: genFunc_def Let_def)

lemmas genFunc_frame_fields [simp] = frame_fields [OF genFunc_frame]

lemma genFunc_prepend:
  "genFunc h pd cd s m (prepend os es g) = prepend os es (genFunc h pd cd s m g)"
  by (simp add: genFunc_def Let_def genFunc_return_prepend genFunc_result_prepend
        fold_prepend [of "genFunc_param h", OF genFunc_param_prepend])

text \<open>Every stub sends exactly under the two macros it was given.\<close>

lemma out_append_fresh:
  assumes "\<And>os es g. f (prepend os es g) = prepend os es (f g)"
  shows "out (f g) = out g @ out (f (fresh g))"
proof -
  have "f g = prepend (out g) (err g) (f (fresh g))"
    using assms [of "out g" "err g" "fresh g"] by (simp add: prepend_fresh)
  then show ?thesis by (metis prepend_fields(1))
qed

lemma genFunc_out:
  "\<exists>before after.
     out (genFunc h pd cd s m g)
       = out g @ before @ [(indent g, ''go_seq_send('' @ pd @ '', '' @ cd @ '', &in_, &out_);\<newline>'')] @ after"
proof -
  let ?send = "(indent g, ''go_seq_send('' @ pd @ '', '' @ cd @ '', &in_, &out_);\<newline>'')"
  define g1 where "g1 = (let g = Printf ''GoSeq in_ = {};\<newline>'' g;
          g = Printf ''GoSeq out_ = {};\<newline>'' g;
          g = (if m then Printf ''go_seq_writeRef(&in_, self.ref);\<newline>'' g else g)
      in fold (genFunc_param h) (s_params s) g)"
  define tail where "tail = (\<lambda>g. let g = genFunc_result h s g;
          g = Printf ''go_seq_free(&in_);\<newline>'' g;
          g = Printf ''go_seq_free(&out_);\<newline>'' g
      in genFunc_return s g)"
  have g: "genFunc h pd cd s m g = tail (Printf (snd ?send) g1)"
    by (simp add: genFunc_def g1_def tail_def Let_def)
  have i: "indent g1 = indent g" by (simp add: g1_def Let_def)
  have "out g1 = out g @ out ((\<lambda>g. let g = Printf ''GoSeq in_ = {};\<newline>'' g;
          g = Printf ''GoSeq out_ = {};\<newline>'' g;
          g = (if m then Printf ''go_seq_writeRef(&in_, self.ref);\<newline>'' g else g)
      in fold (genFunc_param h) (s_params s) g) (fresh g))"
    unfolding g1_def
    by (rule out_append_fresh)
       (simp add: Let_def fold_prepend [of "genFunc_param h", OF genFunc_param_prepend])
  then obtain b where b: "out g1 = out g @ b" by blast
  have "out (tail (Printf (snd ?send) g1)) = out (Printf (snd ?send) g1) @ out (tail (fresh (Printf (snd ?send) g1)))"
    by (rule out_append_fresh)
       (simp add: tail_def Let_def genFunc_return_prepend genFunc_result_prepend)
  then show ?thesis using g b i by auto
qed


subsection \<open>Functions and structs\<close>

lemma genFuncM_frame [simp]: "frame (genFuncM h obj g) = frame g"
  by (simp add: genFuncM_def Let_def case_prod_beta frame_def split: option.splits)

lemmas genFuncM_frame_fields [simp] = frame_fields [OF genFuncM_frame]

lemma genFuncM_prepend:
  "genFuncM h obj (prepend os es g) = prepend os es (genFuncM h obj g)"
  by (simp add: genFuncM_def Let_def case_prod_beta funcSummary_prepend asFunc_prepend
        genFunc_prepend split: option.splits)

lemma structDesc_frame: "frame g' = frame g \<Longrightarrow> structDesc g' obj = structDesc g obj"
  by (simp add: structDesc_def frame_def)

lemma genStructM_fieldCodes_frame [simp]: "frame (genStructM_fieldCodes desc x g) = frame g"
  by (simp add: genStructM_fieldCodes_def case_prod_beta Let_def)

lemma genStructM_fieldCodes_prepend:
  "genStructM_fieldCodes desc x (prepend os es g) = prepend os es (genStructM_fieldCodes desc x g)"
  by (simp add: genStructM_fieldCodes_def case_prod_beta Let_def)

lemma genStructM_methodCode_frame [simp]: "frame (genStructM_methodCode desc x g) = frame g"
  by (simp add: genStructM_methodCode_def case_prod_beta)

lemma genStructM_methodCode_prepend:
  "genStructM_methodCode desc x (prepend os es g) = prepend os es (genStructM_methodCode desc x g)"
  by (simp add: genStructM_methodCode_def case_prod_beta)

lemma genStructM_field_frame [simp]: "frame (genStructM_field h desc f g) = frame g"
  by (simp add: genStructM_field_def Let_def case_prod_beta frame_def)

lemma genStructM_field_prepend:
  "genStructM_field h desc f (prepend os es g) = prepend os es (genStructM_field h desc f g)"
  by (simp add: genStructM_field_def Let_def case_prod_beta objcType_prepend asMethod_prepend
        genFunc_prepend)

lemma genStructM_method_frame:
  "genStructM_method h desc m g = Inr g' \<Longrightarrow> frame g' = frame g"
  by (auto simp add: genStructM_method_def Let_def case_prod_beta frame_def split: option.splits)

lemma genStructM_method_prepend:
  "genStructM_method h desc m (prepend os es g)
   = map_sum id (prepend os es) (genStructM_method h desc m g)"
  by (simp add: genStructM_method_def Let_def case_prod_beta funcSummary_prepend asMethod_prepend
        genFunc_prepend split: option.splits)

lemma genStructM_codes_frame [simp]:
  "frame (fold (genStructM_fieldCodes desc) xs g) = frame g"
  "frame (fold (genStructM_methodCode desc) ys g) = frame g"
  "frame (fold (genStructM_field h desc) fs g) = frame g"
  by (rule fold_frame, simp)+

lemmas genStructM_codes_frame_fields [simp] =
  frame_fields [OF genStructM_codes_frame(1)] frame_fields [OF genStructM_codes_frame(2)]
  frame_fields [OF genStructM_codes_frame(3)]

lemma genStructM_frame:
  assumes "genStructM h obj g = Inr g'"
  shows "frame g' = frame g"
proof -
  from assms obtain g1 g2 where
    a: "foldP (genStructM_method h (structDesc g obj)) (exportedMethodSet obj) g1 = Inr g2"
    and b: "frame g1 = frame g" and c: "g' = Printf ''@end\<newline>'' g2"
    by (simp add: genStructM_def Let_def split: sum.splits) (simp add: frame_def)
  have "frame g2 = frame g1"
    using a by (rule foldP_frame [rotated]) (rule genStructM_method_frame)
  then show ?thesis using b c by simp
qed

lemma genStructM_prepend:
  "genStructM h obj (prepend os es g) = map_sum id (prepend os es) (genStructM h obj g)"
proof -
  have d: "structDesc (prepend os es g) obj = structDesc g obj"
    by (simp add: structDesc_def)
  show ?thesis
    by (simp add: genStructM_def Let_def d
        fold_prepend [of "genStructM_fieldCodes _", OF genStructM_fieldCodes_prepend]
        fold_prepend [of "genStructM_methodCode _", OF genStructM_methodCode_prepend]
        fold_prepend [of "genStructM_field _ _", OF genStructM_field_prepend]
        foldP_prepend [of "genStructM_method _ _", OF genStructM_method_prepend]
        split: sum.splits)
qed

lemma genM_name_frame: "genM_name h obj g = Inr g' \<Longrightarrow> frame g' = frame g"
  by (auto simp add: genM_name_def genInterfaceM_def split: gotype.splits sum.splits
      dest: genStructM_frame)

lemma genM_name_prepend:
  "genM_name h obj (prepend os es g) = map_sum id (prepend os es) (genM_name h obj g)"
  by (simp add: genM_name_def genInterfaceM_def genStructM_prepend split: gotype.splits sum.splits)

subsection \<open>init\<close>

lemma init_step_simps:
  "init_step (Func_obj f) g = (if func_Exported f then g\<lparr>funcs := funcs g @ [f]\<rparr> else g)"
  "init_step (TypeName_obj t) g = (if tn_Exported t then g\<lparr>names := names g @ [t]\<rparr> else g)"
  "init_step (Const_obj n e) g = g"
  "init_step (Var_obj n e) g = g"
  by (simp_all add: init_step_def)

lemma init_fold:
  "fold init_step xs g =
   g\<lparr>funcs := funcs g @ List.map_filter (\<lambda>obj. case obj of
                 Func_obj f \<Rightarrow> if func_Exported f then Some f else None | _ \<Rightarrow> None) xs,
      names := names g @ List.map_filter (\<lambda>obj. case obj of
                 TypeName_obj t \<Rightarrow> if tn_Exported t then Some t else None | _ \<Rightarrow> None) xs\<rparr>"
proof (induction xs arbitrary: g)
  case Nil
  show ?case by (simp add: List.map_filter_simps)
next
  case (Cons x xs)
  show ?case by (cases x) (simp_all add: Cons init_step_simps List.map_filter_simps)
qed

lemma init_eq:
  "init h g = g\<lparr>pkgName := pkg_Name (pkg g),
              namePrefix := ''Go'' @ capitalize h (pkg_Name (pkg g)),
              funcs := exportedFuncs (pkg g), names := exportedNames (pkg g)\<rparr>"
  by (simp add: init_def Let_def init_fold exportedFuncs_def exportedNames_def)

lemma init_fields [simp]:
  "out (init h g) = out g" "err (init h g) = err g" "indent (init h g) = indent g" "pkg (init h g) = pkg g"
  "pkgName (init h g) = pkg_Name (pkg g)"
  "namePrefix (init h g) = ''Go'' @ capitalize h (pkg_Name (pkg g))"
  "funcs (init h g) = exportedFuncs (pkg g)" "names (init h g) = exportedNames (pkg g)"
  by (simp_all add: init_eq)

lemma init_prepend: "init h (prepend os es g) = prepend os es (init h g)"
  by (simp add: init_eq prepend_def)

text \<open>After \<open>init\<close>, two generators for the same package differ only in what they held before.\<close>

lemma init_same:
  "pkg g1 = pkg g2 \<Longrightarrow> indent g1 = indent g2 \<Longrightarrow> fresh (init h g1) = fresh (init h g2)"
  by (simp add: init_eq fresh_def)


subsection \<open>genM\<close>

lemma genM_callCode_frame [simp]: "frame (genM_callCode x g) = frame g"
  by (simp add: genM_callCode_def case_prod_beta)

lemma genM_callCode_prepend:
  "genM_callCode x (prepend os es g) = prepend os es (genM_callCode x g)"
  by (simp add: genM_callCode_def case_prod_beta)

lemma genM_callCodes_frame [simp]: "frame (fold genM_callCode xs g) = frame g"
  by (rule fold_frame) simp

lemmas genM_callCodes_frame_fields [simp] = frame_fields [OF genM_callCodes_frame]

lemma genM_callCode_eq:
  "genM_callCode (i, obj) g
   = Printf (''#define _CALL_'' @ func_Name obj @ ''_ '' @ fmt_d (i + 1) @ ''\<newline>'') g"
  by (simp add: genM_callCode_def)

lemma genM_callCodes_out:
  "out (fold genM_callCode (enumerate n fs) g)
   = out g @ map (\<lambda>(i, obj). (indent g,
        ''#define _CALL_'' @ func_Name obj @ ''_ '' @ fmt_d (i + 1) @ ''\<newline>'')) (enumerate n fs)"
proof (induction fs arbitrary: n g)
  case Nil
  show ?case by simp
next
  case (Cons f fs)
  show ?case by (simp add: Cons genM_callCode_eq)
qed

lemma genM_callCodes_err [simp]: "err (fold genM_callCode xs g) = err g"
  by (induction xs arbitrary: g) (simp_all add: genM_callCode_def case_prod_beta)

lemma genM_head_frame [simp]: "frame (genM_head g) = frame g"
  by (simp add: genM_head_def Let_def)

lemmas genM_head_frame_fields [simp] = frame_fields [OF genM_head_frame]

lemma genM_head_prepend: "genM_head (prepend os es g) = prepend os es (genM_head g)"
  by (simp add: genM_head_def Let_def fold_prepend [of genM_callCode, OF genM_callCode_prepend])

lemma genM_head_err [simp]: "err (genM_head g) = err g"
  by (simp add: genM_head_def Let_def)

lemma genM_head_out:
  "out (genM_head g) = out g @
     [(indent g, objcPreamble (pkg_Path (pkg g)) (pkg_Path (pkg g))),
      (indent g, ''#include '' @ fmt_q (namePrefix g @ ''.h'') @ ''\<newline>''),
      (indent g, ''#include <Foundation/Foundation.h>\<newline>''),
      (indent g, ''#include \"seq.h\"\<newline>''),
      (indent g, ''\<newline>''),
      (indent g, ''static NSString *errDomain = @\"go.'' @ pkg_Path (pkg g) @ ''\";\<newline>''),
      (indent g, ''\<newline>''),
      (indent g, ''#define _DESCRIPTOR_ '' @ fmt_q (pkgName g) @ ''\<newline>\<newline>'')] @
     map (\<lambda>(i, obj). (indent g,
        ''#define _CALL_'' @ func_Name obj @ ''_ '' @ fmt_d (i + 1) @ ''\<newline>''))
       (enumerate 0 (funcs g)) @
     [(indent g, ''\<newline>'')]"
  by (simp add: genM_head_def Let_def genM_callCodes_out)

lemma genM_unfold:
  "genM h g =
     (case foldP (genM_name h) (exportedNames (pkg g)) (genM_head (init h g)) of
        Inl p \<Rightarrow> Inl p
      | Inr g2 \<Rightarrow>
          (let g3 = fold (\<lambda>obj g. Printf ''\<newline>'' (genFuncM h obj g)) (funcs g2) g2
           in Inr (if length (err g3) > 0 then Some (err g3) else None, g3)))"
  by (simp add: genM_def genM_head_def Let_def)

lemma genM_names_frame:
  "foldP (genM_name h) ns g = Inr g' \<Longrightarrow> frame g' = frame g"
  by (rule foldP_frame [rotated]) (assumption, rule genM_name_frame)

lemma genM_names_prepend:
  "foldP (genM_name h) ns (prepend os es g) = map_sum id (prepend os es) (foldP (genM_name h) ns g)"
  by (rule foldP_prepend) (rule genM_name_prepend)

lemma genM_funcs_frame [simp]:
  "frame (fold (\<lambda>obj g. Printf ''\<newline>'' (genFuncM h obj g)) fs g) = frame g"
  by (rule fold_frame) simp

lemma genM_funcs_prepend:
  "fold (\<lambda>obj g. Printf ''\<newline>'' (genFuncM h obj g)) fs (prepend os es g)
   = prepend os es (fold (\<lambda>obj g. Printf ''\<newline>'' (genFuncM h obj g)) fs g)"
  by (rule fold_prepend) (simp add: genFuncM_prepend)

text \<open>What came before a run is kept in front, and does not change what the run appends.\<close>

lemma genM_prepend:
  "map_sum id (\<lambda>(r, g'). out g') (genM h (prepend os es g))
   = map_sum id (\<lambda>(r, g'). os @ out g') (genM h g)"
proof (cases "foldP (genM_name h) (exportedNames (pkg g)) (genM_head (init h g))")
  case (Inl p)
  then show ?thesis
    by (simp add: genM_unfold init_prepend genM_head_prepend genM_names_prepend)
next
  case (Inr g2)
  then show ?thesis
    by (simp add: genM_unfold init_prepend genM_head_prepend genM_names_prepend
          genM_funcs_prepend Let_def)
qed

lemma emitted_fresh: "emitted h g = map_sum id (\<lambda>(r, g'). out g') (genM h (fresh g))"
proof -
  have "map_sum id (\<lambda>(r, g'). out g') (genM h (prepend (out g) (err g) (fresh g)))
        = map_sum id (\<lambda>(r, g'). out g @ out g') (genM h (fresh g))"
    by (rule genM_prepend)
  then have e: "map_sum id (\<lambda>(r, g'). out g') (genM h g)
        = map_sum id (\<lambda>(r, g'). out g @ out g') (genM h (fresh g))"
    by (simp add: prepend_fresh)
  have "emitted h g
        = map_sum id (drop (length (out g))) (map_sum id (\<lambda>(r, g'). out g') (genM h g))"
    by (cases "genM h g") (simp_all add: emitted_def case_prod_beta)
  also have "\<dots> = map_sum id (drop (length (out g)))
                     (map_sum id (\<lambda>(r, g'). out g @ out g') (genM h (fresh g)))"
    by (simp only: e)
  also have "\<dots> = map_sum id (\<lambda>(r, g'). out g') (genM h (fresh g))"
    by (cases "genM h (fresh g)") (simp_all add: case_prod_beta)
  finally show ?thesis .
qed

lemma init_fresh: "init h (fresh g) = fresh (init h g)"
  by (simp add: init_eq fresh_def)

lemma init_init: "init h (init h g) = init h g"
  by (simp add: init_eq)

lemma genM_fresh_init:
  "genM h (fresh g) = genM h (fresh (init h g))"
proof -
  have a: "init h (fresh (init h g)) = init h (fresh g)"
    by (simp only: init_fresh init_init)
  have b: "pkg (fresh (init h g)) = pkg (fresh g)"
    by simp
  show ?thesis
    by (simp only: genM_unfold a b)
qed

lemma emitted_depends_on_package:
  assumes "pkg g1 = pkg g2" and "indent g1 = indent g2"
  shows "emitted h g1 = emitted h g2"
proof -
  have "fresh (init h g1) = fresh (init h g2)" using assms by (rule init_same)
  then have "genM h (fresh g1) = genM h (fresh g2)"
    using genM_fresh_init [of h g1] genM_fresh_init [of h g2] by simp
  then show ?thesis by (simp add: emitted_fresh)
qed


subsection \<open>Runs that reach their end\<close>

lemma funcSummary_accepts: "(fst (funcSummary h obj g) \<noteq> None) = acceptedResults obj"
  by (auto simp add: funcSummary_def acceptedResults_def Let_def case_prod_beta le_Suc_eq)

lemma funcSummary_name:
  "funcSummary h obj g = (Some s, g') \<Longrightarrow> s_name s = func_Name obj"
  by (auto simp add: funcSummary_def Let_def case_prod_beta split: if_splits)

lemma genStructM_method_ok:
  "acceptedResults m \<Longrightarrow> \<exists>g'. genStructM_method h desc m g = Inr g'"
  using funcSummary_accepts [of h m g]
  by (cases "funcSummary h m g") (auto simp add: genStructM_method_def case_prod_beta Let_def)

lemma genStructM_method_panics:
  "\<not> acceptedResults m \<Longrightarrow> genStructM_method h desc m g = Inl NilDereference"
  using funcSummary_accepts [of h m g]
  by (cases "funcSummary h m g") (auto simp add: genStructM_method_def)

lemma foldP_ok:
  assumes "\<And>x g. x \<in> set xs \<Longrightarrow> \<exists>g'. f x g = Inr g'"
  shows "\<exists>g'. foldP f xs g = Inr g'"
  using assms
proof (induction xs arbitrary: g)
  case Nil
  show ?case by simp
next
  case (Cons x xs)
  obtain g1 where "f x g = Inr g1" using Cons.prems [of x g] by auto
  then show ?case using Cons.IH [of g1] Cons.prems by auto
qed

lemma genStructM_ok:
  assumes "list_all acceptedResults (exportedMethodSet obj)"
  shows "\<exists>g'. genStructM h obj g = Inr g'"
proof -
  have "\<And>g1. \<exists>g2. foldP (genStructM_method h (structDesc g obj)) (exportedMethodSet obj) g1 = Inr g2"
    using assms by (intro foldP_ok genStructM_method_ok) (simp add: list_all_iff)
  then show ?thesis
    by (simp add: genStructM_def Let_def split: sum.splits) (metis sum.distinct(1))
qed

lemma genM_name_ok: "generable obj \<Longrightarrow> \<exists>g'. genM_name h obj g = Inr g'"
  using genStructM_ok [of obj h g]
  by (auto simp add: generable_def genM_name_def split: gotype.splits sum.splits)

lemma genM_ok:
  assumes "list_all generable (exportedNames (pkg g))"
  shows "\<exists>r g'. genM h g = Inr (r, g')"
proof -
  have "\<exists>g2. foldP (genM_name h) (exportedNames (pkg g)) (genM_head (init h g)) = Inr g2"
    using assms by (intro foldP_ok genM_name_ok) (simp add: list_all_iff)
  then show ?thesis by (auto simp add: genM_unfold Let_def)
qed

subsection \<open>The buffer only grows\<close>

lemma foldP_out_append:
  assumes "\<And>os es x g. f x (prepend os es g) = map_sum id (prepend os es) (f x g)"
    and "foldP f xs g = Inr g'"
  shows "\<exists>X. out g' = out g @ X"
proof -
  have "foldP f xs (prepend (out g) (err g) (fresh g))
        = map_sum id (prepend (out g) (err g)) (foldP f xs (fresh g))"
    by (rule foldP_prepend) (rule assms(1))
  then have "Inr g' = map_sum id (prepend (out g) (err g)) (foldP f xs (fresh g))"
    using assms(2) by (simp add: prepend_fresh)
  then show ?thesis by (cases "foldP f xs (fresh g)") auto
qed

lemma genFuncM_out_append: "\<exists>X. out (genFuncM h obj g) = out g @ X"
  using out_append_fresh [of "genFuncM h obj", OF genFuncM_prepend] by blast

lemma genFuncM_sends:
  assumes "acceptedResults obj"
  shows "(Suc (indent g), send_line ''_DESCRIPTOR_'' (''_CALL_'' @ func_Name obj @ ''_''))
         \<in> set (out (genFuncM h obj (fresh g)))"
proof -
  obtain s g1 where s: "funcSummary h obj (fresh g) = (Some s, g1)"
    using funcSummary_accepts [of h obj "fresh g"] assms
    by (cases "funcSummary h obj (fresh g)") auto
  have n: "s_name s = func_Name obj" using s by (rule funcSummary_name)
  obtain sig g2 where a: "asFunc s g1 = (sig, g2)" by (cases "asFunc s g1")
  define g3 where "g3 = Indent (Printf (sig @ '' {\<newline>'') g2)"
  have "frame g1 = frame (fresh g)" using funcSummary_frame [of h obj "fresh g"] s by simp
  moreover have "frame g2 = frame g1" using asFunc_frame [of s g1] a by simp
  ultimately have i: "indent g3 = Suc (indent g)" by (simp add: g3_def frame_def)
  obtain b c where "out (genFunc h ''_DESCRIPTOR_'' (''_CALL_'' @ s_name s @ ''_'') s False g3)
      = out g3 @ b @ [(indent g3, ''go_seq_send('' @ ''_DESCRIPTOR_'' @ '', '' @ (''_CALL_'' @ s_name s @ ''_'')
           @ '', &in_, &out_);\<newline>'')] @ c"
    using genFunc_out by blast
  then show ?thesis
    by (simp add: genFuncM_def s a Let_def g3_def [symmetric] i n send_line_def)
qed

lemma genM_funcs_sends:
  assumes "f \<in> set fs" and "acceptedResults f"
  shows "(Suc (indent g), send_line ''_DESCRIPTOR_'' (''_CALL_'' @ func_Name f @ ''_''))
         \<in> set (out (fold (\<lambda>obj g. Printf ''\<newline>'' (genFuncM h obj g)) fs (fresh g)))"
  using assms(1)
proof (induction fs arbitrary: g rule: rev_induct)
  case Nil
  then show ?case by simp
next
  case (snoc x xs)
  let ?F = "\<lambda>obj g. Printf ''\<newline>'' (genFuncM h obj g)"
  let ?g1 = "fold ?F xs (fresh g)"
  have fr: "frame ?g1 = frame g" by simp
  have o: "out (genFuncM h x ?g1) = out ?g1 @ out (genFuncM h x (fresh ?g1))"
    by (rule out_append_fresh) (rule genFuncM_prepend)
  show ?case
  proof (cases "f = x")
    case True
    have "(Suc (indent ?g1), send_line ''_DESCRIPTOR_'' (''_CALL_'' @ func_Name x @ ''_''))
          \<in> set (out (genFuncM h x (fresh ?g1)))"
      using assms(2) True by (intro genFuncM_sends) simp
    then show ?thesis using o True frame_fields(1) [OF fr] by simp
  next
    case False
    then have "f \<in> set xs" using snoc.prems by simp
    then show ?thesis using snoc.IH [of g] o by simp
  qed
qed


subsection \<open>Literals\<close>

lemma index_of_nth: "distinct xs \<Longrightarrow> i < length xs \<Longrightarrow> index_of (xs ! i) xs = Some i"
proof (induction xs arbitrary: i)
  case Nil
  then show ?case by simp
next
  case (Cons x xs)
  then show ?case by (cases i) auto
qed

lemma digit_chars_facts: "distinct digit_chars" "length digit_chars = 16"
  by (simp_all add: digit_chars_def)

lemma digit_index:
  assumes "b \<le> 16" and "d < b"
  shows "index_of (digit_chars ! d) (take b digit_chars) = Some d"
proof -
  have "index_of (take b digit_chars ! d) (take b digit_chars) = Some d"
    using assms by (intro index_of_nth) (simp_all add: digit_chars_facts)
  then show ?thesis using assms by simp
qed

lemma read_digits_fmt_base:
  "2 \<le> b \<Longrightarrow> b \<le> 16 \<Longrightarrow>
   read_digits b (fmt_base b n @ rest) acc
   = read_digits b rest (acc * b ^ length (fmt_base b n) + n)"
proof (induction b n arbitrary: rest acc rule: fmt_base.induct)
  case (1 b n)
  show ?case
  proof (cases "n < b")
    case True
    have "fmt_base b n = [digit_chars ! n]" using True by (subst fmt_base.simps) simp
    then show ?thesis using True 1(3) by (simp add: digit_index)
  next
    case False
    have f: "fmt_base b n = fmt_base b (n div b) @ [digit_chars ! (n mod b)]"
      using False 1(2) by (subst fmt_base.simps) simp
    have m: "n mod b < b" using 1(2) by simp
    have "read_digits b (fmt_base b n @ rest) acc
          = read_digits b (fmt_base b (n div b) @ (digit_chars ! (n mod b)) # rest) acc"
      by (simp add: f)
    also have "\<dots> = read_digits b ((digit_chars ! (n mod b)) # rest)
                       (acc * b ^ length (fmt_base b (n div b)) + n div b)"
      using False 1(2,3) by (intro 1(1)) simp_all
    also have "\<dots> = read_digits b rest
                       ((acc * b ^ length (fmt_base b (n div b)) + n div b) * b + n mod b)"
      using digit_index [OF 1(3) m] by simp
    also have "(acc * b ^ length (fmt_base b (n div b)) + n div b) * b + n mod b
               = acc * b ^ length (fmt_base b n) + n"
      by (simp add: f algebra_simps)
    finally show ?thesis .
  qed
qed

lemma fmt_base_nonempty: "fmt_base b n \<noteq> []"
  by (subst fmt_base.simps) simp

lemma fmt_base_hd: "2 \<le> b \<Longrightarrow> b \<le> 16 \<Longrightarrow> hd (fmt_base b n) \<in> set digit_chars"
proof (induction b n rule: fmt_base.induct)
  case (1 b n)
  show ?case
  proof (cases "n < b")
    case True
    then show ?thesis using 1(3) by (subst fmt_base.simps) (simp add: digit_chars_facts)
  next
    case False
    have f: "fmt_base b n = fmt_base b (n div b) @ [digit_chars ! (n mod b)]"
      using False 1(2) by (subst fmt_base.simps) simp
    show ?thesis using 1(1) [OF _ 1(2,3)] False 1(2) by (simp add: f fmt_base_nonempty)
  qed
qed

lemma c_int_literal_fmt_d: "c_int_literal (fmt_d n) = Some n"
proof -
  have h: "hd (fmt_d n) \<in> set digit_chars" unfolding fmt_d_def by (rule fmt_base_hd) simp_all
  have ne: "fmt_d n \<noteq> []" by (simp add: fmt_d_def fmt_base_nonempty)
  have "take 3 (fmt_d n) \<noteq> ''(0x''"
  proof
    assume "take 3 (fmt_d n) = ''(0x''"
    then have "hd (fmt_d n) = CHR ''(''" using ne by (cases "fmt_d n") auto
    then show False using h by (simp add: digit_chars_def)
  qed
  moreover have "read_digits 10 (fmt_base 10 n @ []) 0 = read_digits 10 [] (0 * 10 ^ length (fmt_base 10 n) + n)"
    by (rule read_digits_fmt_base) simp_all
  ultimately show ?thesis using ne by (simp add: c_int_literal_def fmt_d_def)
qed

lemma c_int_literal_hex:
  assumes "d1 < 16" and "d2 < 16"
  shows "c_int_literal (''(0x'' @ fmt_x i @ [digit_chars ! d1, digit_chars ! d2] @ '')'')
         = Some (i * 256 + d1 * 16 + d2)"
proof -
  have "read_digits 16 (fmt_base 16 i @ [digit_chars ! d1, digit_chars ! d2]) 0
        = read_digits 16 [digit_chars ! d1, digit_chars ! d2] (0 * 16 ^ length (fmt_base 16 i) + i)"
    by (rule read_digits_fmt_base) simp_all
  also have "\<dots> = Some ((i * 16 + d1) * 16 + d2)"
    using digit_index [of 16 d1] digit_index [of 16 d2] assms by simp
  finally show ?thesis by (simp add: c_int_literal_def fmt_x_def butlast_append)
qed

lemma code_value_get: "c_int_literal (''(0x'' @ fmt_x i @ ''0f)'') = Some (i * 256 + 15)"
  using c_int_literal_hex [of 0 15 i] by (simp add: digit_chars_def)

lemma code_value_set: "c_int_literal (''(0x'' @ fmt_x i @ ''1f)'') = Some (i * 256 + 31)"
  using c_int_literal_hex [of 1 15 i] by (simp add: digit_chars_def)

lemma code_value_method: "c_int_literal (''(0x'' @ fmt_x i @ ''0c)'') = Some (i * 256 + 12)"
  using c_int_literal_hex [of 0 12 i] by (simp add: digit_chars_def)

lemma c_unescape_quoted:
  "c_unescape (concat (map (\<lambda>c. if c = CHR ''\"'' \<or> c = CHR 0x5C then [CHR 0x5C, c] else [c]) s) @ ''\"'')
   = Some s"
proof (induction s)
  case Nil
  show ?case by simp
next
  case (Cons c s)
  let ?rest = "concat (map (\<lambda>c. if c = CHR ''\"'' \<or> c = CHR 0x5C then [CHR 0x5C, c] else [c]) s) @ ''\"''"
  obtain d r where r: "?rest = d # r" by (cases ?rest) auto
  show ?case
  proof (cases "c = CHR ''\"'' \<or> c = CHR 0x5C")
    case True
    then show ?thesis using Cons by auto
  next
    case False
    then show ?thesis using Cons r by auto
  qed
qed

lemma c_string_literal_fmt_q: "c_string_literal (fmt_q s) = Some s"
  by (simp add: c_string_literal_def fmt_q_def c_unescape_quoted)

lemma or_low_bits:
  assumes "c < 256"
  shows "push_bit 8 i OR c = i * 256 + (c::nat)"
proof -
  have c: "take_bit 8 c = c" using assms by (simp add: take_bit_nat_eq_self)
  have "push_bit 8 i AND take_bit 8 c = 0"
    by (rule bit_eqI) (simp add: bit_simps)
  then have "push_bit 8 i + c = push_bit 8 i OR c"
    using c disjunctive_add_eq_or [of "push_bit 8 i" c] by simp
  then show ?thesis by (simp add: push_bit_eq_mult)
qed


subsection \<open>The shape of a run\<close>

lemma genM_frame:
  assumes "genM h g = Inr (r, g')"
  shows "frame g' = frame (init h g)"
proof -
  from assms obtain g2 where
    a: "foldP (genM_name h) (exportedNames (pkg g)) (genM_head (init h g)) = Inr g2"
    and b: "g' = fold (\<lambda>obj g. Printf ''\<newline>'' (genFuncM h obj g)) (funcs g2) g2"
    by (auto simp add: genM_unfold Let_def split: sum.splits)
  have "frame g2 = frame (genM_head (init h g))" using a by (rule genM_names_frame)
  then show ?thesis using b by simp
qed

lemma emitted_Inr:
  assumes "emitted h g = Inr E"
  shows "\<exists>r g'. genM h (fresh g) = Inr (r, g') \<and> out g' = E"
  using assms unfolding emitted_fresh by (cases "genM h (fresh g)") auto

lemma emitted_ok:
  assumes "list_all generable (exportedNames (pkg g))"
  shows "emitted h g = Inr (projr (emitted h g))"
proof -
  obtain r g' where "genM h g = Inr (r, g')" using genM_ok [OF assms] by blast
  then show ?thesis by (simp add: emitted_def)
qed

lemma emitted_structure:
  assumes "emitted h g = Inr E"
  shows "\<exists>X g2. frame g2 = frame (init h g) \<and>
           E = out (genM_head (fresh (init h g))) @ X @
               out (fold (\<lambda>obj g. Printf ''\<newline>'' (genFuncM h obj g)) (exportedFuncs (pkg g)) (fresh g2))"
proof -
  let ?F = "\<lambda>obj g. Printf ''\<newline>'' (genFuncM h obj g)"
  obtain r g' where g': "genM h (fresh g) = Inr (r, g')" "out g' = E"
    using emitted_Inr [OF assms] by blast
  from g'(1) obtain g2 where
    a: "foldP (genM_name h) (exportedNames (pkg g)) (genM_head (fresh (init h g))) = Inr g2"
    and b: "g' = fold ?F (funcs g2) g2"
    by (auto simp add: genM_unfold Let_def init_fresh split: sum.splits)
  have fr: "frame g2 = frame (init h g)"
    using genM_names_frame [OF a] by simp
  then have fs: "funcs g2 = exportedFuncs (pkg g)" by (simp add: frame_def)
  obtain X where X: "out g2 = out (genM_head (fresh (init h g))) @ X"
    using foldP_out_append [of "genM_name h", OF genM_name_prepend a] by blast
  have "out (fold ?F (funcs g2) g2) = out g2 @ out (fold ?F (funcs g2) (fresh g2))"
    by (rule out_append_fresh) (rule genM_funcs_prepend)
  then have "E = out (genM_head (fresh (init h g))) @ X @
               out (fold ?F (exportedFuncs (pkg g)) (fresh g2))"
    using fs X b g'(2) by simp
  then show ?thesis using fr by blast
qed

lemma emitted_head:
  assumes "emitted h g = Inr E"
  shows "\<exists>R. E =
     [(indent g, objcPreamble (pkg_Path (pkg g)) (pkg_Path (pkg g))),
      (indent g, ''#include '' @ fmt_q (''Go'' @ capitalize h (pkg_Name (pkg g)) @ ''.h'') @ ''\<newline>''),
      (indent g, ''#include <Foundation/Foundation.h>\<newline>''),
      (indent g, ''#include \"seq.h\"\<newline>''),
      (indent g, ''\<newline>''),
      (indent g, ''static NSString *errDomain = @\"go.'' @ pkg_Path (pkg g) @ ''\";\<newline>''),
      (indent g, ''\<newline>''),
      (indent g, ''#define _DESCRIPTOR_ '' @ fmt_q (pkg_Name (pkg g)) @ ''\<newline>\<newline>'')] @
     map (\<lambda>(i, obj). (indent g,
        ''#define _CALL_'' @ func_Name obj @ ''_ '' @ fmt_d (i + 1) @ ''\<newline>''))
       (enumerate 0 (exportedFuncs (pkg g))) @ R"
proof -
  obtain X g2 where "E = out (genM_head (fresh (init h g))) @ X @
     out (fold (\<lambda>obj g. Printf ''\<newline>'' (genFuncM h obj g)) (exportedFuncs (pkg g)) (fresh g2))"
    using emitted_structure [OF assms] by blast
  then show ?thesis by (simp add: genM_head_out)
qed

lemma emitted_sends:
  assumes "emitted h g = Inr E" and "f \<in> set (exportedFuncs (pkg g))" and "acceptedResults f"
  shows "(Suc (indent g), send_line ''_DESCRIPTOR_'' (''_CALL_'' @ func_Name f @ ''_'')) \<in> set E"
proof -
  obtain X g2 where fr: "frame g2 = frame (init h g)" and E: "E = out (genM_head (fresh (init h g))) @ X @
     out (fold (\<lambda>obj g. Printf ''\<newline>'' (genFuncM h obj g)) (exportedFuncs (pkg g)) (fresh g2))"
    using emitted_structure [OF assms(1)] by blast
  have "indent g2 = indent g" using frame_fields(1) [OF fr] by simp
  then show ?thesis using genM_funcs_sends [OF assms(2,3), of g2 h] E by simp
qed

lemma testpkg_generable: "list_all generable (exportedNames testpkg)"
  by (simp add: exportedNames_def testpkg_def generable_def testpkg_S_def
      testpkg_S_type_def acceptedResults_def)

lemma testpkg_funcs:
  "length (exportedFuncs testpkg) = 9" "exportedFuncs testpkg ! 8 = testpkg_Sum"
  by (simp_all add: exportedFuncs_def testpkg_def testpkg_Sum_def testpkg_ReturnsError_def)

text \<open>
  C2. In the text of a run, the eighth line defines the descriptor macro as the quoted
  package name, and the lines after it define one call code per exported function, in
  the order of the package scope, counting from 1; the stub of every function with an
  accepted result list sends under these two macros. For testpkg, \<open>Sum\<close> is the ninth
  exported function, and the Go half registers \<open>proxy_Sum\<close> under ("testpkg", 9).
\<close>

theorem free_function_codes:
  assumes "emitted h g = Inr E" and "i < length (exportedFuncs (pkg g))"
  shows "E ! 7 = (indent g, ''#define _DESCRIPTOR_ '' @ fmt_q (pkg_Name (pkg g)) @ ''\<newline>\<newline>'') \<and>
         c_string_literal (fmt_q (pkg_Name (pkg g))) = Some (pkg_Name (pkg g)) \<and>
         E ! (8 + i) = (indent g, ''#define _CALL_'' @ func_Name (exportedFuncs (pkg g) ! i) @ ''_ ''
                                  @ fmt_d (i + 1) @ ''\<newline>'') \<and>
         c_int_literal (fmt_d (i + 1)) = Some (i + 1) \<and>
         (acceptedResults (exportedFuncs (pkg g) ! i) \<longrightarrow>
            (Suc (indent g), send_line ''_DESCRIPTOR_''
               (''_CALL_'' @ func_Name (exportedFuncs (pkg g) ! i) @ ''_'')) \<in> set E) \<and>
         length (exportedFuncs testpkg) = 9 \<and> exportedFuncs testpkg ! 8 = testpkg_Sum \<and>
         func_Name testpkg_Sum = ''Sum'' \<and>
         (\<exists>reg. go_testpkg_init [] = Inr reg \<and> map_of reg (''testpkg'', 9) = Some proxy_Sum)"
proof -
  obtain R where E: "E =
     [(indent g, objcPreamble (pkg_Path (pkg g)) (pkg_Path (pkg g))),
      (indent g, ''#include '' @ fmt_q (''Go'' @ capitalize h (pkg_Name (pkg g)) @ ''.h'') @ ''\<newline>''),
      (indent g, ''#include <Foundation/Foundation.h>\<newline>''),
      (indent g, ''#include \"seq.h\"\<newline>''),
      (indent g, ''\<newline>''),
      (indent g, ''static NSString *errDomain = @\"go.'' @ pkg_Path (pkg g) @ ''\";\<newline>''),
      (indent g, ''\<newline>''),
      (indent g, ''#define _DESCRIPTOR_ '' @ fmt_q (pkg_Name (pkg g)) @ ''\<newline>\<newline>'')] @
     map (\<lambda>(i, obj). (indent g,
        ''#define _CALL_'' @ func_Name obj @ ''_ '' @ fmt_d (i + 1) @ ''\<newline>''))
       (enumerate 0 (exportedFuncs (pkg g))) @ R"
    using emitted_head [OF assms(1)] by blast
  have 1: "E ! 7 = (indent g, ''#define _DESCRIPTOR_ '' @ fmt_q (pkg_Name (pkg g)) @ ''\<newline>\<newline>'')"
    by (subst E) simp
  have 2: "E ! (8 + i) = (indent g, ''#define _CALL_'' @ func_Name (exportedFuncs (pkg g) ! i) @ ''_ ''
                                  @ fmt_d (i + 1) @ ''\<newline>'')"
    using assms(2) by (subst E) (simp add: nth_append nth_enumerate_eq)
  have 3: "acceptedResults (exportedFuncs (pkg g) ! i) \<longrightarrow>
            (Suc (indent g), send_line ''_DESCRIPTOR_''
               (''_CALL_'' @ func_Name (exportedFuncs (pkg g) ! i) @ ''_'')) \<in> set E"
    using emitted_sends [OF assms(1), of "exportedFuncs (pkg g) ! i"] assms(2) by simp
  have 4: "\<exists>reg. go_testpkg_init [] = Inr reg \<and> map_of reg (''testpkg'', 9) = Some proxy_Sum"
    by (simp add: go_testpkg_init_def Register_def proxyS_Descriptor_def proxyS_X_Set_Code_def
        proxyS_X_Get_Code_def proxyS_Y_Set_Code_def proxyS_Y_Get_Code_def proxyS_Sum_Code_def
        proxyS_TryTwoStrings_Code_def)
  have 5: "func_Name testpkg_Sum = ''Sum''" by (simp add: testpkg_Sum_def)
  show ?thesis
    using 1 2 3 4 5 testpkg_funcs c_string_literal_fmt_q c_int_literal_fmt_d by blast
qed


lemma fmt_d_small: "n < 10 \<Longrightarrow> fmt_d n = [digit_chars ! n]"
  by (simp add: fmt_d_def fmt_base.simps)

lemma fmt_x_small: "n < 16 \<Longrightarrow> fmt_x n = [digit_chars ! n]"
  by (simp add: fmt_x_def fmt_base.simps)

theorem free_function_codes_witness:
  "projr (emitted spec_helpers (newGen testpkg)) ! 7
     = (0, ''#define _DESCRIPTOR_ \"testpkg\"\<newline>\<newline>'') \<and>
   c_string_literal ''\"testpkg\"'' = Some ''testpkg'' \<and>
   projr (emitted spec_helpers (newGen testpkg)) ! 16 = (0, ''#define _CALL_Sum_ 9\<newline>'') \<and>
   c_int_literal ''9'' = Some 9 \<and>
   (1, ''go_seq_send(_DESCRIPTOR_, _CALL_Sum_, &in_, &out_);\<newline>'')
     \<in> set (projr (emitted spec_helpers (newGen testpkg)))"
proof -
  have e: "emitted spec_helpers (newGen testpkg) = Inr (projr (emitted spec_helpers (newGen testpkg)))"
    by (rule emitted_ok) (simp add: testpkg_generable)
  have i: "8 < length (exportedFuncs (pkg (newGen testpkg)))" by (simp add: testpkg_funcs)
  have a: "acceptedResults testpkg_Sum" by (simp add: acceptedResults_def testpkg_Sum_def)
  have n: "pkg_Name testpkg = ''testpkg''" by (simp add: testpkg_def)
  show ?thesis
    using free_function_codes [OF e i] a
    by (simp add: testpkg_funcs n fmt_q_def fmt_d_small digit_chars_def send_line_def testpkg_Sum_def)
qed

subsection \<open>Two results without an error\<close>

text \<open>
  C5 (as amended). For a function with exactly two results whose second is not the error
  type, \<open>funcSummary\<close> returns nil and records ResultNotError, and \<open>genFuncM\<close> skips the
  function: it prints nothing and leaves the generator as it was but for that diagnostic.
\<close>

theorem two_results_without_error_skipped:
  "length (func_Results obj) = 2 \<and> \<not> isErrorType (var_Type (func_Results obj ! 1)) \<longrightarrow>
   funcSummary h obj g = (None, errorf (ResultNotError (func_Name obj)) g) \<and>
   genFuncM h obj g = errorf (ResultNotError (func_Name obj)) g \<and>
   out (genFuncM h obj g) = out g \<and>
   err (genFuncM h obj g) = err g @ [ResultNotError (func_Name obj)]"
  by (simp add: funcSummary_not_error genFuncM_def)

theorem two_results_without_error_skipped_witness:
  "genFuncM spec_helpers pairFunc (newGen testpkg) = errorf (ResultNotError ''Pair'') (newGen testpkg) \<and>
   out (genFuncM spec_helpers pairFunc (newGen testpkg)) = []"
  using two_results_without_error_skipped [of pairFunc spec_helpers "newGen testpkg"]
  by (simp add: pairFunc_def)

theorem pair_is_not_too_many:
  "length (func_Results pairFunc) = 2 \<and>
   \<not> isErrorType (var_Type (func_Results pairFunc ! 1)) \<and>
   fst (funcSummary spec_helpers pairFunc (newGen testpkg)) = None \<and>
   err (snd (funcSummary spec_helpers pairFunc (newGen testpkg))) = [ResultNotError ''Pair''] \<and>
   TooManyResults ''Pair'' \<notin> set (err (snd (funcSummary spec_helpers pairFunc (newGen testpkg))))"
  by (simp add: funcSummary_not_error pairFunc_def)

subsection \<open>Struct members\<close>

lemma genStructM_fieldCodes_eq:
  "genStructM_fieldCodes desc (i, f) g =
     Printf (''#define '' @ desc @ ''_FIELD_'' @ var_Name f @ ''_SET_ (0x'' @ fmt_x i @ ''1f)\<newline>'')
       (Printf (''#define '' @ desc @ ''_FIELD_'' @ var_Name f @ ''_GET_ (0x'' @ fmt_x i @ ''0f)\<newline>'') g)"
  by (simp add: genStructM_fieldCodes_def Let_def)

lemma genStructM_methodCode_eq:
  "genStructM_methodCode desc (i, m) g =
     Printf (''#define '' @ desc @ ''_'' @ func_Name m @ ''_ (0x'' @ fmt_x i @ ''0c)\<newline>'') g"
  by (simp add: genStructM_methodCode_def)

lemma genStructM_fieldCodes_out:
  "out (fold (genStructM_fieldCodes desc) (enumerate n fs) g)
   = out g @ concat (map (\<lambda>(i, f).
       [(indent g, ''#define '' @ desc @ ''_FIELD_'' @ var_Name f @ ''_GET_ (0x'' @ fmt_x i @ ''0f)\<newline>''),
        (indent g, ''#define '' @ desc @ ''_FIELD_'' @ var_Name f @ ''_SET_ (0x'' @ fmt_x i @ ''1f)\<newline>'')])
       (enumerate n fs))"
proof (induction fs arbitrary: n g)
  case Nil
  show ?case by simp
next
  case (Cons f fs)
  show ?case by (simp add: Cons genStructM_fieldCodes_eq)
qed

lemma genStructM_methodCodes_out:
  "out (fold (genStructM_methodCode desc) (enumerate n ms) g)
   = out g @ map (\<lambda>(i, m).
       (indent g, ''#define '' @ desc @ ''_'' @ func_Name m @ ''_ (0x'' @ fmt_x i @ ''0c)\<newline>''))
       (enumerate n ms)"
proof (induction ms arbitrary: n g)
  case Nil
  show ?case by simp
next
  case (Cons m ms)
  show ?case by (simp add: Cons genStructM_methodCode_eq)
qed

text \<open>The second part of \<open>genStructM\<close>: the implementation block, up to the methods.\<close>

lemma genStructM_parts:
  assumes "genStructM h obj g = Inr g'"
  shows "\<exists>g1 g2 g3.
     g1 = fold (genStructM_methodCode (structDesc g obj)) (enumerate 0 (exportedMethodSet obj))
            (fold (genStructM_fieldCodes (structDesc g obj)) (enumerate 0 (exportedFields obj))
               (Printf (''#define '' @ structDesc g obj @ ''_DESCRIPTOR_ \"go.'' @ pkgName g @ ''.''
                        @ tn_Name obj @ ''\"\<newline>'') g)) \<and>
     frame g2 = frame g \<and> (\<exists>X. out g2 = out g1 @ X) \<and>
     foldP (genStructM_method h (structDesc g obj)) (exportedMethodSet obj)
       (fold (genStructM_field h (structDesc g obj)) (exportedFields obj) g2) = Inr g3 \<and>
     g' = Printf ''@end\<newline>'' g3"
proof -
  let ?g1 = "fold (genStructM_methodCode (structDesc g obj)) (enumerate 0 (exportedMethodSet obj))
            (fold (genStructM_fieldCodes (structDesc g obj)) (enumerate 0 (exportedFields obj))
               (Printf (''#define '' @ structDesc g obj @ ''_DESCRIPTOR_ \"go.'' @ pkgName g @ ''.''
                        @ tn_Name obj @ ''\"\<newline>'') g))"
  define mid where "mid = (\<lambda>g0 :: objcGen.
         let g = Printf ''\<newline>'' g0;
          g = Printf (''@implementation '' @ namePrefix g @ tn_Name obj @ '' {\<newline>'') g;
          g = Printf ''}\<newline>\<newline>'' g;
          g = Printf ''- (id)initWithRef:(id)ref {\<newline>'' g;
          g = Indent g;
          g = Printf ''self = [super init];\<newline>'' g;
          g = Printf ''if (self) { _ref = ref; }\<newline>'' g;
          g = Printf ''return self;\<newline>'' g;
          g = Outdent g
         in Printf ''}\<newline>\<newline>'' g)"
  have m1: "\<And>os es g. mid (prepend os es g) = prepend os es (mid g)"
    by (simp add: mid_def Let_def)
  have m2: "\<And>g. frame (mid g) = frame g"
    by (simp add: mid_def Let_def frame_def)
  have "out (mid ?g1) = out ?g1 @ out (mid (fresh ?g1))"
    by (rule out_append_fresh) (rule m1)
  then have 1: "\<exists>X. out (mid ?g1) = out ?g1 @ X" by blast
  have 2: "frame (mid ?g1) = frame g" by (simp add: m2)
  from assms obtain g3 where
    "foldP (genStructM_method h (structDesc g obj)) (exportedMethodSet obj)
       (fold (genStructM_field h (structDesc g obj)) (exportedFields obj) (mid ?g1)) = Inr g3"
    and "g' = Printf ''@end\<newline>'' g3"
    by (auto simp add: genStructM_def Let_def mid_def split: sum.splits)
  then show ?thesis using 1 2 by blast
qed



lemma fold_out_member:
  assumes pre: "\<And>os es x g. f x (prepend os es g) = prepend os es (f x g)"
    and fr: "\<And>x g. frame (f x g) = frame g"
    and x: "x \<in> set xs"
    and c: "\<And>g'. frame g' = frame g \<Longrightarrow> c \<in> set (out (f x g'))"
  shows "c \<in> set (out (fold f xs g))"
  using x
proof (induction xs rule: rev_induct)
  case Nil
  then show ?case by simp
next
  case (snoc y ys)
  have frm: "frame (fold f ys g) = frame g" by (rule fold_frame) (rule fr)
  have o: "out (f y (fold f ys g)) = out (fold f ys g) @ out (f y (fresh (fold f ys g)))"
    by (rule out_append_fresh) (rule pre)
  show ?case
  proof (cases "x = y")
    case True
    then show ?thesis using c [OF frm] by simp
  next
    case False
    then have "x \<in> set ys" using snoc.prems by simp
    then show ?thesis using snoc.IH o by simp
  qed
qed

lemma foldP_out_member:
  assumes pre: "\<And>os es x g. f x (prepend os es g) = map_sum id (prepend os es) (f x g)"
    and fr: "\<And>x g g'. f x g = Inr g' \<Longrightarrow> frame g' = frame g"
    and x: "x \<in> set xs" and r: "foldP f xs g = Inr g'"
    and c: "\<And>g1 g2. frame g1 = frame g \<Longrightarrow> f x g1 = Inr g2 \<Longrightarrow> c \<in> set (out g2)"
  shows "c \<in> set (out g')"
  using x r c
proof (induction xs arbitrary: g)
  case Nil
  then show ?case by simp
next
  case (Cons y ys)
  from Cons.prems(2) obtain g1 where g1: "f y g = Inr g1" "foldP f ys g1 = Inr g'"
    by (auto split: sum.splits)
  have frm: "frame g1 = frame g" using g1(1) by (rule fr)
  show ?case
  proof (cases "x = y")
    case True
    then have "c \<in> set (out g1)" using Cons.prems(3) [of g g1] g1(1) by simp
    moreover obtain X where "out g' = out g1 @ X"
      using foldP_out_append [of f, OF pre g1(2)] by blast
    ultimately show ?thesis by simp
  next
    case False
    then have "x \<in> set ys" using Cons.prems(1) by simp
    then show ?thesis using Cons.IH [OF _ g1(2)] Cons.prems(3) frm by simp
  qed
qed

lemma stub_block_out:
  "\<exists>B A. out (Printf ft (Outdent (genFunc h pd cd s m (Indent (Printf hdr g)))))
         = out g @ B @ [(Suc (indent g), send_line pd cd)] @ A"
proof -
  obtain b a where "out (genFunc h pd cd s m (Indent (Printf hdr g)))
      = out (Indent (Printf hdr g)) @ b @
        [(indent (Indent (Printf hdr g)), ''go_seq_send('' @ pd @ '', '' @ cd @ '', &in_, &out_);\<newline>'')] @ a"
    using genFunc_out by blast
  then have "out (Printf ft (Outdent (genFunc h pd cd s m (Indent (Printf hdr g)))))
      = out g @ ((indent g, hdr) # b) @ [(Suc (indent g), send_line pd cd)] @ (a @ [(indent g, ft)])"
    by (simp add: send_line_def)
  then show ?thesis by blast
qed

lemma genStructM_field_sends:
  "(Suc (indent g), send_line (desc @ ''_DESCRIPTOR_'') (desc @ ''_FIELD_'' @ var_Name f @ ''_GET_''))
     \<in> set (out (genStructM_field h desc f g)) \<and>
   (Suc (indent g), send_line (desc @ ''_DESCRIPTOR_'') (desc @ ''_FIELD_'' @ var_Name f @ ''_SET_''))
     \<in> set (out (genStructM_field h desc f g))"
proof -
  define s1 where "s1 = \<lparr>s_name = var_Name f, s_ret = fst (objcType (var_Type f) g), s_params = [],
               s_retParams = [\<lparr>p_typ = var_Type f, p_name = ''ret_''\<rparr>]\<rparr>"
  define s2 where "s2 = \<lparr>s_name = ''set'' @ var_Name f, s_ret = ''void'',
               s_params = [\<lparr>p_typ = var_Type f, p_name = ''v''\<rparr>], s_retParams = []\<rparr>"
  define g1 where "g1 = snd (asMethod s1 (snd (objcType (var_Type f) g)))"
  define G1 where "G1 = Printf ''}\<newline>\<newline>'' (Outdent (genFunc h (desc @ ''_DESCRIPTOR_'')
        (desc @ ''_FIELD_'' @ var_Name f @ ''_GET_'') s1 True
        (Indent (Printf (''- '' @ fst (asMethod s1 (snd (objcType (var_Type f) g))) @ '' {\<newline>'') g1))))"
  define g2 where "g2 = snd (asMethod s2 G1)"
  define G2 where "G2 = Printf ''}\<newline>\<newline>'' (Outdent (genFunc h (desc @ ''_DESCRIPTOR_'')
        (desc @ ''_FIELD_'' @ var_Name f @ ''_SET_'') s2 True
        (Indent (Printf (''- '' @ fst (asMethod s2 G1) @ '' {\<newline>'') g2))))"
  have e: "genStructM_field h desc f g = G2"
    by (simp add: genStructM_field_def Let_def case_prod_beta G2_def g2_def G1_def g1_def s1_def s2_def)
  have i1: "indent g1 = indent g" "out g1 = out g" by (simp_all add: g1_def)
  obtain B1 A1 where o1: "out G1 = out g1 @ B1 @
      [(Suc (indent g1), send_line (desc @ ''_DESCRIPTOR_'') (desc @ ''_FIELD_'' @ var_Name f @ ''_GET_''))] @ A1"
    unfolding G1_def using stub_block_out by blast
  have "frame G1 = frame g1" by (simp add: G1_def frame_def)
  then have i2: "indent g2 = indent g" "out g2 = out G1" using i1 by (simp_all add: g2_def frame_def)
  obtain B2 A2 where o2: "out G2 = out g2 @ B2 @
      [(Suc (indent g2), send_line (desc @ ''_DESCRIPTOR_'') (desc @ ''_FIELD_'' @ var_Name f @ ''_SET_''))] @ A2"
    unfolding G2_def using stub_block_out by blast
  show ?thesis using e o1 o2 i1 i2 by simp
qed

lemma genStructM_method_sends:
  assumes "genStructM_method h desc m g = Inr g'"
  shows "(Suc (indent g), send_line (desc @ ''_DESCRIPTOR_'') (desc @ ''_'' @ func_Name m @ ''_''))
         \<in> set (out g')"
proof -
  from assms obtain s g1 where s: "funcSummary h m g = (Some s, g1)"
    by (cases "funcSummary h m g") (auto simp add: genStructM_method_def split: option.splits)
  define g2 where "g2 = snd (asMethod s g1)"
  have "frame g1 = frame g" "out g1 = out g"
    using funcSummary_frame [of h m g] funcSummary_out [of h m g] s by simp_all
  then have i: "indent g2 = indent g" by (simp add: g2_def frame_def)
  have "g' = Printf ''}\<newline>\<newline>'' (Outdent (genFunc h (desc @ ''_DESCRIPTOR_'')
        (desc @ ''_'' @ func_Name m @ ''_'') s True
        (Indent (Printf (''- '' @ fst (asMethod s g1) @ '' {\<newline>'') g2))))"
    using assms s by (simp add: genStructM_method_def Let_def case_prod_beta g2_def)
  then obtain B A where "out g' = out g2 @ B @
      [(Suc (indent g2), send_line (desc @ ''_DESCRIPTOR_'') (desc @ ''_'' @ func_Name m @ ''_''))] @ A"
    using stub_block_out by blast
  then show ?thesis using i by simp
qed

lemma genStructM_fresh:
  assumes "genStructM h obj g = Inr g'"
  shows "\<exists>g0. genStructM h obj (fresh g) = Inr g0 \<and> out g' = out g @ out g0"
proof -
  have "genStructM h obj (prepend (out g) (err g) (fresh g))
        = map_sum id (prepend (out g) (err g)) (genStructM h obj (fresh g))"
    by (rule genStructM_prepend)
  then have "Inr g' = map_sum id (prepend (out g) (err g)) (genStructM h obj (fresh g))"
    using assms by (simp add: prepend_fresh)
  then show ?thesis by (cases "genStructM h obj (fresh g)") auto
qed

lemma structDesc_fresh [simp]: "structDesc (fresh g) obj = structDesc g obj"
  by (simp add: structDesc_def)

lemma genStructM_codes_out:
  assumes "genStructM h obj (fresh g) = Inr g0"
  shows "\<exists>R. out g0 =
     [(indent g, ''#define '' @ structDesc g obj @ ''_DESCRIPTOR_ \"go.'' @ pkgName g @ ''.''
                 @ tn_Name obj @ ''\"\<newline>'')] @
     concat (map (\<lambda>(i, f).
       [(indent g, ''#define '' @ structDesc g obj @ ''_FIELD_'' @ var_Name f @ ''_GET_ (0x'' @ fmt_x i @ ''0f)\<newline>''),
        (indent g, ''#define '' @ structDesc g obj @ ''_FIELD_'' @ var_Name f @ ''_SET_ (0x'' @ fmt_x i @ ''1f)\<newline>'')])
       (enumerate 0 (exportedFields obj))) @
     map (\<lambda>(i, m).
       (indent g, ''#define '' @ structDesc g obj @ ''_'' @ func_Name m @ ''_ (0x'' @ fmt_x i @ ''0c)\<newline>''))
       (enumerate 0 (exportedMethodSet obj)) @ R"
proof -
  let ?d = "structDesc g obj"
  obtain g1 g2 g3 X where
    g1: "g1 = fold (genStructM_methodCode ?d) (enumerate 0 (exportedMethodSet obj))
            (fold (genStructM_fieldCodes ?d) (enumerate 0 (exportedFields obj))
               (Printf (''#define '' @ ?d @ ''_DESCRIPTOR_ \"go.'' @ pkgName (fresh g) @ ''.''
                        @ tn_Name obj @ ''\"\<newline>'') (fresh g)))"
    and X: "out g2 = out g1 @ X"
    and m: "foldP (genStructM_method h ?d) (exportedMethodSet obj)
       (fold (genStructM_field h ?d) (exportedFields obj) g2) = Inr g3"
    and e: "g0 = Printf ''@end\<newline>'' g3"
    using genStructM_parts [OF assms] by auto
  let ?g2' = "fold (genStructM_field h ?d) (exportedFields obj) g2"
  have "out ?g2' = out g2 @ out (fold (genStructM_field h ?d) (exportedFields obj) (fresh g2))"
    by (rule out_append_fresh, rule fold_prepend, rule genStructM_field_prepend)
  moreover obtain Y where "out g3 = out ?g2' @ Y"
    using foldP_out_append [of "genStructM_method h ?d", OF genStructM_method_prepend m] by blast
  ultimately obtain R where "out g0 = out g1 @ R" using X e by simp
  then show ?thesis
    by (simp add: g1 genStructM_methodCodes_out genStructM_fieldCodes_out)
qed

lemma genStructM_sends:
  assumes "genStructM h obj (fresh g) = Inr g0"
  shows "(\<forall>f \<in> set (exportedFields obj).
           (Suc (indent g), send_line (structDesc g obj @ ''_DESCRIPTOR_'')
              (structDesc g obj @ ''_FIELD_'' @ var_Name f @ ''_GET_'')) \<in> set (out g0) \<and>
           (Suc (indent g), send_line (structDesc g obj @ ''_DESCRIPTOR_'')
              (structDesc g obj @ ''_FIELD_'' @ var_Name f @ ''_SET_'')) \<in> set (out g0)) \<and>
         (\<forall>m \<in> set (exportedMethodSet obj).
           (Suc (indent g), send_line (structDesc g obj @ ''_DESCRIPTOR_'')
              (structDesc g obj @ ''_'' @ func_Name m @ ''_'')) \<in> set (out g0))"
proof -
  let ?d = "structDesc g obj"
  obtain g1 g2 g3 where
    fr: "frame g2 = frame (fresh g)"
    and m: "foldP (genStructM_method h ?d) (exportedMethodSet obj)
       (fold (genStructM_field h ?d) (exportedFields obj) g2) = Inr g3"
    and e: "g0 = Printf ''@end\<newline>'' g3"
    using genStructM_parts [OF assms] by auto
  let ?g2' = "fold (genStructM_field h ?d) (exportedFields obj) g2"
  have i2: "indent g2 = indent g" using frame_fields(1) [OF fr] by simp
  have fr2: "frame ?g2' = frame g2" by simp
  obtain Y where Y: "out g3 = out ?g2' @ Y"
    using foldP_out_append [of "genStructM_method h ?d", OF genStructM_method_prepend m] by blast
  have fields: "\<And>f c. f \<in> set (exportedFields obj) \<Longrightarrow>
      (\<And>g'. frame g' = frame g2 \<Longrightarrow> c \<in> set (out (genStructM_field h ?d f g'))) \<Longrightarrow> c \<in> set (out g0)"
  proof -
    fix f c
    assume "f \<in> set (exportedFields obj)"
      and "\<And>g'. frame g' = frame g2 \<Longrightarrow> c \<in> set (out (genStructM_field h ?d f g'))"
    then have "c \<in> set (out ?g2')"
      by (intro fold_out_member [of "genStructM_field h ?d"]) (simp_all add: genStructM_field_prepend)
    then show "c \<in> set (out g0)" using Y e by simp
  qed
  have a: "\<forall>f \<in> set (exportedFields obj).
           (Suc (indent g), send_line (?d @ ''_DESCRIPTOR_'') (?d @ ''_FIELD_'' @ var_Name f @ ''_GET_''))
             \<in> set (out g0) \<and>
           (Suc (indent g), send_line (?d @ ''_DESCRIPTOR_'') (?d @ ''_FIELD_'' @ var_Name f @ ''_SET_''))
             \<in> set (out g0)"
  proof (intro ballI conjI)
    fix f assume f: "f \<in> set (exportedFields obj)"
    show "(Suc (indent g), send_line (?d @ ''_DESCRIPTOR_'') (?d @ ''_FIELD_'' @ var_Name f @ ''_GET_''))
             \<in> set (out g0)"
    proof (rule fields [OF f])
      fix g' assume "frame g' = frame g2"
      then have "indent g' = indent g" using i2 by (simp add: frame_def)
      then show "(Suc (indent g), send_line (?d @ ''_DESCRIPTOR_'') (?d @ ''_FIELD_'' @ var_Name f @ ''_GET_''))
             \<in> set (out (genStructM_field h ?d f g'))"
        using genStructM_field_sends [of g' ?d f h] by simp
    qed
    show "(Suc (indent g), send_line (?d @ ''_DESCRIPTOR_'') (?d @ ''_FIELD_'' @ var_Name f @ ''_SET_''))
             \<in> set (out g0)"
    proof (rule fields [OF f])
      fix g' assume "frame g' = frame g2"
      then have "indent g' = indent g" using i2 by (simp add: frame_def)
      then show "(Suc (indent g), send_line (?d @ ''_DESCRIPTOR_'') (?d @ ''_FIELD_'' @ var_Name f @ ''_SET_''))
             \<in> set (out (genStructM_field h ?d f g'))"
        using genStructM_field_sends [of g' ?d f h] by simp
    qed
  qed
  have b: "\<forall>m \<in> set (exportedMethodSet obj).
           (Suc (indent g), send_line (?d @ ''_DESCRIPTOR_'') (?d @ ''_'' @ func_Name m @ ''_''))
             \<in> set (out g0)"
  proof
    fix x assume x: "x \<in> set (exportedMethodSet obj)"
    have "(Suc (indent g), send_line (?d @ ''_DESCRIPTOR_'') (?d @ ''_'' @ func_Name x @ ''_''))
             \<in> set (out g3)"
    proof (rule foldP_out_member [of "genStructM_method h ?d", OF genStructM_method_prepend _ x m])
      fix y g g' assume "genStructM_method h ?d y g = Inr g'"
      then show "frame g' = frame g" by (rule genStructM_method_frame)
    next
      fix g1 g2' assume "frame g1 = frame ?g2'" and r: "genStructM_method h ?d x g1 = Inr g2'"
      then have "indent g1 = indent g" using fr2 i2 by (simp add: frame_def)
      then show "(Suc (indent g), send_line (?d @ ''_DESCRIPTOR_'') (?d @ ''_'' @ func_Name x @ ''_''))
             \<in> set (out g2')"
        using genStructM_method_sends [OF r] by simp
    qed
    then show "(Suc (indent g), send_line (?d @ ''_DESCRIPTOR_'') (?d @ ''_'' @ func_Name x @ ''_''))
             \<in> set (out g0)" using e by simp
  qed
  show ?thesis using a b by blast
qed


lemma code_values_differ:
  "c_int_literal (''(0x'' @ fmt_x i @ ''0f)'') \<noteq> c_int_literal (''(0x'' @ fmt_x j @ ''1f)'')"
  "c_int_literal (''(0x'' @ fmt_x i @ ''0f)'') \<noteq> c_int_literal (''(0x'' @ fmt_x k @ ''0c)'')"
  "c_int_literal (''(0x'' @ fmt_x j @ ''1f)'') \<noteq> c_int_literal (''(0x'' @ fmt_x k @ ''0c)'')"
proof -
  have "(i * 256 + 15) mod 256 \<noteq> (j * 256 + 31) mod 256"
       "(i * 256 + 15) mod 256 \<noteq> (k * 256 + 12) mod 256"
       "(j * 256 + 31) mod 256 \<noteq> (k * 256 + 12) mod 256"
    by simp_all
  then have "i * 256 + 15 \<noteq> j * 256 + 31" "i * 256 + 15 \<noteq> k * 256 + 12" "j * 256 + 31 \<noteq> k * 256 + 12"
    by metis+
  then show
    "c_int_literal (''(0x'' @ fmt_x i @ ''0f)'') \<noteq> c_int_literal (''(0x'' @ fmt_x j @ ''1f)'')"
    "c_int_literal (''(0x'' @ fmt_x i @ ''0f)'') \<noteq> c_int_literal (''(0x'' @ fmt_x k @ ''0c)'')"
    "c_int_literal (''(0x'' @ fmt_x j @ ''1f)'') \<noteq> c_int_literal (''(0x'' @ fmt_x k @ ''0c)'')"
    unfolding code_value_get code_value_set code_value_method by simp_all
qed

lemma proxyS_codes:
  "proxyS_X_Get_Code = push_bit 8 0 OR 0x0f" "proxyS_X_Set_Code = push_bit 8 0 OR 0x1f"
  "proxyS_Y_Get_Code = push_bit 8 1 OR 0x0f" "proxyS_Y_Set_Code = push_bit 8 1 OR 0x1f"
  "proxyS_Sum_Code = push_bit 8 0 OR 0x0c" "proxyS_TryTwoStrings_Code = push_bit 8 1 OR 0x0c"
  by (simp_all add: or_low_bits proxyS_X_Get_Code_def proxyS_X_Set_Code_def proxyS_Y_Get_Code_def
      proxyS_Y_Set_Code_def proxyS_Sum_Code_def proxyS_TryTwoStrings_Code_def)

text \<open>
  C3. \<open>genStructM\<close> first prints the macros of the struct: its descriptor, then for the
  field with index i a getter code written (0x<i in hex>0f) and a setter code written
  (0x<i in hex>1f), then for the method with index k a code written (0x<k in hex>0c).
  Read as C literals these are (i<<8)|0x0f, (i<<8)|0x1f and (k<<8)|0x0c. No getter code
  equals a setter code or a method code, and no setter code equals a method code, for any
  indices. The constants of the Go half for struct S are these values.
\<close>

theorem struct_member_codes:
  assumes "genStructM h obj g = Inr g'"
  shows "(\<exists>R. out g' = out g @
     [(indent g, ''#define '' @ structDesc g obj @ ''_DESCRIPTOR_ \"go.'' @ pkgName g @ ''.''
                 @ tn_Name obj @ ''\"\<newline>'')] @
     concat (map (\<lambda>(i, f).
       [(indent g, ''#define '' @ structDesc g obj @ ''_FIELD_'' @ var_Name f @ ''_GET_ (0x'' @ fmt_x i @ ''0f)\<newline>''),
        (indent g, ''#define '' @ structDesc g obj @ ''_FIELD_'' @ var_Name f @ ''_SET_ (0x'' @ fmt_x i @ ''1f)\<newline>'')])
       (enumerate 0 (exportedFields obj))) @
     map (\<lambda>(k, m).
       (indent g, ''#define '' @ structDesc g obj @ ''_'' @ func_Name m @ ''_ (0x'' @ fmt_x k @ ''0c)\<newline>''))
       (enumerate 0 (exportedMethodSet obj)) @ R) \<and>
   c_int_literal (''(0x'' @ fmt_x i @ ''0f)'') = Some (push_bit 8 i OR 0x0f) \<and>
   c_int_literal (''(0x'' @ fmt_x i @ ''1f)'') = Some (push_bit 8 i OR 0x1f) \<and>
   c_int_literal (''(0x'' @ fmt_x k @ ''0c)'') = Some (push_bit 8 k OR 0x0c) \<and>
   c_int_literal (''(0x'' @ fmt_x i @ ''0f)'') \<noteq> c_int_literal (''(0x'' @ fmt_x j @ ''1f)'') \<and>
   c_int_literal (''(0x'' @ fmt_x i @ ''0f)'') \<noteq> c_int_literal (''(0x'' @ fmt_x k @ ''0c)'') \<and>
   c_int_literal (''(0x'' @ fmt_x j @ ''1f)'') \<noteq> c_int_literal (''(0x'' @ fmt_x k @ ''0c)'') \<and>
   proxyS_X_Get_Code = push_bit 8 0 OR 0x0f \<and> proxyS_X_Set_Code = push_bit 8 0 OR 0x1f \<and>
   proxyS_Y_Get_Code = push_bit 8 1 OR 0x0f \<and> proxyS_Y_Set_Code = push_bit 8 1 OR 0x1f \<and>
   proxyS_Sum_Code = push_bit 8 0 OR 0x0c \<and> proxyS_TryTwoStrings_Code = push_bit 8 1 OR 0x0c"
proof -
  obtain g0 where g0: "genStructM h obj (fresh g) = Inr g0" "out g' = out g @ out g0"
    using genStructM_fresh [OF assms] by blast
  have 1: "\<exists>R. out g' = out g @
     [(indent g, ''#define '' @ structDesc g obj @ ''_DESCRIPTOR_ \"go.'' @ pkgName g @ ''.''
                 @ tn_Name obj @ ''\"\<newline>'')] @
     concat (map (\<lambda>(i, f).
       [(indent g, ''#define '' @ structDesc g obj @ ''_FIELD_'' @ var_Name f @ ''_GET_ (0x'' @ fmt_x i @ ''0f)\<newline>''),
        (indent g, ''#define '' @ structDesc g obj @ ''_FIELD_'' @ var_Name f @ ''_SET_ (0x'' @ fmt_x i @ ''1f)\<newline>'')])
       (enumerate 0 (exportedFields obj))) @
     map (\<lambda>(k, m).
       (indent g, ''#define '' @ structDesc g obj @ ''_'' @ func_Name m @ ''_ (0x'' @ fmt_x k @ ''0c)\<newline>''))
       (enumerate 0 (exportedMethodSet obj)) @ R"
    using genStructM_codes_out [OF g0(1)] g0(2) by auto
  have 2: "c_int_literal (''(0x'' @ fmt_x i @ ''0f)'') = Some (push_bit 8 i OR 0x0f)"
          "c_int_literal (''(0x'' @ fmt_x i @ ''1f)'') = Some (push_bit 8 i OR 0x1f)"
          "c_int_literal (''(0x'' @ fmt_x k @ ''0c)'') = Some (push_bit 8 k OR 0x0c)"
    using or_low_bits [of 15 i] or_low_bits [of 31 i] or_low_bits [of 12 k]
    by (simp_all only: code_value_get code_value_set code_value_method)
  show ?thesis
    using 1 2 code_values_differ(1) [of i j] code_values_differ(2) [of i k]
      code_values_differ(3) [of j k] proxyS_codes by blast
qed

lemma testpkg_S_ok:
  "genStructM spec_helpers testpkg_S (init spec_helpers (newGen testpkg))
   = Inr (projr (genStructM spec_helpers testpkg_S (init spec_helpers (newGen testpkg))))"
proof -
  have "list_all acceptedResults (exportedMethodSet testpkg_S)"
    by (simp add: testpkg_S_def acceptedResults_def)
  then obtain g' where "genStructM spec_helpers testpkg_S (init spec_helpers (newGen testpkg)) = Inr g'"
    using genStructM_ok by blast
  then show ?thesis by simp
qed

lemma testpkg_S_simps:
  "structDesc (init spec_helpers (newGen testpkg)) testpkg_S = ''_GO_testpkg_S''"
  "pkgName (init spec_helpers (newGen testpkg)) = ''testpkg''" "tn_Name testpkg_S = ''S''"
  "exportedFields testpkg_S = [mkvar ''X'' (Basic types_Float64), mkvar ''Y'' (Basic types_Float64)]"
  "map func_Name (exportedMethodSet testpkg_S) = [''Sum'', ''TryTwoStrings'']"
  "length (exportedMethodSet testpkg_S) = 2"
  by (simp_all add: structDesc_def testpkg_def testpkg_S_def)

theorem struct_member_codes_witness:
  "take 7 (out (projr (genStructM spec_helpers testpkg_S (init spec_helpers (newGen testpkg))))) =
     [(0, ''#define _GO_testpkg_S_DESCRIPTOR_ \"go.testpkg.S\"\<newline>''),
      (0, ''#define _GO_testpkg_S_FIELD_X_GET_ (0x00f)\<newline>''),
      (0, ''#define _GO_testpkg_S_FIELD_X_SET_ (0x01f)\<newline>''),
      (0, ''#define _GO_testpkg_S_FIELD_Y_GET_ (0x10f)\<newline>''),
      (0, ''#define _GO_testpkg_S_FIELD_Y_SET_ (0x11f)\<newline>''),
      (0, ''#define _GO_testpkg_S_Sum_ (0x00c)\<newline>''),
      (0, ''#define _GO_testpkg_S_TryTwoStrings_ (0x10c)\<newline>'')] \<and>
   c_int_literal ''(0x10f)'' = Some (push_bit 8 1 OR 0x0f)"
proof -
  obtain m1 m2 where m: "exportedMethodSet testpkg_S = [m1, m2]"
      "func_Name m1 = ''Sum''" "func_Name m2 = ''TryTwoStrings''"
    by (simp add: testpkg_S_def)
  note t = struct_member_codes [OF testpkg_S_ok, of 1 1 1]
  have n: "pkg_Name testpkg = ''testpkg''" by (simp add: testpkg_def)
  show ?thesis
    using t [THEN conjunct1] t [THEN conjunct2, THEN conjunct1]
    by (auto simp add: testpkg_S_simps m n enumerate_eq_zip upt_rec fmt_x_small digit_chars_def)
qed


subsection \<open>Struct descriptors\<close>

lemma c_unescape_plain:
  "CHR ''\"'' \<notin> set s \<Longrightarrow> CHR 0x5C \<notin> set s \<Longrightarrow> c_unescape (s @ ''\"'') = Some s"
proof (induction s)
  case Nil
  show ?case by simp
next
  case (Cons c s)
  obtain d r where r: "s @ ''\"'' = d # r" by (cases "s @ ''\"''") auto
  have "c_unescape (s @ ''\"'') = Some s" using Cons by simp
  then have i: "c_unescape (d # r) = Some s" by (simp only: r)
  have "c_unescape ((c # s) @ ''\"'') = c_unescape (c # d # r)" using r by simp
  also have "\<dots> = map_option ((#) c) (c_unescape (d # r))" using Cons.prems by auto
  finally show ?case using i by simp
qed

lemma testpkg_S_first_line:
  "out (projr (genStructM spec_helpers testpkg_S (init spec_helpers (newGen testpkg)))) ! 0
   = (0, ''#define _GO_testpkg_S_DESCRIPTOR_ \"go.testpkg.S\"\<newline>'')"
proof -
  obtain g0 where g0: "genStructM spec_helpers testpkg_S (fresh (init spec_helpers (newGen testpkg))) = Inr g0"
    "out (projr (genStructM spec_helpers testpkg_S (init spec_helpers (newGen testpkg))))
      = out (init spec_helpers (newGen testpkg)) @ out g0"
    using genStructM_fresh [OF testpkg_S_ok] by blast
  have n: "pkg_Name testpkg = ''testpkg''" by (simp add: testpkg_def)
  show ?thesis
    using genStructM_codes_out [OF g0(1)] g0(2) by (auto simp add: testpkg_S_simps n)
qed

theorem struct_descriptor_is_not_package_dot_type:
  "out (projr (genStructM spec_helpers testpkg_S (init spec_helpers (newGen testpkg)))) ! 0
     = (0, ''#define _GO_testpkg_S_DESCRIPTOR_ \"go.testpkg.S\"\<newline>'') \<and>
   c_string_literal ''\"go.testpkg.S\"'' = Some ''go.testpkg.S'' \<and>
   ''go.testpkg.S'' \<noteq> pkg_Name testpkg @ ''.'' @ tn_Name testpkg_S \<and>
   proxyS_Descriptor \<noteq> pkg_Name testpkg @ ''.'' @ tn_Name testpkg_S"
  using testpkg_S_first_line
  by (simp add: c_string_literal_def proxyS_Descriptor_def testpkg_def testpkg_S_def)

text \<open>
  C6 (as amended). For every struct, the descriptor macro is defined as the string
  "go." followed by the package name, a dot and the type name, and the stub of every
  member (the getter and the setter of each exported field, and each exported method) sends
  under that descriptor macro. The Go half for struct S of testpkg uses the same string,
  "go.testpkg.S".
\<close>

theorem struct_member_descriptor:
  assumes "genStructM h obj g = Inr g'"
  shows "\<exists>E. out g' = out g @ E \<and>
     E ! 0 = (indent g, ''#define '' @ structDesc g obj @ ''_DESCRIPTOR_ \"go.'' @ pkgName g @ ''.''
                        @ tn_Name obj @ ''\"\<newline>'') \<and>
     (CHR ''\"'' \<notin> set (pkgName g @ tn_Name obj) \<and> CHR 0x5C \<notin> set (pkgName g @ tn_Name obj) \<longrightarrow>
        c_string_literal (''\"go.'' @ pkgName g @ ''.'' @ tn_Name obj @ ''\"'')
          = Some (''go.'' @ pkgName g @ ''.'' @ tn_Name obj)) \<and>
     (\<forall>f \<in> set (exportedFields obj).
        (Suc (indent g), send_line (structDesc g obj @ ''_DESCRIPTOR_'')
           (structDesc g obj @ ''_FIELD_'' @ var_Name f @ ''_GET_'')) \<in> set E \<and>
        (Suc (indent g), send_line (structDesc g obj @ ''_DESCRIPTOR_'')
           (structDesc g obj @ ''_FIELD_'' @ var_Name f @ ''_SET_'')) \<in> set E) \<and>
     (\<forall>m \<in> set (exportedMethodSet obj).
        (Suc (indent g), send_line (structDesc g obj @ ''_DESCRIPTOR_'')
           (structDesc g obj @ ''_'' @ func_Name m @ ''_'')) \<in> set E) \<and>
     proxyS_Descriptor = ''go.'' @ pkg_Name testpkg @ ''.'' @ tn_Name testpkg_S"
proof -
  obtain g0 where g0: "genStructM h obj (fresh g) = Inr g0" "out g' = out g @ out g0"
    using genStructM_fresh [OF assms] by blast
  have 1: "out g0 ! 0 = (indent g, ''#define '' @ structDesc g obj @ ''_DESCRIPTOR_ \"go.'' @ pkgName g @ ''.''
                        @ tn_Name obj @ ''\"\<newline>'')"
    using genStructM_codes_out [OF g0(1)] by auto
  have 2: "CHR ''\"'' \<notin> set (pkgName g @ tn_Name obj) \<and> CHR 0x5C \<notin> set (pkgName g @ tn_Name obj) \<longrightarrow>
        c_string_literal (''\"go.'' @ pkgName g @ ''.'' @ tn_Name obj @ ''\"'')
          = Some (''go.'' @ pkgName g @ ''.'' @ tn_Name obj)"
  proof
    assume a: "CHR ''\"'' \<notin> set (pkgName g @ tn_Name obj) \<and> CHR 0x5C \<notin> set (pkgName g @ tn_Name obj)"
    have "c_unescape ((''go.'' @ pkgName g @ ''.'' @ tn_Name obj) @ ''\"'')
          = Some (''go.'' @ pkgName g @ ''.'' @ tn_Name obj)"
      using a by (intro c_unescape_plain) auto
    then show "c_string_literal (''\"go.'' @ pkgName g @ ''.'' @ tn_Name obj @ ''\"'')
          = Some (''go.'' @ pkgName g @ ''.'' @ tn_Name obj)"
      by (simp add: c_string_literal_def)
  qed
  have 3: "proxyS_Descriptor = ''go.'' @ pkg_Name testpkg @ ''.'' @ tn_Name testpkg_S"
    by (simp add: proxyS_Descriptor_def testpkg_def testpkg_S_def)
  show ?thesis
    using g0(2) 1 2 3 genStructM_sends [OF g0(1)] by blast
qed

theorem struct_member_descriptor_witness:
  "out (projr (genStructM spec_helpers testpkg_S (init spec_helpers (newGen testpkg)))) ! 0
     = (0, ''#define _GO_testpkg_S_DESCRIPTOR_ \"go.testpkg.S\"\<newline>'') \<and>
   c_string_literal ''\"go.testpkg.S\"'' = Some ''go.testpkg.S'' \<and>
   (1, ''go_seq_send(_GO_testpkg_S_DESCRIPTOR_, _GO_testpkg_S_FIELD_X_GET_, &in_, &out_);\<newline>'')
     \<in> set (out (projr (genStructM spec_helpers testpkg_S (init spec_helpers (newGen testpkg))))) \<and>
   (1, ''go_seq_send(_GO_testpkg_S_DESCRIPTOR_, _GO_testpkg_S_FIELD_Y_SET_, &in_, &out_);\<newline>'')
     \<in> set (out (projr (genStructM spec_helpers testpkg_S (init spec_helpers (newGen testpkg))))) \<and>
   (1, ''go_seq_send(_GO_testpkg_S_DESCRIPTOR_, _GO_testpkg_S_TryTwoStrings_, &in_, &out_);\<newline>'')
     \<in> set (out (projr (genStructM spec_helpers testpkg_S (init spec_helpers (newGen testpkg)))))"
proof -
  have n: "pkg_Name testpkg = ''testpkg''" by (simp add: testpkg_def)
  have m: "exportedMethodSet testpkg_S =
    [mkfunc ''Sum'' [] [mkvar [] (Basic types_Float64)],
         mkfunc ''TryTwoStrings''
           [mkvar ''first'' (Basic types_String), mkvar ''second'' (Basic types_String)]
           [mkvar [] (Basic types_String)]]"
    by (simp add: testpkg_S_def)
  show ?thesis
    using struct_member_descriptor [OF testpkg_S_ok]
    by (auto simp add: testpkg_S_simps(1-4) n m send_line_def)
qed


subsection \<open>Diagnostics are kept\<close>

lemma fresh_eq: "frame g = frame g' \<Longrightarrow> fresh g = fresh g'"
  by (simp add: fresh_def frame_def)


lemma objcType_err: "err (snd (objcType t g)) = err g @ err (snd (objcType t (fresh g)))"
proof -
  have "objcType t (prepend (out g) (err g) (fresh g))
        = (fst (objcType t (fresh g)), prepend (out g) (err g) (snd (objcType t (fresh g))))"
    by (rule objcType_prepend)
  then show ?thesis by (simp add: prepend_fresh)
qed







lemma funcSummary_err_grows: "\<exists>E. err (snd (funcSummary h obj g)) = err g @ E"
  using objcType_err [of "var_Type (func_Results obj ! 0)" g]
  by (simp add: funcSummary_def Let_def case_prod_beta)








subsection \<open>Unsupported types\<close>








section \<open>The statements are what genFunc prints\<close>

lemma objcType_fst_fresh: "fst (objcType t g) = fst (objcType t (fresh g))"
proof -
  have "objcType t (prepend (out g) (err g) (fresh g))
        = (fst (objcType t (fresh g)), prepend (out g) (err g) (snd (objcType t (fresh g))))"
    by (rule objcType_prepend)
  then show ?thesis by (simp add: prepend_fresh)
qed

lemma objcType_fst_frame: "frame g' = frame g \<Longrightarrow> fst (objcType t g') = fst (objcType t g)"
  using objcType_fst_fresh [of t g] objcType_fst_fresh [of t g'] fresh_eq [of g' g] by simp

lemma stub_retParam_frame: "frame g' = frame g \<Longrightarrow> stub_retParam h g' p = stub_retParam h g p"
  using objcType_fst_frame [of g' g "p_typ p"] by (simp add: stub_retParam_def)

lemma stub_result_frame:
  assumes "frame g' = frame g"
  shows "stub_result h g' s = stub_result h g s"
proof -
  have m: "stub_retParam h g' = stub_retParam h g"
    by (rule ext) (rule stub_retParam_frame [OF assms])
  show ?thesis
    using objcType_fst_frame [OF assms, of "p_typ (s_retParams s ! 0)"]
    by (simp add: stub_result_def m Let_def)
qed

lemma genFunc_param_render:
  "out (genFunc_param h p g) = out g @ render (indent g) (stub_param h p)"
  by (simp add: genFunc_param_out stub_param_def Let_def)

lemma genFunc_params_render:
  "out (fold (genFunc_param h) ps g) = out g @ concat (map (render (indent g)) (map (stub_param h) ps))"
proof (induction ps arbitrary: g)
  case Nil
  show ?case by simp
next
  case (Cons p ps)
  have "indent (genFunc_param h p g) = indent g"
    using frame_fields(1) [OF genFunc_param_frame] .
  then show ?case by (simp add: Cons genFunc_param_render)
qed

lemma genFunc_retParam_render:
  "out (genFunc_retParam h p g) = out g @ concat (map (render (indent g)) (stub_retParam h g p))"
  by (simp add: genFunc_retParam_def stub_retParam_def Let_def case_prod_beta)

lemma genFunc_retParams_render:
  "out (fold (genFunc_retParam h) ps g)
   = out g @ concat (map (render (indent g)) (concat (map (stub_retParam h g) ps)))"
proof (induction ps arbitrary: g)
  case Nil
  show ?case by simp
next
  case (Cons p ps)
  let ?g1 = "genFunc_retParam h p g"
  have fr: "frame ?g1 = frame g" by simp
  then have i: "indent ?g1 = indent g" by (rule frame_fields(1))
  have m: "stub_retParam h ?g1 = stub_retParam h g"
    by (rule ext) (rule stub_retParam_frame [OF fr])
  show ?case by (simp add: Cons genFunc_retParam_render i m)
qed

lemma genFunc_result_render:
  "out (genFunc_result h s g) = out g @ concat (map (render (indent g)) (stub_result h g s))"
  by (simp add: genFunc_result_def stub_result_def Let_def case_prod_beta genFunc_retParams_render)

lemma genFunc_return_render:
  "out (genFunc_return s g) = out g @ concat (map (render (indent g)) (stub_return s))"
  by (simp add: genFunc_return_def stub_return_def Let_def)

lemma genFunc_prints_stub:
  "out (genFunc h pkgDesc callDesc s isMethod g)
   = out g @ concat (map (render (indent g)) (stub h g pkgDesc callDesc s isMethod))"
proof -
  define g1 where "g1 = fold (genFunc_param h) (s_params s)
      (if isMethod then Printf ''go_seq_writeRef(&in_, self.ref);\<newline>''
                          (Printf ''GoSeq out_ = {};\<newline>'' (Printf ''GoSeq in_ = {};\<newline>'' g))
       else Printf ''GoSeq out_ = {};\<newline>'' (Printf ''GoSeq in_ = {};\<newline>'' g))"
  define g2 where "g2 = Printf (''go_seq_send('' @ pkgDesc @ '', '' @ callDesc @ '', &in_, &out_);\<newline>'') g1"
  define g3 where "g3 = Printf ''go_seq_free(&out_);\<newline>'' (Printf ''go_seq_free(&in_);\<newline>''
      (genFunc_result h s g2))"
  have e: "genFunc h pkgDesc callDesc s isMethod g = genFunc_return s g3"
    by (simp add: genFunc_def Let_def g1_def g2_def g3_def)
  have f1: "frame g1 = frame g" by (simp add: g1_def)
  have f2: "frame g2 = frame g" by (simp add: g2_def f1)
  have f3: "frame g3 = frame g" by (simp add: g3_def f2)
  note i = frame_fields(1) [OF f1] frame_fields(1) [OF f2] frame_fields(1) [OF f3]
  have o1: "out g1 = out g @ concat (map (render (indent g))
       ([DeclSeq ''in_'', DeclSeq ''out_''] @ (if isMethod then [WriteSelfRef] else [])
        @ map (stub_param h) (s_params s)))"
    by (simp add: g1_def genFunc_params_render)
  have o2: "out g2 = out g1 @ render (indent g) (Send pkgDesc callDesc)"
    by (simp add: g2_def i)
  have o3: "out g3 = out g2 @ concat (map (render (indent g)) (stub_result h g s))
                     @ concat (map (render (indent g)) [Free ''in_'', Free ''out_''])"
    by (simp add: g3_def genFunc_result_render i stub_result_frame [OF f2])
  show ?thesis
    unfolding e genFunc_return_render i o3 o2 o1 stub_def by simp
qed


section \<open>What a stub does\<close>

lemma execs_append:
  "execs env (xs @ ys) s = (case execs env xs s of Inl f \<Rightarrow> Inl f | Inr s' \<Rightarrow> execs env ys s')"
  by (induction xs arbitrary: s) (simp_all split: sum.splits)

lemma execs_concat_safe:
  assumes "\<And>x s. x \<in> set xs \<Longrightarrow> execs env (f x) s \<noteq> Inl NullDereference"
  shows "execs env (concat (map f xs)) s \<noteq> Inl NullDereference"
  using assms
proof (induction xs arbitrary: s)
  case Nil
  show ?case by simp
next
  case (Cons x xs)
  then show ?case by (auto simp add: execs_append split: sum.splits)
qed

lemma stub_retParam_safe: "execs env (stub_retParam h g p) s \<noteq> Inl NullDereference"
  by (auto simp add: stub_retParam_def split: list.splits option.splits val.splits sum.splits)

lemma stub_result_safe: "execs env (stub_result h g s) st \<noteq> Inl NullDereference"
proof (cases "returnsVal s")
  case True
  then show ?thesis
    by (auto simp add: stub_result_def Let_def split: list.splits option.splits val.splits sum.splits)
next
  case False
  then show ?thesis
    by (simp add: stub_result_def execs_concat_safe stub_retParam_safe)
qed

lemma stub_params_run:
  "\<exists>st'. execs env (map (stub_param h) ps) st = Inr st' \<and> out_buf st' = out_buf st \<and>
         locals st' = locals st \<and> mem st' = mem st \<and> refobj st' = refobj st \<and>
         heap st' = heap st \<and> freed st' = freed st \<and> returned st' = returned st"
proof (induction ps arbitrary: st)
  case Nil
  show ?case by simp
next
  case (Cons p ps)
  show ?case
    using Cons [of "st\<lparr>in_buf := in_buf st @ [if objcGen_seqType h (p_typ p) = ''Ref''
        then ref_of st (args env (p_name p)) else args env (p_name p)]\<rparr>"]
    by (simp add: stub_param_def Let_def)
qed

lemma stub_return_safe: "execs env (stub_return s) st \<noteq> Inl NullDereference"
  by (auto simp add: stub_return_def Let_def split: option.splits val.splits)

lemma stub_run_head:
  "\<exists>st2 inb. execs env (stub h g pd cd s m) st
       = execs env (stub_result h g s @ [Free ''in_'', Free ''out_''] @ stub_return s) st2 \<and>
     out_buf st2 = respond env pd cd inb \<and>
     locals st2 = locals st \<and> mem st2 = mem st \<and> refobj st2 = refobj st \<and>
     heap st2 = heap st \<and> freed st2 = freed st \<and> returned st2 = returned st"
proof -
  let ?pre = "[DeclSeq ''in_'', DeclSeq ''out_''] @ (if m then [WriteSelfRef] else [])"
  let ?tail = "stub_result h g s @ [Free ''in_'', Free ''out_''] @ stub_return s"
  obtain st1 where 1: "execs env ?pre st = Inr st1" "out_buf st1 = []"
     "locals st1 = locals st" "mem st1 = mem st" "refobj st1 = refobj st"
     "heap st1 = heap st" "freed st1 = freed st" "returned st1 = returned st"
    by (cases m) auto
  obtain st2 where 2: "execs env (map (stub_param h) (s_params s)) st1 = Inr st2"
     "locals st2 = locals st1" "mem st2 = mem st1" "refobj st2 = refobj st1"
     "heap st2 = heap st1" "freed st2 = freed st1" "returned st2 = returned st1"
    using stub_params_run [of env h "s_params s" st1] by auto
  let ?st3 = "st2\<lparr>out_buf := respond env pd cd (in_buf st2)\<rparr>"
  have "stub h g pd cd s m = ?pre @ (map (stub_param h) (s_params s) @ ([Send pd cd] @ ?tail))"
    by (simp add: stub_def)
  then have "execs env (stub h g pd cd s m) st
      = (case execs env ?pre st of Inl f \<Rightarrow> Inl f
         | Inr s' \<Rightarrow> execs env (map (stub_param h) (s_params s) @ ([Send pd cd] @ ?tail)) s')"
    by (simp only: execs_append)
  also have "\<dots> = execs env (map (stub_param h) (s_params s) @ ([Send pd cd] @ ?tail)) st1"
    by (simp only: 1(1) sum.case)
  also have "\<dots> = execs env ([Send pd cd] @ ?tail) st2"
    by (simp only: execs_append [of env "map (stub_param h) (s_params s)"] 2(1) sum.case)
  also have "\<dots> = execs env ?tail ?st3"
    by (simp only: execs_append [of env "[Send pd cd]"]) simp
  finally have "execs env (stub h g pd cd s m) st = execs env ?tail ?st3" .
  then show ?thesis using 1 2 by (intro exI [of _ ?st3] exI [of _ "in_buf st2"]) simp
qed

lemma stub_safe: "execs env (stub h g pd cd s m) st \<noteq> Inl NullDereference"
proof -
  obtain st2 where "execs env (stub h g pd cd s m) st
       = execs env (stub_result h g s @ [Free ''in_'', Free ''out_''] @ stub_return s) st2"
    using stub_run_head by blast
  then show ?thesis
    using stub_result_safe stub_return_safe
    by (auto simp add: execs_append split: sum.splits)
qed


subsection \<open>The stubs of testpkg\<close>

lemma ToUpper_t: "capitalize h ''testpkg'' = ''Testpkg''"
proof -
  have "char_of (84::nat) = CHR ''T''" by code_simp
  thus ?thesis by (simp add: capitalize_def ToUpper_def)
qed

lemma testpkg_summaries:
  "funcSummary spec_helpers testpkg_ReturnsError (init spec_helpers (newGen testpkg))
     = (Some summary_ReturnsError, init spec_helpers (newGen testpkg))"
  "funcSummary spec_helpers (mkfunc ''NewS''
            [mkvar ''x'' (Basic types_Float64), mkvar ''y'' (Basic types_Float64)]
            [mkvar [] (Pointer testpkg_S_type)]) (init spec_helpers (newGen testpkg))
     = (Some summary_NewS, init spec_helpers (newGen testpkg))"
  by (simp_all add: funcSummary_def Let_def testpkg_ReturnsError_def summary_ReturnsError_def
      summary_NewS_def spec_helpers_def paramName_spec_def paramRE_spec_def upt_rec
      isErrorType_def universe_error_def testpkg_S_type_def objcType_Pointer objcType_Named
      testpkg_def testpkg_path_def ToUpper_t)

lemma stub_ReturnsError_eq:
  "stub_ReturnsError =
     [DeclSeq ''in_'', DeclSeq ''out_'', WriteParam ''Bool'' ''b'' False,
      Send ''_DESCRIPTOR_'' ''_CALL_ReturnsError_'',
      ReadVal ''NSString*'' ''ret0__val'' ''UTF8'',
      IfPtr ''ret0_'' [Store ''ret0_'' ''ret0__val''],
      ReadVal ''NSString*'' ''_error'' ''UTF8'',
      IfError ''_error'' ''error'' [DeclDetails, SetDetails ''_error'', StoreNSError ''error''],
      Free ''in_'', Free ''out_'', ReturnEmpty ''_error'']"
  by (simp add: stub_ReturnsError_def stub_def stub_param_def stub_result_def stub_retParam_def
      stub_return_def summary_ReturnsError_def returnsVal_def objcGen_seqType_def spec_helpers_def
      seqType_spec_def objcType_Basic Let_def)

lemma stub_NewS_eq:
  "stub_NewS =
     [DeclSeq ''in_'', DeclSeq ''out_'', WriteParam ''Float64'' ''x'' False,
      WriteParam ''Float64'' ''y'' False,
      Send ''_DESCRIPTOR_'' ''_CALL_NewS_'',
      ReadRef ''ret0__ref'',
      DeclObj ''GoTestpkgS*'' ''ret0_'' ''ret0__ref'',
      IfNull ''ret0_'' [AllocInit ''ret0_'' ''GoTestpkgS'' ''ret0__ref''],
      Free ''in_'', Free ''out_'', Return ''ret0_'']"
  by (simp add: stub_NewS_def stub_def stub_param_def stub_result_def stub_retParam_def
      stub_return_def summary_NewS_def returnsVal_def objcGen_seqType_def spec_helpers_def
      seqType_spec_def objcType_Pointer objcType_Named Let_def testpkg_S_type_def
      isErrorType_def universe_error_def testpkg_def testpkg_path_def ToUpper_t)


subsection \<open>Decoding the out-parameters\<close>

lemma retParam_error_run:
  assumes "isErrorType (p_typ p)" "out_buf st = Str msg # r"
  shows "\<exists>st'. execs env (stub_retParam h g p) st = Inr st' \<and> out_buf st' = r \<and>
           in_buf st' = in_buf st \<and> refobj st' = refobj st \<and> heap st' = heap st \<and>
           freed st' = freed st \<and> returned st' = returned st \<and>
           locals st' (''_'' @ p_name p) = Some (Str msg) \<and>
           mem st' = (case ptrs env (p_name p) of
                        None \<Rightarrow> mem st
                      | Some a \<Rightarrow> if msg = [] then mem st else (mem st)(a \<mapsto> NSError (Str msg)))"
  using assms by (auto simp add: stub_retParam_def split: option.splits)

lemma retParam_value_run:
  assumes "\<not> isErrorType (p_typ p)" "objcGen_seqType h (p_typ p) \<noteq> ''Ref''" "out_buf st = v # r"
  shows "\<exists>st'. execs env (stub_retParam h g p) st = Inr st' \<and> out_buf st' = r \<and>
           in_buf st' = in_buf st \<and> refobj st' = refobj st \<and> heap st' = heap st \<and>
           freed st' = freed st \<and> returned st' = returned st \<and>
           mem st' = (case ptrs env (p_name p) of None \<Rightarrow> mem st | Some a \<Rightarrow> (mem st)(a \<mapsto> v))"
  using assms by (auto simp add: stub_retParam_def split: option.splits)

lemma retParam_ref_run:
  assumes "\<not> isErrorType (p_typ p)" "objcGen_seqType h (p_typ p) = ''Ref''"
    "out_buf st = Ref n # r"
  shows "\<exists>st'. execs env (stub_retParam h g p) st = Inr st' \<and> out_buf st' = r \<and>
           in_buf st' = in_buf st \<and> refobj st' = refobj st \<and>
           freed st' = freed st \<and> returned st' = returned st \<and>
           (case ptrs env (p_name p) of
              None \<Rightarrow> mem st' = mem st \<and> heap st' = heap st
            | Some a \<Rightarrow>
               (case refobj st n of
                  Some w \<Rightarrow> mem st' = (mem st)(a \<mapsto> Obj w) \<and> heap st' = heap st
                | None \<Rightarrow> mem st' = (mem st)(a \<mapsto> Obj (length (heap st))) \<and>
                          heap st' = heap st @ [(butlast (fst (objcType (p_typ p) g)), Ref n)]))"
  using assms by (auto simp add: stub_retParam_def obj_of_def split: option.splits)

lemma retParam_null_run:
  assumes "fits h [p] [v]" "out_buf st = v # r" "ptrs env (p_name p) = None"
  shows "\<exists>st'. execs env (stub_retParam h g p) st = Inr st' \<and> out_buf st' = r \<and>
           in_buf st' = in_buf st \<and> refobj st' = refobj st \<and> heap st' = heap st \<and>
           freed st' = freed st \<and> returned st' = returned st \<and> mem st' = mem st \<and>
           (isErrorType (p_typ p) \<longrightarrow> locals st' (''_'' @ p_name p) = Some v)"
proof (cases "isErrorType (p_typ p)")
  case True
  then obtain msg where "v = Str msg" using assms(1) by (cases v) auto
  then show ?thesis
    using retParam_error_run [of p st msg r env h g] True assms by auto
next
  case False
  show ?thesis
  proof (cases "objcGen_seqType h (p_typ p) = ''Ref''")
    case True
    then obtain n where "v = Ref n" using assms(1) False by (cases v) auto
    then show ?thesis
      using retParam_ref_run [of p h st n r env g] True False assms by auto
  next
    case ne: False
    show ?thesis
      using retParam_value_run [of p h st v r env g] ne False assms by auto
  qed
qed

lemma retParams_null_run:
  assumes "fits h ps vs" "out_buf st = vs @ r" "\<forall>p \<in> set ps. ptrs env (p_name p) = None"
  shows "\<exists>st'. execs env (concat (map (stub_retParam h g) ps)) st = Inr st' \<and> out_buf st' = r \<and>
           in_buf st' = in_buf st \<and> refobj st' = refobj st \<and> heap st' = heap st \<and>
           freed st' = freed st \<and> returned st' = returned st \<and> mem st' = mem st \<and>
           (ps \<noteq> [] \<longrightarrow> isErrorType (p_typ (last ps)) \<longrightarrow>
              locals st' (''_'' @ p_name (last ps)) = Some (last vs))"
  using assms
proof (induction ps arbitrary: vs st)
  case Nil
  then show ?case by simp
next
  case (Cons p ps)
  then obtain v vs' where vs: "vs = v # vs'" by (cases vs) auto
  have f1: "fits h [p] [v]" and f2: "fits h ps vs'" using Cons.prems(1) vs by auto
  obtain st1 where 1: "execs env (stub_retParam h g p) st = Inr st1" "out_buf st1 = vs' @ r"
      "in_buf st1 = in_buf st" "refobj st1 = refobj st" "heap st1 = heap st"
      "freed st1 = freed st" "returned st1 = returned st" "mem st1 = mem st"
      "isErrorType (p_typ p) \<longrightarrow> locals st1 (''_'' @ p_name p) = Some v"
    using retParam_null_run [of h p v st "vs' @ r" env g] f1 Cons.prems vs by auto
  have run: "execs env (concat (map (stub_retParam h g) (p # ps))) st
        = execs env (concat (map (stub_retParam h g) ps)) st1"
    using 1(1) by (simp add: execs_append)
  show ?case
  proof (cases "ps = []")
    case True
    then have "vs' = []" using f2 by simp
    then show ?thesis using run 1 True vs by simp
  next
    case False
    then have "vs' \<noteq> []" using f2 by (cases ps) auto
    obtain st' where 2: "execs env (concat (map (stub_retParam h g) ps)) st1 = Inr st'"
        "out_buf st' = r" "in_buf st' = in_buf st1" "refobj st' = refobj st1"
        "heap st' = heap st1" "freed st' = freed st1" "returned st' = returned st1"
        "mem st' = mem st1"
        "ps \<noteq> [] \<longrightarrow> isErrorType (p_typ (last ps)) \<longrightarrow>
              locals st' (''_'' @ p_name (last ps)) = Some (last vs')"
      using Cons.IH [of vs' st1] f2 1(2) Cons.prems(3) by auto
    show ?thesis using run 1 2 False vs \<open>vs' \<noteq> []\<close> by simp
  qed
qed

lemma fits_last_error:
  "fits h ps vs \<Longrightarrow> ps \<noteq> [] \<Longrightarrow> isErrorType (p_typ (last ps)) \<Longrightarrow> \<exists>msg. last vs = Str msg"
proof (induction ps arbitrary: vs)
  case Nil
  then show ?case by simp
next
  case (Cons p ps)
  then obtain v vs' where vs: "vs = v # vs'" by (cases vs) auto
  show ?case
  proof (cases "ps = []")
    case True
    then have "vs' = []" using Cons.prems vs by simp
    then show ?thesis using Cons.prems True vs by (cases v) auto
  next
    case False
    then have "vs' \<noteq> []" using Cons.prems vs by (cases ps) auto
    then show ?thesis using Cons.IH [of vs'] Cons.prems False vs by auto
  qed
qed

lemma stub_return_last:
  "s_retParams s \<noteq> [] \<Longrightarrow> isErrorType (p_typ (last (s_retParams s))) \<Longrightarrow>
     stub_return s = [ReturnEmpty (''_'' @ p_name (last (s_retParams s)))]"
  by (simp add: stub_return_def Let_def last_conv_nth)

lemma stub_return_empty: "s_retParams s = [] \<Longrightarrow> stub_return s = []"
  by (simp add: stub_return_def)

lemma stub_null_run:
  assumes "\<not> returnsVal s" "lastIsError s" "fits h (s_retParams s) resp"
  shows "\<exists>st'. execs (nullCaller resp) (stub h g pd cd s m) st = Inr st' \<and> out_buf st' = [] \<and>
           freed st' = freed st @ [''in_'', ''out_''] \<and> mem st' = mem st \<and>
           heap st' = heap st \<and> refobj st' = refobj st \<and>
           (s_retParams s \<noteq> [] \<longrightarrow>
              (\<exists>msg. last resp = Str msg \<and> returned st' = Some (Bool (msg = []))))"
proof -
  let ?env = "nullCaller resp"
  obtain st2 where 2: "execs ?env (stub h g pd cd s m) st
       = execs ?env (stub_result h g s @ [Free ''in_'', Free ''out_''] @ stub_return s) st2"
     "out_buf st2 = resp" "mem st2 = mem st" "refobj st2 = refobj st"
     "heap st2 = heap st" "freed st2 = freed st" "returned st2 = returned st"
    using stub_run_head [of ?env h g pd cd s m st] by (auto simp add: nullCaller_def)
  have res: "stub_result h g s = concat (map (stub_retParam h g) (s_retParams s))"
    using assms(1) by (simp add: stub_result_def)
  obtain st3 where 3: "execs ?env (stub_result h g s) st2 = Inr st3" "out_buf st3 = []"
      "refobj st3 = refobj st2" "heap st3 = heap st2"
      "freed st3 = freed st2" "returned st3 = returned st2" "mem st3 = mem st2"
      "s_retParams s \<noteq> [] \<longrightarrow> isErrorType (p_typ (last (s_retParams s))) \<longrightarrow>
              locals st3 (''_'' @ p_name (last (s_retParams s))) = Some (last resp)"
    using retParams_null_run [of h "s_retParams s" resp st2 "[]" ?env g] assms(3) 2(2) res
    by (auto simp add: nullCaller_def)
  let ?st4 = "st3\<lparr>freed := freed st3 @ [''in_'', ''out_'']\<rparr>"
  have run: "execs ?env (stub h g pd cd s m) st = execs ?env (stub_return s) ?st4"
    using 2(1) 3(1) by (simp add: execs_append)
  show ?thesis
  proof (cases "s_retParams s = []")
    case True
    then show ?thesis using run 2 3 by (simp add: stub_return_empty)
  next
    case False
    then have e: "isErrorType (p_typ (last (s_retParams s)))"
      using assms(2) by (simp add: lastIsError_def)
    obtain msg where msg: "last resp = Str msg"
      using fits_last_error [OF assms(3) False e] by blast
    show ?thesis using run 2 3 False e msg by (simp add: stub_return_last)
  qed
qed


section \<open>Out-parameters and NULL\<close>

lemma funcSummary_shape:
  "funcSummary h f g = (Some s, g') \<Longrightarrow> returnsVal s \<or> lastIsError s"
  by (auto simp add: funcSummary_def Let_def returnsVal_def lastIsError_def
      split: if_splits prod.splits)

text \<open>
  C10: the text genFunc prints is the rendering of the stub's statements; running them
  never dereferences a null pointer, whatever the pointers and the response; and with
  NULL for every out-parameter and a response that fits, the run ends with the response
  read to its end, both buffers freed, and memory and heap as they were. Every summary
  of funcSummary that does not return its value has the failure last.
\<close>

theorem out_parameters_are_guarded:
  "out (genFunc h pd cd s m g) = out g @ concat (map (render (indent g)) (stub h g pd cd s m)) \<and>
   execs env (stub h g pd cd s m) st \<noteq> Inl NullDereference \<and>
   (\<not> returnsVal s \<and> lastIsError s \<and> fits h (s_retParams s) resp \<longrightarrow>
      (\<exists>st'. execs (nullCaller resp) (stub h g pd cd s m) st = Inr st' \<and> out_buf st' = [] \<and>
             freed st' = freed st @ [''in_'', ''out_''] \<and> mem st' = mem st \<and> heap st' = heap st)) \<and>
   (funcSummary h f g0 = (Some s, g1) \<longrightarrow> returnsVal s \<or> lastIsError s)"
proof (intro conjI impI)
  show "out (genFunc h pd cd s m g) = out g @ concat (map (render (indent g)) (stub h g pd cd s m))"
    by (rule genFunc_prints_stub)
  show "execs env (stub h g pd cd s m) st \<noteq> Inl NullDereference"
    by (rule stub_safe)
next
  assume "\<not> returnsVal s \<and> lastIsError s \<and> fits h (s_retParams s) resp"
  then show "\<exists>st'. execs (nullCaller resp) (stub h g pd cd s m) st = Inr st' \<and> out_buf st' = [] \<and>
             freed st' = freed st @ [''in_'', ''out_''] \<and> mem st' = mem st \<and> heap st' = heap st"
    using stub_null_run [of s h resp g pd cd m st] by blast
next
  assume "funcSummary h f g0 = (Some s, g1)"
  then show "returnsVal s \<or> lastIsError s" by (rule funcSummary_shape)
qed

theorem out_parameters_are_guarded_witness:
  "\<not> returnsVal summary_ReturnsError \<and> lastIsError summary_ReturnsError \<and>
   fits spec_helpers (s_retParams summary_ReturnsError) [Str ''ok'', Str []] \<and>
   funcSummary spec_helpers testpkg_ReturnsError (init spec_helpers (newGen testpkg))
     = (Some summary_ReturnsError, init spec_helpers (newGen testpkg)) \<and>
   (\<exists>st'. execs (nullCaller [Str ''ok'', Str []]) stub_ReturnsError start = Inr st' \<and>
          out_buf st' = [] \<and> freed st' = [''in_'', ''out_''] \<and> mem st' = mem start \<and>
          heap st' = heap start)"
proof -
  have a: "\<not> returnsVal summary_ReturnsError \<and> lastIsError summary_ReturnsError \<and>
     fits spec_helpers (s_retParams summary_ReturnsError) [Str ''ok'', Str []]"
    by (simp add: returnsVal_def lastIsError_def summary_ReturnsError_def isErrorType_def
        universe_error_def objcGen_seqType_def spec_helpers_def seqType_spec_def)
  have b: "freed start = []" by (simp add: start_def)
  show ?thesis
    using out_parameters_are_guarded [where h = spec_helpers and s = summary_ReturnsError
        and resp = "[Str ''ok'', Str []]" and st = start and m = False
        and g = "init spec_helpers (newGen testpkg)" and pd = "''_DESCRIPTOR_''"
        and cd = "''_CALL_ReturnsError_''" and f = testpkg_ReturnsError
        and ?g0.0 = "init spec_helpers (newGen testpkg)" and ?g1.0 = "init spec_helpers (newGen testpkg)"
        and env = "nullCaller []"]
      a b testpkg_summaries(1)
    by (simp add: stub_ReturnsError_def)
qed


section \<open>Object references as results\<close>

lemma stub_return_val:
  "returnsVal s \<Longrightarrow> stub_return s = [Return (p_name (s_retParams s ! 0))]"
  by (simp add: stub_return_def returnsVal_def Let_def)

lemma stub_result_ref:
  "returnsVal s \<Longrightarrow> objcGen_seqType h (p_typ (s_retParams s ! 0)) = ''Ref'' \<Longrightarrow>
   stub_result h g s =
     [ReadRef (p_name (s_retParams s ! 0) @ ''_ref''),
      DeclObj (fst (objcType (p_typ (s_retParams s ! 0)) g)) (p_name (s_retParams s ! 0))
        (p_name (s_retParams s ! 0) @ ''_ref''),
      IfNull (p_name (s_retParams s ! 0))
        [AllocInit (p_name (s_retParams s ! 0))
           (butlast (fst (objcType (p_typ (s_retParams s ! 0)) g)))
           (p_name (s_retParams s ! 0) @ ''_ref'')]]"
  by (simp add: stub_result_def Let_def)

lemma ref_result_run:
  assumes "out_buf st = [Ref r]"
  shows "\<exists>st'. execs env
            ([ReadRef (x @ ''_ref''), DeclObj t x (x @ ''_ref''),
              IfNull x [AllocInit x c (x @ ''_ref'')],
              Free ''in_'', Free ''out_'', Return x]) st = Inr st' \<and>
          out_buf st' = [] \<and> refobj st' = refobj st \<and> mem st' = mem st \<and>
          (case refobj st r of
             Some w \<Rightarrow> returned st' = Some (Obj w) \<and> heap st' = heap st
           | None \<Rightarrow> returned st' = Some (Obj (length (heap st))) \<and>
                     heap st' = heap st @ [(c, Ref r)])"
  using assms by (cases "refobj st r") (simp_all add: obj_of_def)

lemma stub_ref_run:
  assumes "returnsVal s" "objcGen_seqType h (p_typ (s_retParams s ! 0)) = ''Ref''"
    "\<forall>inb. respond env pd cd inb = [Ref r]"
  shows "\<exists>st'. execs env (stub h g pd cd s m) st = Inr st' \<and>
          out_buf st' = [] \<and> refobj st' = refobj st \<and> mem st' = mem st \<and>
          (case refobj st r of
             Some w \<Rightarrow> returned st' = Some (Obj w) \<and> heap st' = heap st
           | None \<Rightarrow> returned st' = Some (Obj (length (heap st))) \<and>
                     heap st' = heap st @
                       [(butlast (fst (objcType (p_typ (s_retParams s ! 0)) g)), Ref r)])"
proof -
  obtain st2 where 2: "execs env (stub h g pd cd s m) st
       = execs env (stub_result h g s @ [Free ''in_'', Free ''out_''] @ stub_return s) st2"
     "out_buf st2 = [Ref r]" "mem st2 = mem st" "refobj st2 = refobj st" "heap st2 = heap st"
    using stub_run_head [of env h g pd cd s m st] assms(3) by auto
  have "stub_result h g s @ [Free ''in_'', Free ''out_''] @ stub_return s =
     [ReadRef (p_name (s_retParams s ! 0) @ ''_ref''),
      DeclObj (fst (objcType (p_typ (s_retParams s ! 0)) g)) (p_name (s_retParams s ! 0))
        (p_name (s_retParams s ! 0) @ ''_ref''),
      IfNull (p_name (s_retParams s ! 0))
        [AllocInit (p_name (s_retParams s ! 0))
           (butlast (fst (objcType (p_typ (s_retParams s ! 0)) g)))
           (p_name (s_retParams s ! 0) @ ''_ref'')],
      Free ''in_'', Free ''out_'', Return (p_name (s_retParams s ! 0))]"
    using assms(1,2) by (simp only: stub_result_ref stub_return_val append.simps)
  then show ?thesis
    using ref_result_run [of st2 r env "p_name (s_retParams s ! 0)"
        "fst (objcType (p_typ (s_retParams s ! 0)) g)"
        "butlast (fst (objcType (p_typ (s_retParams s ! 0)) g))"] 2
    by (simp only:)
qed

lemma call_ref_run:
  assumes "returnsVal s" "objcGen_seqType h (p_typ (s_retParams s ! 0)) = ''Ref''"
    "\<forall>inb. respond env pd cd inb = [Ref r]"
  shows "\<exists>st'. call env (stub h g pd cd s m) st = Inr st' \<and>
          refobj st' = refobj st \<and> mem st' = mem st \<and>
          (case refobj st r of
             Some w \<Rightarrow> returned st' = Some (Obj w) \<and> heap st' = heap st
           | None \<Rightarrow> returned st' = Some (Obj (length (heap st))) \<and>
                     heap st' = heap st @
                       [(butlast (fst (objcType (p_typ (s_retParams s ! 0)) g)), Ref r)])"
  using stub_ref_run [OF assms, of g m "st\<lparr>locals := Map.empty, freed := [], returned := None\<rparr>"]
  by (auto simp add: call_def split: option.splits)


text \<open>
  C9, amended: the text genFunc prints is the rendering of the stub's statements. A stub
  that returns an object reference reads the wrapper attached to the reference it read:
  an attached wrapper is returned as it is and nothing is allocated; when none is
  attached a new wrapper holding the reference is allocated and returned. The stub does
  not attach the new wrapper to the reference: the registry is unchanged, and a second
  call that reads the same reference allocates again. The out-parameter form stores
  through the pointer in the same way.
\<close>

theorem ref_results_reuse_attached_wrapper:
  "out (genFunc h pd cd s m g) = out g @ concat (map (render (indent g)) (stub h g pd cd s m)) \<and>
   (returnsVal s \<and> objcGen_seqType h (p_typ (s_retParams s ! 0)) = ''Ref'' \<and>
    (\<forall>inb. respond env pd cd inb = [Ref r]) \<longrightarrow>
      (\<exists>st'. call env (stub h g pd cd s m) st = Inr st' \<and> refobj st' = refobj st \<and>
         (\<forall>w. refobj st r = Some w \<longrightarrow> returned st' = Some (Obj w) \<and> heap st' = heap st) \<and>
         (refobj st r = None \<longrightarrow>
            returned st' = Some (Obj (length (heap st))) \<and>
            heap st' = heap st @ [(butlast (fst (objcType (p_typ (s_retParams s ! 0)) g)), Ref r)] \<and>
            (\<exists>st''. call env (stub h g pd cd s m) st' = Inr st'' \<and>
                    returned st'' = Some (Obj (Suc (length (heap st)))))))) \<and>
   (\<not> isErrorType (p_typ p) \<and> objcGen_seqType h (p_typ p) = ''Ref'' \<and>
    out_buf st = Ref r # rest \<and> ptrs env (p_name p) = Some a \<longrightarrow>
      (\<exists>st'. execs env (stub_retParam h g p) st = Inr st' \<and> refobj st' = refobj st \<and>
         (\<forall>w. refobj st r = Some w \<longrightarrow> mem st' a = Some (Obj w) \<and> heap st' = heap st) \<and>
         (refobj st r = None \<longrightarrow>
            mem st' a = Some (Obj (length (heap st))) \<and>
            heap st' = heap st @ [(butlast (fst (objcType (p_typ p) g)), Ref r)])))"
proof (intro conjI impI)
  show "out (genFunc h pd cd s m g) = out g @ concat (map (render (indent g)) (stub h g pd cd s m))"
    by (rule genFunc_prints_stub)
next
  assume a: "returnsVal s \<and> objcGen_seqType h (p_typ (s_retParams s ! 0)) = ''Ref'' \<and>
    (\<forall>inb. respond env pd cd inb = [Ref r])"
  let ?c = "butlast (fst (objcType (p_typ (s_retParams s ! 0)) g))"
  obtain st' where 1: "call env (stub h g pd cd s m) st = Inr st'" "refobj st' = refobj st"
      "case refobj st r of
             Some w \<Rightarrow> returned st' = Some (Obj w) \<and> heap st' = heap st
           | None \<Rightarrow> returned st' = Some (Obj (length (heap st))) \<and>
                     heap st' = heap st @ [(?c, Ref r)]"
    using call_ref_run [of s h env pd cd r g m st] a by blast
  obtain st'' where 2: "call env (stub h g pd cd s m) st' = Inr st''"
      "case refobj st' r of
             Some w \<Rightarrow> returned st'' = Some (Obj w) \<and> heap st'' = heap st'
           | None \<Rightarrow> returned st'' = Some (Obj (length (heap st'))) \<and>
                     heap st'' = heap st' @ [(?c, Ref r)]"
    using call_ref_run [of s h env pd cd r g m st'] a by blast
  show "\<exists>st'. call env (stub h g pd cd s m) st = Inr st' \<and> refobj st' = refobj st \<and>
         (\<forall>w. refobj st r = Some w \<longrightarrow> returned st' = Some (Obj w) \<and> heap st' = heap st) \<and>
         (refobj st r = None \<longrightarrow>
            returned st' = Some (Obj (length (heap st))) \<and>
            heap st' = heap st @ [(?c, Ref r)] \<and>
            (\<exists>st''. call env (stub h g pd cd s m) st' = Inr st'' \<and>
                    returned st'' = Some (Obj (Suc (length (heap st))))))"
    using 1 2 by (intro exI [of _ st']) (auto split: option.splits)
next
  assume "\<not> isErrorType (p_typ p) \<and> objcGen_seqType h (p_typ p) = ''Ref'' \<and>
    out_buf st = Ref r # rest \<and> ptrs env (p_name p) = Some a"
  then show "\<exists>st'. execs env (stub_retParam h g p) st = Inr st' \<and> refobj st' = refobj st \<and>
         (\<forall>w. refobj st r = Some w \<longrightarrow> mem st' a = Some (Obj w) \<and> heap st' = heap st) \<and>
         (refobj st r = None \<longrightarrow>
            mem st' a = Some (Obj (length (heap st))) \<and>
            heap st' = heap st @ [(butlast (fst (objcType (p_typ p) g)), Ref r)])"
    using retParam_ref_run [of p h st r rest env g] by (auto split: option.splits)
qed

lemma summary_NewS_ref:
  "returnsVal summary_NewS \<and>
   objcGen_seqType spec_helpers (p_typ (s_retParams summary_NewS ! 0)) = ''Ref''"
  by (simp add: returnsVal_def summary_NewS_def isErrorType_def universe_error_def
      objcGen_seqType_def spec_helpers_def seqType_spec_def testpkg_S_type_def)

theorem ref_results_reuse_attached_wrapper_witness:
  "returnsVal summary_NewS \<and>
   objcGen_seqType spec_helpers (p_typ (s_retParams summary_NewS ! 0)) = ''Ref'' \<and>
   (\<forall>inb. respond (caller twoPointers [Ref 7]) ''_DESCRIPTOR_'' ''_CALL_NewS_'' inb = [Ref 7]) \<and>
   \<not> isErrorType (p_typ (s_retParams summary_NewS ! 0)) \<and>
   out_buf (start\<lparr>out_buf := [Ref 7], refobj := [7 \<mapsto> 3]\<rparr>) = Ref 7 # [] \<and>
   ptrs (caller twoPointers [Ref 7]) (p_name (s_retParams summary_NewS ! 0)) = Some 0 \<and>
   refobj (start\<lparr>out_buf := [Ref 7], refobj := [7 \<mapsto> 3]\<rparr>) 7 = Some 3 \<and>
   (\<exists>st'. call (caller twoPointers [Ref 7]) stub_NewS
             (start\<lparr>out_buf := [Ref 7], refobj := [7 \<mapsto> 3]\<rparr>) = Inr st' \<and>
          returned st' = Some (Obj 3) \<and> heap st' = []) \<and>
   (\<exists>st'. execs (caller twoPointers [Ref 7])
             (stub_retParam spec_helpers (init spec_helpers (newGen testpkg)) (s_retParams summary_NewS ! 0))
             (start\<lparr>out_buf := [Ref 7], refobj := [7 \<mapsto> 3]\<rparr>) = Inr st' \<and>
          mem st' 0 = Some (Obj 3) \<and> heap st' = [])"
proof -
  let ?st = "start\<lparr>out_buf := [Ref 7], refobj := [7 \<mapsto> 3]\<rparr>"
  let ?env = "caller twoPointers [Ref 7]"
  let ?p = "s_retParams summary_NewS ! 0"
  have b: "\<forall>inb. respond ?env ''_DESCRIPTOR_'' ''_CALL_NewS_'' inb = [Ref 7]"
    by (simp add: caller_def)
  have c: "refobj ?st 7 = Some 3" "heap ?st = []" "out_buf ?st = Ref 7 # []"
    by (simp_all add: start_def)
  have d: "\<not> isErrorType (p_typ ?p)" "ptrs ?env (p_name ?p) = Some 0"
    by (simp_all add: summary_NewS_def isErrorType_def universe_error_def testpkg_S_type_def
        caller_def twoPointers_def)
  have e: "returnsVal summary_NewS" "objcGen_seqType spec_helpers (p_typ ?p) = ''Ref''"
    using summary_NewS_ref by simp_all
  have t1: "\<exists>st'. call ?env stub_NewS ?st = Inr st' \<and> returned st' = Some (Obj 3) \<and> heap st' = []"
    using ref_results_reuse_attached_wrapper [where h = spec_helpers and s = summary_NewS
        and env = ?env and r = 7 and st = ?st
        and m = False and g = "init spec_helpers (newGen testpkg)" and pd = "''_DESCRIPTOR_''"
        and cd = "''_CALL_NewS_''", THEN conjunct2, THEN conjunct1] b c e
    unfolding stub_NewS_def by auto
  have t2: "\<exists>st'. execs ?env (stub_retParam spec_helpers (init spec_helpers (newGen testpkg)) ?p) ?st = Inr st' \<and>
          mem st' 0 = Some (Obj 3) \<and> heap st' = []"
    using ref_results_reuse_attached_wrapper [where h = spec_helpers and p = ?p
        and env = ?env and r = 7 and st = ?st and rest = "[]" and a = 0
        and g = "init spec_helpers (newGen testpkg)", THEN conjunct2, THEN conjunct2] c d e
    by auto
  show ?thesis using b c d e t1 t2 by (intro conjI) assumption+
qed

text \<open>
  C9 as stated fails: the stub of \<open>NewS\<close> called twice, each call reading the reference 7
  to which no wrapper is attached, returns two different wrappers.
\<close>

theorem decoding_twice_allocates_twice:
  "returned (projr (call (nullCaller [Ref 7]) stub_NewS start)) = Some (Obj 0) \<and>
   returned (projr (call (nullCaller [Ref 7]) stub_NewS
              (projr (call (nullCaller [Ref 7]) stub_NewS start)))) = Some (Obj 1)"
  by (simp add: stub_NewS_eq call_def start_def nullCaller_def obj_of_def)


section \<open>The failure message\<close>

lemma proxy_ReturnsError_writes:
  "proxy_ReturnsError_run callee outb (Bool b # inb)
     = Some (outb @ [Str (fst (callee b)),
                     Str (case snd (callee b) of None \<Rightarrow> [] | Some e \<Rightarrow> e)])"
  by (simp add: proxy_ReturnsError_run_def ReadBool_def WriteString_def
      split: prod.splits option.splits)

lemma retParam_run:
  assumes "fits h [p] [v]" "out_buf st = v # r"
  shows "\<exists>st'. execs env (stub_retParam h g p) st = Inr st' \<and> out_buf st' = r \<and>
           refobj st' = refobj st \<and> freed st' = freed st \<and> returned st' = returned st"
proof (cases "isErrorType (p_typ p)")
  case True
  then obtain msg where "v = Str msg" using assms(1) by (cases v) auto
  then show ?thesis
    using retParam_error_run [of p st msg r env h g] True assms by auto
next
  case False
  show ?thesis
  proof (cases "objcGen_seqType h (p_typ p) = ''Ref''")
    case True
    then obtain n where "v = Ref n" using assms(1) False by (cases v) auto
    then show ?thesis
      using retParam_ref_run [of p h st n r env g] True False assms by auto
  next
    case ne: False
    show ?thesis
      using retParam_value_run [of p h st v r env g] ne False assms by auto
  qed
qed

lemma retParams_run:
  assumes "fits h ps vs" "out_buf st = vs @ r"
  shows "\<exists>st'. execs env (concat (map (stub_retParam h g) ps)) st = Inr st' \<and> out_buf st' = r \<and>
           refobj st' = refobj st \<and> freed st' = freed st \<and> returned st' = returned st"
  using assms
proof (induction ps arbitrary: vs st)
  case Nil
  then show ?case by simp
next
  case (Cons p ps)
  then obtain v vs' where vs: "vs = v # vs'" by (cases vs) auto
  have f1: "fits h [p] [v]" and f2: "fits h ps vs'" using Cons.prems(1) vs by auto
  obtain st1 where 1: "execs env (stub_retParam h g p) st = Inr st1" "out_buf st1 = vs' @ r"
      "refobj st1 = refobj st" "freed st1 = freed st" "returned st1 = returned st"
    using retParam_run [of h p v st "vs' @ r" env g] f1 Cons.prems vs by auto
  obtain st' where 2: "execs env (concat (map (stub_retParam h g) ps)) st1 = Inr st'"
      "out_buf st' = r" "refobj st' = refobj st1" "freed st' = freed st1"
      "returned st' = returned st1"
    using Cons.IH [of vs' st1] f2 1(2) by auto
  show ?case using 1 2 by (simp add: execs_append)
qed

lemma bool_stub_run:
  assumes "s_retParams s = qs @ [e]" "isErrorType (p_typ e)" "fits h qs vs"
    "\<forall>inb. respond env pd cd inb = vs @ [Str msg]"
  shows "\<exists>st'. execs env (stub h g pd cd s m) st = Inr st' \<and>
           returned st' = Some (Bool (msg = [])) \<and> out_buf st' = [] \<and>
           freed st' = freed st @ [''in_'', ''out_''] \<and>
           (\<forall>a. msg \<noteq> [] \<and> ptrs env (p_name e) = Some a \<longrightarrow> mem st' a = Some (NSError (Str msg))) \<and>
           ((msg = [] \<or> ptrs env (p_name e) = None) \<and> (\<forall>q \<in> set qs. ptrs env (p_name q) = None)
              \<longrightarrow> mem st' = mem st)"
proof -
  have nv: "\<not> returnsVal s" using assms(1,2) by (cases qs) (auto simp add: returnsVal_def)
  obtain st2 where 2: "execs env (stub h g pd cd s m) st
       = execs env (stub_result h g s @ [Free ''in_'', Free ''out_''] @ stub_return s) st2"
     "out_buf st2 = vs @ [Str msg]" "mem st2 = mem st" "freed st2 = freed st"
    using stub_run_head [of env h g pd cd s m st] assms(4) by auto
  have res: "stub_result h g s = concat (map (stub_retParam h g) qs) @ stub_retParam h g e"
    using nv assms(1) by (simp add: stub_result_def)
  have ret: "stub_return s = [ReturnEmpty (''_'' @ p_name e)]"
    using stub_return_last [of s] assms(1,2) by simp
  obtain st3 where 3: "execs env (concat (map (stub_retParam h g) qs)) st2 = Inr st3"
      "out_buf st3 = [Str msg]" "freed st3 = freed st2"
    using retParams_run [of h qs vs st2 "[Str msg]" env g] assms(3) 2(2) by auto
  have nul: "(\<forall>q \<in> set qs. ptrs env (p_name q) = None) \<longrightarrow> mem st3 = mem st2"
    using retParams_null_run [of h qs vs st2 "[Str msg]" env g] assms(3) 2(2) 3(1) by auto
  obtain st4 where 4: "execs env (stub_retParam h g e) st3 = Inr st4" "out_buf st4 = []"
      "freed st4 = freed st3" "locals st4 (''_'' @ p_name e) = Some (Str msg)"
      "mem st4 = (case ptrs env (p_name e) of
                        None \<Rightarrow> mem st3
                      | Some a \<Rightarrow> if msg = [] then mem st3 else (mem st3)(a \<mapsto> NSError (Str msg)))"
    using retParam_error_run [of e st3 msg "[]" env h g] assms(2) 3(2) by auto
  let ?st5 = "st4\<lparr>freed := freed st4 @ [''in_'', ''out_'']\<rparr>"
  have run: "execs env (stub h g pd cd s m) st
      = execs env [ReturnEmpty (''_'' @ p_name e)] ?st5"
    using 2(1) 3(1) 4(1) by (simp add: res ret execs_append)
  show ?thesis
    using run 2 3 nul 4 by (auto split: option.splits)
qed


lemma call_bool_stub:
  assumes "s_retParams s = qs @ [e]" "isErrorType (p_typ e)" "fits h qs vs"
    "\<forall>inb. respond env pd cd inb = vs @ [Str msg]"
  shows "\<exists>st'. call env (stub h g pd cd s m) st = Inr st' \<and>
           returned st' = Some (Bool (msg = [])) \<and>
           (\<forall>a. msg \<noteq> [] \<and> ptrs env (p_name e) = Some a \<longrightarrow> mem st' a = Some (NSError (Str msg))) \<and>
           ((msg = [] \<or> ptrs env (p_name e) = None) \<and> (\<forall>q \<in> set qs. ptrs env (p_name q) = None)
              \<longrightarrow> mem st' = mem st)"
  using bool_stub_run [OF assms, of g m "st\<lparr>locals := Map.empty, freed := [], returned := None\<rparr>"]
  by (auto simp add: call_def)

lemma ReturnsError_end_to_end:
  "\<exists>st'. call (goCaller callee b ps) stub_ReturnsError st = Inr st' \<and>
         returned st' = Some (Bool (snd (callee b) = None \<or> snd (callee b) = Some []))"
  by (cases "snd (callee b)")
     (auto simp add: stub_ReturnsError_eq call_def goCaller_def proxy_ReturnsError_writes
        split: option.splits)

text \<open>
  C7, amended: proxy_ReturnsError writes the value and then the failure message, the
  empty string for no error and otherwise the message of the error, whatever it is. The
  text genFunc prints is the rendering of the stub's statements; a stub whose last
  out-parameter is the failure reads the message last and returns whether it is empty,
  and stores an error value made from a non-empty message when the error pointer is not
  nil; with an empty message or a nil error pointer (and nil value pointers) it stores
  nothing. So the stub of ReturnsError reports success when the callee returned no error
  or an error whose message is empty.
\<close>

theorem failure_message_channel:
  "proxy_ReturnsError_run callee outb (Bool b # inb)
     = Some (outb @ [Str (fst (callee b)),
                     Str (case snd (callee b) of None \<Rightarrow> [] | Some e \<Rightarrow> e)]) \<and>
   out (genFunc h pd cd s m g) = out g @ concat (map (render (indent g)) (stub h g pd cd s m)) \<and>
   (s_retParams s = qs @ [e] \<and> isErrorType (p_typ e) \<and> fits h qs vs \<and>
    (\<forall>inb. respond env pd cd inb = vs @ [Str msg]) \<longrightarrow>
      (\<exists>st'. call env (stub h g pd cd s m) st = Inr st' \<and>
           returned st' = Some (Bool (msg = [])) \<and>
           (\<forall>a. msg \<noteq> [] \<and> ptrs env (p_name e) = Some a \<longrightarrow> mem st' a = Some (NSError (Str msg))) \<and>
           ((msg = [] \<or> ptrs env (p_name e) = None) \<and> (\<forall>q \<in> set qs. ptrs env (p_name q) = None)
              \<longrightarrow> mem st' = mem st))) \<and>
   (\<exists>st'. call (goCaller callee b ps) stub_ReturnsError st = Inr st' \<and>
         returned st' = Some (Bool (snd (callee b) = None \<or> snd (callee b) = Some [])))"
proof (intro conjI impI)
  show "proxy_ReturnsError_run callee outb (Bool b # inb)
     = Some (outb @ [Str (fst (callee b)),
                     Str (case snd (callee b) of None \<Rightarrow> [] | Some e \<Rightarrow> e)])"
    by (rule proxy_ReturnsError_writes)
  show "out (genFunc h pd cd s m g) = out g @ concat (map (render (indent g)) (stub h g pd cd s m))"
    by (rule genFunc_prints_stub)
  show "\<exists>st'. call (goCaller callee b ps) stub_ReturnsError st = Inr st' \<and>
         returned st' = Some (Bool (snd (callee b) = None \<or> snd (callee b) = Some []))"
    by (rule ReturnsError_end_to_end)
next
  assume "s_retParams s = qs @ [e] \<and> isErrorType (p_typ e) \<and> fits h qs vs \<and>
    (\<forall>inb. respond env pd cd inb = vs @ [Str msg])"
  then show "\<exists>st'. call env (stub h g pd cd s m) st = Inr st' \<and>
           returned st' = Some (Bool (msg = [])) \<and>
           (\<forall>a. msg \<noteq> [] \<and> ptrs env (p_name e) = Some a \<longrightarrow> mem st' a = Some (NSError (Str msg))) \<and>
           ((msg = [] \<or> ptrs env (p_name e) = None) \<and> (\<forall>q \<in> set qs. ptrs env (p_name q) = None)
              \<longrightarrow> mem st' = mem st)"
    using call_bool_stub [of s qs e h vs env pd cd msg g m st] by blast
qed

lemma summary_ReturnsError_shape:
  "s_retParams summary_ReturnsError
     = [\<lparr>p_typ = Basic types_String, p_name = ''ret0_''\<rparr>]
       @ [\<lparr>p_typ = universe_error, p_name = ''error''\<rparr>]"
  "isErrorType (p_typ \<lparr>p_typ = universe_error, p_name = ''error''\<rparr>)"
  "fits spec_helpers [\<lparr>p_typ = Basic types_String, p_name = ''ret0_''\<rparr>] [Str v]"
  by (simp_all add: summary_ReturnsError_def isErrorType_def universe_error_def
      objcGen_seqType_def spec_helpers_def seqType_spec_def)

theorem failure_message_channel_witness:
  "s_retParams summary_ReturnsError
     = [\<lparr>p_typ = Basic types_String, p_name = ''ret0_''\<rparr>]
       @ [\<lparr>p_typ = universe_error, p_name = ''error''\<rparr>] \<and>
   isErrorType (p_typ \<lparr>p_typ = universe_error, p_name = ''error''\<rparr>) \<and>
   fits spec_helpers [\<lparr>p_typ = Basic types_String, p_name = ''ret0_''\<rparr>] [Str []] \<and>
   ptrs (caller twoPointers [Str [], Str ''expected error''])
     (p_name \<lparr>p_typ = universe_error, p_name = ''error''\<rparr>) = Some 1 \<and>
   (\<exists>st'. call (caller twoPointers [Str [], Str ''expected error'']) stub_ReturnsError start
            = Inr st' \<and>
          returned st' = Some (Bool False) \<and>
          mem st' 1 = Some (NSError (Str ''expected error''))) \<and>
   (\<exists>st'. call (caller (\<lambda>x. None) [Str ''ok'', Str []]) stub_ReturnsError start = Inr st' \<and>
          returned st' = Some (Bool True) \<and> mem st' = mem start)"
proof -
  let ?q = "\<lparr>p_typ = Basic types_String, p_name = ''ret0_''\<rparr>"
  let ?e = "\<lparr>p_typ = universe_error, p_name = ''error''\<rparr>"
  let ?env1 = "caller twoPointers [Str [], Str ''expected error'']"
  let ?env2 = "caller (\<lambda>x. None) [Str ''ok'', Str []]"
  have r1: "\<forall>inb. respond ?env1 ''_DESCRIPTOR_'' ''_CALL_ReturnsError_'' inb
              = [Str []] @ [Str ''expected error'']"
    and r2: "\<forall>inb. respond ?env2 ''_DESCRIPTOR_'' ''_CALL_ReturnsError_'' inb
              = [Str ''ok''] @ [Str []]"
    and p1: "ptrs ?env1 (p_name ?e) = Some 1"
    and p2: "ptrs ?env2 (p_name ?e) = None" "\<forall>q \<in> set [?q]. ptrs ?env2 (p_name q) = None"
    by (simp_all add: caller_def twoPointers_def)
  have t1: "\<exists>st'. call ?env1 stub_ReturnsError start = Inr st' \<and>
          returned st' = Some (Bool False) \<and>
          mem st' 1 = Some (NSError (Str ''expected error''))"
    using failure_message_channel [where h = spec_helpers and s = summary_ReturnsError
        and qs = "[?q]" and e = ?e and vs = "[Str []]" and msg = "''expected error''"
        and env = ?env1 and st = start and m = False and g = "init spec_helpers (newGen testpkg)"
        and pd = "''_DESCRIPTOR_''" and cd = "''_CALL_ReturnsError_''",
        THEN conjunct2, THEN conjunct2, THEN conjunct1]
      summary_ReturnsError_shape(1,2) summary_ReturnsError_shape(3) [of "[]"] r1 p1
    unfolding stub_ReturnsError_def by auto
  have t2: "\<exists>st'. call ?env2 stub_ReturnsError start = Inr st' \<and>
          returned st' = Some (Bool True) \<and> mem st' = mem start"
    using failure_message_channel [where h = spec_helpers and s = summary_ReturnsError
        and qs = "[?q]" and e = ?e and vs = "[Str ''ok'']" and msg = "[]"
        and env = ?env2 and st = start and m = False and g = "init spec_helpers (newGen testpkg)"
        and pd = "''_DESCRIPTOR_''" and cd = "''_CALL_ReturnsError_''",
        THEN conjunct2, THEN conjunct2, THEN conjunct1]
      summary_ReturnsError_shape(1,2) summary_ReturnsError_shape(3) [of "''ok''"] r2 p2
    unfolding stub_ReturnsError_def by auto
  show ?thesis
    using summary_ReturnsError_shape(1,2) summary_ReturnsError_shape(3) [of "[]"] p1 t1 t2 by (intro conjI) assumption+
qed

text \<open>
  C7 as stated fails: a callee that fails with an error whose message is empty makes
  proxy_ReturnsError write an empty failure message, and the stub reports success and
  stores no error.
\<close>

theorem empty_message_failure_reports_success:
  "snd (emptyError False) \<noteq> None \<and>
   proxy_ReturnsError_run emptyError [] [Bool False] = Some [Str [], Str []] \<and>
   returned (projr (call (goCaller emptyError False twoPointers) stub_ReturnsError start))
     = Some (Bool True) \<and>
   mem (projr (call (goCaller emptyError False twoPointers) stub_ReturnsError start)) 1 = None"
  by (simp add: stub_ReturnsError_eq call_def start_def goCaller_def emptyError_def
      proxy_ReturnsError_run_def ReadBool_def WriteString_def twoPointers_def)


section \<open>The macros of a run\<close>

subsection \<open>Lines that define no macro\<close>

lemma isMacro_define [simp]: "isMacro (n, ''#define '' @ r)"
  by (simp add: isMacro_def)

lemma isMacro_Cons [simp]: "c \<noteq> CHR ''#'' \<Longrightarrow> \<not> isMacro (n, c # r)"
  by (simp add: isMacro_def)

lemma isMacro_empty [simp]: "\<not> isMacro (n, [])"
  by (simp add: isMacro_def)

lemma isMacro_nohash: "nohash t \<Longrightarrow> c \<noteq> CHR ''#'' \<Longrightarrow> \<not> isMacro (n, t @ c # r)"
  by (cases t) (simp_all add: nohash_def)

lemma nohash_append: "nohash t \<Longrightarrow> t \<noteq> [] \<Longrightarrow> nohash (t @ r)"
  by (cases t) (simp_all add: nohash_def)

lemma nohash_Cons [simp]: "nohash (c # r) = (c \<noteq> CHR ''#'')"
  by (simp add: nohash_def)

lemma nohash_Nil [simp]: "nohash []"
  by (simp add: nohash_def)

lemma identChar_facts:
  "identChar c \<Longrightarrow> c \<noteq> CHR '' '' \<and> c \<noteq> CHR 0x0A \<and> c \<noteq> CHR ''\"'' \<and> c \<noteq> CHR 0x5C \<and> c \<noteq> CHR ''#''"
  by (auto simp add: identChar_def Let_def)

lemma goIdentifier_chars:
  "goIdentifier s \<Longrightarrow> CHR '' '' \<notin> set s \<and> CHR 0x0A \<notin> set s \<and> CHR ''\"'' \<notin> set s \<and> CHR 0x5C \<notin> set s"
  using identChar_facts by (cases s) (auto simp add: goIdentifier_def list_all_iff)

lemma goIdentifier_nohash: "goIdentifier s \<Longrightarrow> nohash s"
  using identChar_facts by (cases s) (auto simp add: goIdentifier_def)

lemma objcType_nohash: "nohash (namePrefix g) \<Longrightarrow> namePrefix g \<noteq> [] \<Longrightarrow> nohash (fst (objcType t g))"
proof (induction t arbitrary: g)
  case (Basic k)
  then show ?case by (cases k) (simp_all add: objcType_Basic)
next
  case (Slice e)
  then show ?case by (simp add: objcType_Slice split: prod.splits)
next
  case (Pointer e)
  show ?case
  proof (cases "isNamed e")
    case True
    then obtain p n u where e: "e = Named p n u" by (cases e) (simp_all add: isNamed_def)
    have "nohash (fst (objcType e g))" using Pointer by simp
    moreover have "fst (objcType e g) \<noteq> []" using objcType_nonempty Pointer.prems by simp
    ultimately show ?thesis
      by (cases "objcType (Named p n u) g") (simp add: objcType_Pointer e nohash_append)
  next
    case False
    then show ?thesis by (cases e) (simp_all add: objcType_Pointer isNamed_def)
  qed
next
  case (Named p n u)
  then show ?case
    by (cases u) (auto simp add: objcType_Named nohash_append)
qed (simp_all add: objcType_other)


lemma quiet_simps [simp]:
  "quiet []" "quiet (x # xs) = (\<not> isMacro x \<and> quiet xs)" "quiet (xs @ ys) = (quiet xs \<and> quiet ys)"
  by (auto simp add: quiet_def)

lemma quiet_concat: "quiet (concat xss) = (\<forall>xs \<in> set xss. quiet xs)"
  by (auto simp add: quiet_def)

lemma quiet_filter: "quiet xs \<Longrightarrow> filter isMacro xs = []"
  by (simp add: quiet_def)

lemma stub_param_quiet: "quiet (render n (stub_param h p))"
  by (simp add: stub_param_def Let_def)

lemma stub_retParam_quiet:
  "nohash (namePrefix g) \<Longrightarrow> namePrefix g \<noteq> [] \<Longrightarrow> quiet (concat (map (render n) (stub_retParam h g p)))"
  using objcType_nohash [of g "p_typ p"]
  by (simp add: stub_retParam_def isMacro_nohash)

lemma stub_result_quiet:
  assumes "nohash (namePrefix g)" "namePrefix g \<noteq> []"
    "returnsVal s \<longrightarrow> nohash (p_name (s_retParams s ! 0))"
  shows "quiet (concat (map (render n) (stub_result h g s)))"
proof (cases "returnsVal s")
  case True
  then show ?thesis
    using objcType_nohash [of g "p_typ (s_retParams s ! 0)"] assms
    by (simp add: stub_result_def Let_def isMacro_nohash)
next
  case False
  then show ?thesis
    using stub_retParam_quiet [OF assms(1,2)]
    by (simp add: stub_result_def quiet_concat)
qed

lemma stub_return_quiet: "quiet (concat (map (render n) (stub_return s)))"
  by (simp add: stub_return_def Let_def)

lemma stub_quiet:
  assumes "nohash (namePrefix g)" "namePrefix g \<noteq> []"
    "returnsVal s \<longrightarrow> nohash (p_name (s_retParams s ! 0))"
  shows "quiet (concat (map (render n) (stub h g pd cd s m)))"
  using stub_result_quiet [OF assms] stub_return_quiet [of n s] stub_param_quiet
  by (simp add: stub_def quiet_concat)


lemma prefixed_frame: "frame g' = frame g \<Longrightarrow> prefixed g' = prefixed g"
  by (simp add: prefixed_def frame_def)

lemma prefixed_simps [simp]:
  "prefixed (Printf s g) = prefixed g" "prefixed (Indent g) = prefixed g"
  "prefixed (Outdent g) = prefixed g"
  by (simp_all add: prefixed_def Printf_def Indent_def Outdent_def)

lemma Printf_macros:
  "filter isMacro (out (Printf s g))
     = filter isMacro (out g) @ (if isMacro (indent g, s) then [(indent g, s)] else [])"
  by (simp add: Printf_def)

lemma genFunc_macros:
  assumes "prefixed g" "returnsVal s \<longrightarrow> nohash (p_name (s_retParams s ! 0))"
  shows "filter isMacro (out (genFunc h pd cd s m g)) = filter isMacro (out g)"
proof -
  have "quiet (concat (map (render (indent g)) (stub h g pd cd s m)))"
    using stub_quiet [of g s "indent g" h pd cd m] assms by (simp add: prefixed_def)
  then show ?thesis by (simp add: genFunc_prints_stub quiet_filter)
qed

lemma funcSummary_nohash:
  assumes "funcNamed obj" "prefixed g" "funcSummary h obj g = (Some s, g1)"
  shows "nohash (s_ret s) \<and> (returnsVal s \<longrightarrow> nohash (p_name (s_retParams s ! 0)))"
proof -
  have r: "\<forall>r \<in> set (func_Results obj). nohash (var_Name r)"
    using assms(1) goIdentifier_nohash by (auto simp add: funcNamed_def list_all_iff)
  have t: "\<And>t. nohash (fst (objcType t g))"
    using objcType_nohash assms(2) by (simp add: prefixed_def)
  show ?thesis
  proof (cases "length (func_Results obj) = 1")
    case True
    then have "func_Results obj ! 0 \<in> set (func_Results obj)" by simp
    then have "nohash (var_Name (func_Results obj ! 0))" using r by blast
    then show ?thesis
      using assms(3) True t [of "var_Type (func_Results obj ! 0)"]
      by (auto simp add: funcSummary_def Let_def returnsVal_def split: if_splits prod.splits)
  next
    case False
    then show ?thesis
      using assms(3)
      by (auto simp add: funcSummary_def Let_def returnsVal_def split: if_splits prod.splits)
  qed
qed

lemma asFunc_sig: "\<exists>r. fst (asFunc s g) = s_ret s @ CHR '' '' # r"
  by (simp add: asFunc_def case_prod_beta)

lemma genFuncM_macros:
  assumes "funcNamed obj" "prefixed g"
  shows "filter isMacro (out (genFuncM h obj g)) = filter isMacro (out g)"
proof (cases "fst (funcSummary h obj g)")
  case None
  then show ?thesis
    using funcSummary_out [of h obj g]
    by (cases "funcSummary h obj g") (simp add: genFuncM_def)
next
  case (Some s)
  obtain g1 where 1: "funcSummary h obj g = (Some s, g1)"
    using Some by (cases "funcSummary h obj g") simp
  have f1: "frame g1 = frame g" "out g1 = out g"
    using funcSummary_frame_out [of h obj g] 1 by simp_all
  obtain sig g2 where 2: "asFunc s g1 = (sig, g2)" by (cases "asFunc s g1")
  have f2: "frame g2 = frame g1" "out g2 = out g1"
    using asFunc_frame_out [of s g1] 2 by simp_all
  have n: "nohash (s_ret s)" "returnsVal s \<longrightarrow> nohash (p_name (s_retParams s ! 0))"
    using funcSummary_nohash [OF assms 1] by simp_all
  obtain r where sig: "sig = s_ret s @ CHR '' '' # r" using asFunc_sig [of s g1] 2 by auto
  have q: "\<not> isMacro (indent g2, sig @ '' {\<newline>'')"
    using n(1) isMacro_nohash [of "s_ret s" "CHR '' ''"] by (simp add: sig)
  have p: "prefixed (Indent (Printf (sig @ '' {\<newline>'') g2))"
    using assms(2) prefixed_frame [of g2 g] f1 f2 by simp
  have "genFuncM h obj g
      = Printf ''}\<newline>'' (Outdent (genFunc h ''_DESCRIPTOR_'' (''_CALL_'' @ s_name s @ ''_'') s False
          (Indent (Printf (sig @ '' {\<newline>'') g2))))"
    by (simp add: genFuncM_def 1 2 Let_def)
  then show ?thesis
    using genFunc_macros [OF p n(2)] q f1 f2
    by (simp add: Printf_macros Outdent_def Indent_def)
qed

lemma genM_funcs_macros:
  assumes "list_all funcNamed fs" "prefixed g"
  shows "filter isMacro (out (fold (\<lambda>obj g. Printf ''\<newline>'' (genFuncM h obj g)) fs g))
         = filter isMacro (out g)"
  using assms
proof (induction fs arbitrary: g)
  case Nil
  show ?case by simp
next
  case (Cons f fs)
  have "prefixed (Printf ''\<newline>'' (genFuncM h f g))"
    using Cons.prems(2) prefixed_frame [of "genFuncM h f g" g] by simp
  then show ?case
    using Cons.IH [of "Printf ''\<newline>'' (genFuncM h f g)"] Cons.prems genFuncM_macros [of f g h]
    by (simp add: Printf_macros)
qed


lemma prefixed_emitters [simp]:
  "prefixed (snd (objcType t g)) = prefixed g"
  "prefixed (snd (asMethod s g)) = prefixed g"
  "prefixed (snd (funcSummary h obj g)) = prefixed g"
  "prefixed (genFunc h pd cd s m g) = prefixed g"
proof -
  show "prefixed (snd (objcType t g)) = prefixed g"
    using objcType_frame_out [of t g] by (intro prefixed_frame) simp
  show "prefixed (snd (asMethod s g)) = prefixed g"
    using asMethod_frame_out [of s g] by (intro prefixed_frame) simp
  show "prefixed (snd (funcSummary h obj g)) = prefixed g"
    using funcSummary_frame_out [of h obj g] by (intro prefixed_frame) simp
  show "prefixed (genFunc h pd cd s m g) = prefixed g"
    by (intro prefixed_frame) simp
qed

lemma block_macros:
  assumes "prefixed g" "returnsVal s \<longrightarrow> nohash (p_name (s_retParams s ! 0))"
    "\<not> isMacro (indent g, hdr)" "\<not> isMacro (indent g, ft)"
  shows "filter isMacro (out (Printf ft (Outdent (genFunc h pd cd s m (Indent (Printf hdr g))))))
         = filter isMacro (out g)"
proof -
  have p: "prefixed (Indent (Printf hdr g))" using assms(1) by simp
  have i: "indent (Outdent (genFunc h pd cd s m (Indent (Printf hdr g)))) = indent g"
    using frame_fields(1) [OF genFunc_frame [of h pd cd s m "Indent (Printf hdr g)"]]
    by (simp add: Outdent_def Indent_def Printf_def)
  have m: "\<not> isMacro (indent (Outdent (genFunc h pd cd s m (Indent (Printf hdr g)))), ft)"
    using assms(4) by (simp add: isMacro_def)
  show ?thesis
    using genFunc_macros [OF p assms(2), of h pd cd m] assms(3) m
    by (simp add: Printf_macros Outdent_def Indent_def)
qed

lemma genStructM_field_macros:
  assumes "prefixed g"
  shows "filter isMacro (out (genStructM_field h d f g)) = filter isMacro (out g)"
proof -
  obtain r g1 where 1: "objcType (var_Type f) g = (r, g1)" by (cases "objcType (var_Type f) g")
  let ?s1 = "\<lparr>s_name = var_Name f, s_ret = r, s_params = [],
               s_retParams = [\<lparr>p_typ = var_Type f, p_name = ''ret_''\<rparr>]\<rparr>"
  obtain sig1 g2 where 2: "asMethod ?s1 g1 = (sig1, g2)" by (cases "asMethod ?s1 g1")
  define gA where "gA = Printf ''}\<newline>\<newline>'' (Outdent (genFunc h (d @ ''_DESCRIPTOR_'')
                (d @ ''_FIELD_'' @ var_Name f @ ''_GET_'') ?s1 True
                (Indent (Printf (''- '' @ sig1 @ '' {\<newline>'') g2))))"
  let ?s2 = "\<lparr>s_name = ''set'' @ var_Name f, s_ret = ''void'',
               s_params = [\<lparr>p_typ = var_Type f, p_name = ''v''\<rparr>], s_retParams = []\<rparr>"
  obtain sig2 g3 where 3: "asMethod ?s2 gA = (sig2, g3)" by (cases "asMethod ?s2 gA")
  have e: "genStructM_field h d f g
      = Printf ''}\<newline>\<newline>'' (Outdent (genFunc h (d @ ''_DESCRIPTOR_'')
                (d @ ''_FIELD_'' @ var_Name f @ ''_SET_'') ?s2 True
                (Indent (Printf (''- '' @ sig2 @ '' {\<newline>'') g3))))"
    using 3 [unfolded gA_def] by (simp add: genStructM_field_def 1 2 Let_def)
  have o1: "out g1 = out g" "prefixed g1"
    using objcType_frame_out [of "var_Type f" g] prefixed_emitters(1) [of "var_Type f" g] 1 assms
    by simp_all
  have o2: "out g2 = out g1" "prefixed g2"
    using asMethod_frame_out [of ?s1 g1] prefixed_emitters(2) [of ?s1 g1] 2 o1 by simp_all
  have a: "filter isMacro (out gA) = filter isMacro (out g2)"
    unfolding gA_def by (rule block_macros) (simp_all add: o2 returnsVal_def)
  have pa: "prefixed gA" using o2 by (simp add: gA_def)
  have "g3 = snd (asMethod ?s2 gA)" using 3 by simp
  then have o3: "out g3 = out gA" "prefixed g3"
    using pa by (simp_all add: asMethod_frame_out)
  have b: "filter isMacro (out (genStructM_field h d f g)) = filter isMacro (out g3)"
    unfolding e by (rule block_macros) (simp_all add: o3 returnsVal_def)
  show ?thesis using a b o1 o2 o3 by simp
qed

lemma genStructM_method_macros:
  assumes "prefixed g" "funcNamed m" "genStructM_method h d m g = Inr g'"
  shows "filter isMacro (out g') = filter isMacro (out g)"
proof -
  obtain s g1 where 1: "funcSummary h m g = (Some s, g1)"
    using assms(3) by (cases "funcSummary h m g") (auto simp add: genStructM_method_def split: option.splits)
  obtain sig g2 where 2: "asMethod s g1 = (sig, g2)" by (cases "asMethod s g1")
  have e: "g' = Printf ''}\<newline>\<newline>'' (Outdent (genFunc h (d @ ''_DESCRIPTOR_'')
                (d @ ''_'' @ func_Name m @ ''_'') s True
                (Indent (Printf (''- '' @ sig @ '' {\<newline>'') g2))))"
    using assms(3) by (simp add: genStructM_method_def 1 2 Let_def)
  have o1: "out g1 = out g" "prefixed g1"
    using funcSummary_frame_out [of h m g] prefixed_emitters(3) [of h m g] 1 assms(1) by simp_all
  have o2: "out g2 = out g1" "prefixed g2"
    using asMethod_frame_out [of s g1] prefixed_emitters(2) [of s g1] 2 o1 by simp_all
  have n: "returnsVal s \<longrightarrow> nohash (p_name (s_retParams s ! 0))"
    using funcSummary_nohash [OF assms(2,1) 1] by simp
  have "filter isMacro (out g') = filter isMacro (out g2)"
    unfolding e by (rule block_macros) (simp_all add: o2 n)
  then show ?thesis using o1 o2 by simp
qed

lemma genStructM_fields_macros:
  "prefixed g \<Longrightarrow> filter isMacro (out (fold (genStructM_field h d) fs g)) = filter isMacro (out g)"
proof (induction fs arbitrary: g)
  case Nil
  show ?case by simp
next
  case (Cons f fs)
  have "prefixed (genStructM_field h d f g)"
    using Cons.prems prefixed_frame [OF genStructM_field_frame] by simp
  then show ?case using Cons.IH Cons.prems genStructM_field_macros by simp
qed

lemma genStructM_methods_macros:
  "prefixed g \<Longrightarrow> list_all funcNamed ms \<Longrightarrow> foldP (genStructM_method h d) ms g = Inr g' \<Longrightarrow>
     filter isMacro (out g') = filter isMacro (out g)"
proof (induction ms arbitrary: g)
  case Nil
  then show ?case by simp
next
  case (Cons m ms)
  from Cons.prems(3) obtain g1 where 1: "genStructM_method h d m g = Inr g1"
      "foldP (genStructM_method h d) ms g1 = Inr g'"
    by (auto split: sum.splits)
  have "prefixed g1" using Cons.prems(1) prefixed_frame [OF genStructM_method_frame [OF 1(1)]] by simp
  then show ?case
    using Cons.IH [OF _ _ 1(2)] Cons.prems(1,2) genStructM_method_macros [OF _ _ 1(1)] by simp
qed


lemma filter_all: "\<forall>x \<in> set xs. P x \<Longrightarrow> filter P xs = xs"
  by (induction xs) simp_all

lemma genStructM_macros:
  assumes "prefixed g" "list_all funcNamed (exportedMethodSet obj)" "genStructM h obj g = Inr g'"
  shows "filter isMacro (out g') = filter isMacro (out g) @
     [(indent g, ''#define '' @ structDesc g obj @ ''_DESCRIPTOR_ \"go.'' @ pkgName g @ ''.''
                 @ tn_Name obj @ ''\"\<newline>'')] @
     concat (map (\<lambda>(i, f).
       [(indent g, ''#define '' @ structDesc g obj @ ''_FIELD_'' @ var_Name f @ ''_GET_ (0x'' @ fmt_x i @ ''0f)\<newline>''),
        (indent g, ''#define '' @ structDesc g obj @ ''_FIELD_'' @ var_Name f @ ''_SET_ (0x'' @ fmt_x i @ ''1f)\<newline>'')])
       (enumerate 0 (exportedFields obj))) @
     map (\<lambda>(k, m).
       (indent g, ''#define '' @ structDesc g obj @ ''_'' @ func_Name m @ ''_ (0x'' @ fmt_x k @ ''0c)\<newline>''))
       (enumerate 0 (exportedMethodSet obj))"
proof -
  let ?d = "structDesc g obj"
  let ?F = "concat (map (\<lambda>(i, f).
       [(indent g, ''#define '' @ ?d @ ''_FIELD_'' @ var_Name f @ ''_GET_ (0x'' @ fmt_x i @ ''0f)\<newline>''),
        (indent g, ''#define '' @ ?d @ ''_FIELD_'' @ var_Name f @ ''_SET_ (0x'' @ fmt_x i @ ''1f)\<newline>'')])
       (enumerate 0 (exportedFields obj)))"
  let ?M = "map (\<lambda>(k, m).
       (indent g, ''#define '' @ ?d @ ''_'' @ func_Name m @ ''_ (0x'' @ fmt_x k @ ''0c)\<newline>''))
       (enumerate 0 (exportedMethodSet obj))"
  define g1 where "g1 = fold (genStructM_methodCode ?d) (enumerate 0 (exportedMethodSet obj))
            (fold (genStructM_fieldCodes ?d) (enumerate 0 (exportedFields obj))
               (Printf (''#define '' @ ?d @ ''_DESCRIPTOR_ \"go.'' @ pkgName g @ ''.''
                        @ tn_Name obj @ ''\"\<newline>'') g))"
  define mid where "mid = (\<lambda>g0 :: objcGen.
         let g = Printf ''\<newline>'' g0;
          g = Printf (''@implementation '' @ namePrefix g @ tn_Name obj @ '' {\<newline>'') g;
          g = Printf ''}\<newline>\<newline>'' g;
          g = Printf ''- (id)initWithRef:(id)ref {\<newline>'' g;
          g = Indent g;
          g = Printf ''self = [super init];\<newline>'' g;
          g = Printf ''if (self) { _ref = ref; }\<newline>'' g;
          g = Printf ''return self;\<newline>'' g;
          g = Outdent g
         in Printf ''}\<newline>\<newline>'' g)"
  have m1: "\<And>g0. filter isMacro (out (mid g0)) = filter isMacro (out g0)"
    by (simp add: mid_def Let_def)
  have m2: "\<And>g0. frame (mid g0) = frame g0"
    by (simp add: mid_def Let_def frame_def)
  have f1: "frame g1 = frame g" by (simp add: g1_def frame_def)
  from assms(3) obtain g3 where
    3: "foldP (genStructM_method h ?d) (exportedMethodSet obj)
       (fold (genStructM_field h ?d) (exportedFields obj) (mid g1)) = Inr g3"
    and e: "g' = Printf ''@end\<newline>'' g3"
    by (auto simp add: genStructM_def Let_def mid_def g1_def split: sum.splits)
  have p1: "prefixed (mid g1)" using assms(1) prefixed_frame [of "mid g1" g] m2 f1 by simp
  let ?g2 = "fold (genStructM_field h ?d) (exportedFields obj) (mid g1)"
  have a: "filter isMacro (out ?g2) = filter isMacro (out g1)"
    using genStructM_fields_macros [OF p1] m1 by simp
  have "frame ?g2 = frame (mid g1)" by (rule fold_frame) simp
  then have p2: "prefixed ?g2" using p1 prefixed_frame by blast
  have b: "filter isMacro (out g3) = filter isMacro (out g1)"
    using genStructM_methods_macros [OF p2 assms(2) 3] a by simp
  have o: "out g1 = out g @
     [(indent g, ''#define '' @ ?d @ ''_DESCRIPTOR_ \"go.'' @ pkgName g @ ''.''
                 @ tn_Name obj @ ''\"\<newline>'')] @ ?F @ ?M"
    by (simp add: g1_def genStructM_methodCodes_out genStructM_fieldCodes_out)
  have F: "filter isMacro ?F = ?F" by (rule filter_all) (auto simp add: isMacro_def)
  have M: "filter isMacro ?M = ?M" by (rule filter_all) (auto simp add: isMacro_def)
  have D: "filter isMacro [(indent g, ''#define '' @ ?d @ ''_DESCRIPTOR_ \"go.'' @ pkgName g @ ''.''
                 @ tn_Name obj @ ''\"\<newline>'')]
           = [(indent g, ''#define '' @ ?d @ ''_DESCRIPTOR_ \"go.'' @ pkgName g @ ''.''
                 @ tn_Name obj @ ''\"\<newline>'')]"
    by (rule filter_all) (simp add: isMacro_def)
  have "filter isMacro (out g1) = filter isMacro (out g) @
     [(indent g, ''#define '' @ ?d @ ''_DESCRIPTOR_ \"go.'' @ pkgName g @ ''.''
                 @ tn_Name obj @ ''\"\<newline>'')] @ ?F @ ?M"
    by (simp only: o filter_append F M D)
  then show ?thesis using b e by (simp add: Printf_macros)
qed


subsection \<open>Reading a macro\<close>

lemma read_macro_line:
  assumes "CHR '' '' \<notin> set name" "CHR 0x0A \<notin> set body"
  shows "read_macro (''#define '' @ name @ '' '' @ body @ CHR 0x0A # t)
         = map_option (Pair name) (macro_value_of body)"
proof -
  have 1: "takeWhile (\<lambda>c. c \<noteq> CHR '' '') (name @ CHR '' '' # body @ CHR 0x0A # t) = name"
    using assms(1) by (induction name) auto
  have 2: "takeWhile (\<lambda>c. c \<noteq> CHR 0x0A) (body @ CHR 0x0A # t) = body"
    using assms(2) by (induction body) auto
  show ?thesis by (simp add: read_macro_def 1 2 Let_def)
qed

lemma fmt_base_set: "2 \<le> b \<Longrightarrow> b \<le> 16 \<Longrightarrow> set (fmt_base b n) \<subseteq> set digit_chars"
proof (induction b n rule: fmt_base.induct)
  case (1 b n)
  show ?case
  proof (cases "n < b")
    case True
    then show ?thesis using 1(3) by (subst fmt_base.simps) (simp add: digit_chars_facts)
  next
    case False
    have f: "fmt_base b n = fmt_base b (n div b) @ [digit_chars ! (n mod b)]"
      using False 1(2) by (subst fmt_base.simps) simp
    have "n mod b < b" using 1(2) by simp
    then have "n mod b < length digit_chars" using 1(3) by (simp add: digit_chars_facts)
    then show ?thesis using 1(1) [OF _ 1(2,3)] False 1(2) by (simp add: f)
  qed
qed

lemma digits_plain:
  "c \<in> set digit_chars \<Longrightarrow> c \<noteq> CHR 0x0A \<and> c \<noteq> CHR ''\"'' \<and> c \<noteq> CHR '' ''"
  by (auto simp add: digit_chars_def)

lemma value_fmt_q: "macro_value_of (fmt_q s) = Some (Descriptor s)"
proof -
  have "take 1 (fmt_q s) = ''\"''" by (simp add: fmt_q_def)
  then show ?thesis by (simp add: macro_value_of_def c_string_literal_fmt_q)
qed

lemma value_fmt_d: "macro_value_of (fmt_d n) = Some (Code n)"
proof -
  have h: "hd (fmt_d n) \<in> set digit_chars" unfolding fmt_d_def by (rule fmt_base_hd) simp_all
  have ne: "fmt_d n \<noteq> []" by (simp add: fmt_d_def fmt_base_nonempty)
  have "take 1 (fmt_d n) \<noteq> ''\"''"
    using h ne digits_plain [of "hd (fmt_d n)"] by (cases "fmt_d n") auto
  then show ?thesis by (simp add: macro_value_of_def c_int_literal_fmt_d)
qed

lemma value_codes:
  "macro_value_of (''(0x'' @ fmt_x i @ ''0f)'') = Some (Code (push_bit 8 i OR 0x0f))"
  "macro_value_of (''(0x'' @ fmt_x i @ ''1f)'') = Some (Code (push_bit 8 i OR 0x1f))"
  "macro_value_of (''(0x'' @ fmt_x i @ ''0c)'') = Some (Code (push_bit 8 i OR 0x0c))"
proof -
  have t: "\<And>r. take 1 (''(0x'' @ r) \<noteq> ''\"''" by simp
  show "macro_value_of (''(0x'' @ fmt_x i @ ''0f)'') = Some (Code (push_bit 8 i OR 0x0f))"
    using or_low_bits [of 15 i] t [of "fmt_x i @ ''0f)''"]
    by (simp only: macro_value_of_def code_value_get if_False) simp
  show "macro_value_of (''(0x'' @ fmt_x i @ ''1f)'') = Some (Code (push_bit 8 i OR 0x1f))"
    using or_low_bits [of 31 i] t [of "fmt_x i @ ''1f)''"]
    by (simp only: macro_value_of_def code_value_set if_False) simp
  show "macro_value_of (''(0x'' @ fmt_x i @ ''0c)'') = Some (Code (push_bit 8 i OR 0x0c))"
    using or_low_bits [of 12 i] t [of "fmt_x i @ ''0c)''"]
    by (simp only: macro_value_of_def code_value_method if_False) simp
qed

lemma value_quoted:
  assumes "CHR ''\"'' \<notin> set s" "CHR 0x5C \<notin> set s"
  shows "macro_value_of (''\"'' @ s @ ''\"'') = Some (Descriptor s)"
  using c_unescape_plain [OF assms] by (simp add: macro_value_of_def c_string_literal_def)

lemma fmt_q_set: "set (fmt_q s) \<subseteq> set s \<union> {CHR ''\"'', CHR 0x5C}"
  by (auto simp add: fmt_q_def split: if_splits)


lemma read_package_descriptor:
  assumes "goIdentifier pn"
  shows "read_macro (''#define _DESCRIPTOR_ '' @ fmt_q pn @ ''\<newline>\<newline>'')
         = Some (''_DESCRIPTOR_'', Descriptor pn)"
proof -
  have "CHR 0x0A \<notin> set (fmt_q pn)"
    using fmt_q_set [of pn] goIdentifier_chars [OF assms] by auto
  then show ?thesis
    using read_macro_line [of "''_DESCRIPTOR_''" "fmt_q pn" "''\<newline>''"]
    by (simp add: value_fmt_q)
qed

lemma read_call_code:
  assumes "goIdentifier f"
  shows "read_macro (''#define _CALL_'' @ f @ ''_ '' @ fmt_d (i + 1) @ ''\<newline>'')
         = Some (''_CALL_'' @ f @ ''_'', Code (i + 1))"
proof -
  have "CHR 0x0A \<notin> set (fmt_d (i + 1))"
    using fmt_base_set [of 10 "i + 1"] digits_plain by (auto simp add: fmt_d_def)
  moreover have "CHR '' '' \<notin> set (''_CALL_'' @ f @ ''_'')"
    using goIdentifier_chars [OF assms] by simp
  ultimately show ?thesis
    using read_macro_line [of "''_CALL_'' @ f @ ''_''" "fmt_d (i + 1)" "[]"]
    by (simp add: value_fmt_d)
qed

lemma fmt_x_plain: "CHR 0x0A \<notin> set (fmt_x i)"
  using fmt_base_set [of 16 i] digits_plain by (auto simp add: fmt_x_def)

lemma read_struct_descriptor:
  assumes "goIdentifier pn" "goIdentifier t"
  shows "read_macro (''#define '' @ (''_GO_'' @ pn @ ''_'' @ t) @ ''_DESCRIPTOR_ \"go.'' @ pn @ ''.'' @ t
                     @ ''\"\<newline>'')
         = Some (''_GO_'' @ pn @ ''_'' @ t @ ''_DESCRIPTOR_'', Descriptor (''go.'' @ pn @ ''.'' @ t))"
proof -
  have a: "CHR '' '' \<notin> set (''_GO_'' @ pn @ ''_'' @ t @ ''_DESCRIPTOR_'')"
    using goIdentifier_chars [OF assms(1)] goIdentifier_chars [OF assms(2)] by simp
  have b: "CHR 0x0A \<notin> set (''\"'' @ (''go.'' @ pn @ ''.'' @ t) @ ''\"'')"
    using goIdentifier_chars [OF assms(1)] goIdentifier_chars [OF assms(2)] by simp
  have c: "macro_value_of (''\"'' @ (''go.'' @ pn @ ''.'' @ t) @ ''\"'')
           = Some (Descriptor (''go.'' @ pn @ ''.'' @ t))"
    using goIdentifier_chars [OF assms(1)] goIdentifier_chars [OF assms(2)]
    by (intro value_quoted) simp_all
  show ?thesis
    using read_macro_line [OF a b, of "[]"] c by simp
qed

lemma read_field_codes:
  assumes "goIdentifier pn" "goIdentifier t" "goIdentifier f"
  shows "read_macro (''#define '' @ (''_GO_'' @ pn @ ''_'' @ t) @ ''_FIELD_'' @ f @ ''_GET_ (0x'' @ fmt_x i
                     @ ''0f)\<newline>'')
         = Some (''_GO_'' @ pn @ ''_'' @ t @ ''_FIELD_'' @ f @ ''_GET_'', Code (push_bit 8 i OR 0x0f))"
    and "read_macro (''#define '' @ (''_GO_'' @ pn @ ''_'' @ t) @ ''_FIELD_'' @ f @ ''_SET_ (0x'' @ fmt_x i
                     @ ''1f)\<newline>'')
         = Some (''_GO_'' @ pn @ ''_'' @ t @ ''_FIELD_'' @ f @ ''_SET_'', Code (push_bit 8 i OR 0x1f))"
proof -
  have a: "CHR '' '' \<notin> set (''_GO_'' @ pn @ ''_'' @ t @ ''_FIELD_'' @ f @ ''_GET_'')"
          "CHR '' '' \<notin> set (''_GO_'' @ pn @ ''_'' @ t @ ''_FIELD_'' @ f @ ''_SET_'')"
    using goIdentifier_chars [OF assms(1)] goIdentifier_chars [OF assms(2)]
      goIdentifier_chars [OF assms(3)] by simp_all
  have b: "CHR 0x0A \<notin> set (''(0x'' @ fmt_x i @ ''0f)'')" "CHR 0x0A \<notin> set (''(0x'' @ fmt_x i @ ''1f)'')"
    using fmt_x_plain [of i] by simp_all
  show "read_macro (''#define '' @ (''_GO_'' @ pn @ ''_'' @ t) @ ''_FIELD_'' @ f @ ''_GET_ (0x'' @ fmt_x i
                     @ ''0f)\<newline>'')
         = Some (''_GO_'' @ pn @ ''_'' @ t @ ''_FIELD_'' @ f @ ''_GET_'', Code (push_bit 8 i OR 0x0f))"
    using read_macro_line [OF a(1) b(1), of "[]"] value_codes(1) [of i] by simp
  show "read_macro (''#define '' @ (''_GO_'' @ pn @ ''_'' @ t) @ ''_FIELD_'' @ f @ ''_SET_ (0x'' @ fmt_x i
                     @ ''1f)\<newline>'')
         = Some (''_GO_'' @ pn @ ''_'' @ t @ ''_FIELD_'' @ f @ ''_SET_'', Code (push_bit 8 i OR 0x1f))"
    using read_macro_line [OF a(2) b(2), of "[]"] value_codes(2) [of i] by simp
qed

lemma read_method_code:
  assumes "goIdentifier pn" "goIdentifier t" "goIdentifier m"
  shows "read_macro (''#define '' @ (''_GO_'' @ pn @ ''_'' @ t) @ ''_'' @ m @ ''_ (0x'' @ fmt_x k
                     @ ''0c)\<newline>'')
         = Some (''_GO_'' @ pn @ ''_'' @ t @ ''_'' @ m @ ''_'', Code (push_bit 8 k OR 0x0c))"
proof -
  have a: "CHR '' '' \<notin> set (''_GO_'' @ pn @ ''_'' @ t @ ''_'' @ m @ ''_'')"
    using goIdentifier_chars [OF assms(1)] goIdentifier_chars [OF assms(2)]
      goIdentifier_chars [OF assms(3)] by simp
  have b: "CHR 0x0A \<notin> set (''(0x'' @ fmt_x k @ ''0c)'')"
    using fmt_x_plain [of k] by simp
  show ?thesis
    using read_macro_line [OF a b, of "[]"] value_codes(3) [of k] by simp
qed


subsection \<open>The macros of a run are the table of the declaration model\<close>

lemma macros_append [simp]: "macros (xs @ ys) = macros xs @ macros ys"
  by (simp add: macros_def)

lemma macros_quiet: "filter isMacro xs = filter isMacro ys \<Longrightarrow> macros xs = macros ys"
  by (simp add: macros_def)

lemma enumerate_map_names: "enumerate n (map f xs) = map (\<lambda>(i, x). (i, f x)) (enumerate n xs)"
  by (induction xs arbitrary: n) simp_all

lemma call_lines_read:
  assumes "list_all funcNamed fs"
  shows "map (\<lambda>l. read_macro (snd l))
           (map (\<lambda>(i, obj). (k, ''#define _CALL_'' @ func_Name obj @ ''_ '' @ fmt_d (i + 1) @ ''\<newline>''))
              (enumerate n fs))
         = map (\<lambda>(s, x, v). Some (x, v))
             (map (\<lambda>(i, f). (FreeFunction f, ''_CALL_'' @ f @ ''_'', Code (i + 1)))
                (enumerate n (map func_Name fs)))"
  using assms
proof (induction fs arbitrary: n)
  case Nil
  show ?case by simp
next
  case (Cons f fs)
  have "goIdentifier (func_Name f)" using Cons.prems by (simp add: funcNamed_def)
  then show ?case
    using Cons.IH [of "Suc n"] Cons.prems read_call_code [of "func_Name f" n] by simp
qed

lemma field_lines_read:
  assumes "goIdentifier pn" "goIdentifier t" "list_all (\<lambda>f. goIdentifier (var_Name f)) fs"
  shows "map (\<lambda>l. read_macro (snd l))
           (concat (map (\<lambda>(i, f).
              [(k, ''#define '' @ (''_GO_'' @ pn @ ''_'' @ t) @ ''_FIELD_'' @ var_Name f @ ''_GET_ (0x''
                     @ fmt_x i @ ''0f)\<newline>''),
               (k, ''#define '' @ (''_GO_'' @ pn @ ''_'' @ t) @ ''_FIELD_'' @ var_Name f @ ''_SET_ (0x''
                     @ fmt_x i @ ''1f)\<newline>'')])
              (enumerate n fs)))
         = map (\<lambda>(s, x, v). Some (x, v))
             (concat (map (\<lambda>(i, f).
                [(FieldGetter t f, ''_GO_'' @ pn @ ''_'' @ t @ ''_FIELD_'' @ f @ ''_GET_'',
                  Code (push_bit 8 i OR 0x0f)),
                 (FieldSetter t f, ''_GO_'' @ pn @ ''_'' @ t @ ''_FIELD_'' @ f @ ''_SET_'',
                  Code (push_bit 8 i OR 0x1f))])
                (enumerate n (map var_Name fs))))"
  using assms(3)
proof (induction fs arbitrary: n)
  case Nil
  show ?case by simp
next
  case (Cons f fs)
  have "goIdentifier (var_Name f)" using Cons.prems by simp
  then show ?case
    using Cons.IH [of "Suc n"] Cons.prems
      read_field_codes [OF assms(1,2), of "var_Name f" n] by simp
qed

lemma method_lines_read:
  assumes "goIdentifier pn" "goIdentifier t" "list_all funcNamed ms"
  shows "map (\<lambda>l. read_macro (snd l))
           (map (\<lambda>(i, m).
              (k, ''#define '' @ (''_GO_'' @ pn @ ''_'' @ t) @ ''_'' @ func_Name m @ ''_ (0x''
                     @ fmt_x i @ ''0c)\<newline>''))
              (enumerate n ms))
         = map (\<lambda>(s, x, v). Some (x, v))
             (map (\<lambda>(i, m). (Method t m, ''_GO_'' @ pn @ ''_'' @ t @ ''_'' @ m @ ''_'',
                              Code (push_bit 8 i OR 0x0c)))
                (enumerate n (map func_Name ms)))"
  using assms(3)
proof (induction ms arbitrary: n)
  case Nil
  show ?case by simp
next
  case (Cons m ms)
  have "goIdentifier (func_Name m)" using Cons.prems by (simp add: funcNamed_def)
  then show ?case
    using Cons.IH [of "Suc n"] Cons.prems
      read_method_code [OF assms(1,2), of "func_Name m" n] by simp
qed


lemma genStructM_reads:
  assumes "prefixed g" "goIdentifier (pkgName g)" "goIdentifier (tn_Name obj)"
    "list_all (\<lambda>f. goIdentifier (var_Name f)) (exportedFields obj)"
    "list_all funcNamed (exportedMethodSet obj)" "genStructM h obj g = Inr g'"
  shows "macros (out g') = macros (out g) @
           map (\<lambda>(s, x, v). Some (x, v))
             (struct_assignment_spec (pkgName g) (tn_Name obj) (map var_Name (exportedFields obj))
                (map func_Name (exportedMethodSet obj)))"
proof -
  let ?pn = "pkgName g" and ?t = "tn_Name obj"
  let ?D = "[(indent g, ''#define '' @ (''_GO_'' @ ?pn @ ''_'' @ ?t) @ ''_DESCRIPTOR_ \"go.'' @ ?pn @ ''.''
                 @ ?t @ ''\"\<newline>'')]"
  let ?F = "concat (map (\<lambda>(i, f).
       [(indent g, ''#define '' @ (''_GO_'' @ ?pn @ ''_'' @ ?t) @ ''_FIELD_'' @ var_Name f @ ''_GET_ (0x''
            @ fmt_x i @ ''0f)\<newline>''),
        (indent g, ''#define '' @ (''_GO_'' @ ?pn @ ''_'' @ ?t) @ ''_FIELD_'' @ var_Name f @ ''_SET_ (0x''
            @ fmt_x i @ ''1f)\<newline>'')])
       (enumerate 0 (exportedFields obj)))"
  let ?M = "map (\<lambda>(k, m).
       (indent g, ''#define '' @ (''_GO_'' @ ?pn @ ''_'' @ ?t) @ ''_'' @ func_Name m @ ''_ (0x''
            @ fmt_x k @ ''0c)\<newline>''))
       (enumerate 0 (exportedMethodSet obj))"
  have 1: "filter isMacro (out g') = filter isMacro (out g) @ ?D @ ?F @ ?M"
    using genStructM_macros [OF assms(1,5,6)] by (simp only: structDesc_def)
  have d: "map (\<lambda>l. read_macro (snd l)) ?D
        = map (\<lambda>(s, x, v). Some (x, v))
            [(StructOf ?t, ''_GO_'' @ ?pn @ ''_'' @ ?t @ ''_DESCRIPTOR_'',
              Descriptor (''go.'' @ ?pn @ ''.'' @ ?t))]"
    using read_struct_descriptor [OF assms(2,3)] by simp
  have "macros (out g') = macros (out g) @ map (\<lambda>l. read_macro (snd l)) (?D @ ?F @ ?M)"
    by (simp add: macros_def 1)
  also have "map (\<lambda>l. read_macro (snd l)) (?D @ ?F @ ?M)
      = map (\<lambda>(s, x, v). Some (x, v))
             (struct_assignment_spec ?pn ?t (map var_Name (exportedFields obj))
                (map func_Name (exportedMethodSet obj)))"
    unfolding struct_assignment_spec_def map_append
    by (simp only: d field_lines_read [OF assms(2,3,4)] method_lines_read [OF assms(2,3,5)])
  finally show ?thesis .
qed

lemma genM_name_reads:
  assumes "prefixed g" "goIdentifier (pkgName g)" "goIdentifier (tn_Name obj)"
    "list_all (\<lambda>f. goIdentifier (var_Name f)) (exportedFields obj)"
    "list_all funcNamed (exportedMethodSet obj)" "genM_name h obj g = Inr g'"
  shows "macros (out g') = macros (out g) @
           map (\<lambda>(s, x, v). Some (x, v)) (type_assignment_spec (pkgName g) (type_decl_of obj))"
proof (cases "isStruct obj")
  case True
  then obtain p n where t: "tn_Type obj = Named p n Struct"
    by (auto simp add: isStruct_def split: gotype.splits)
  then obtain g1 where 1: "genStructM h obj g = Inr g1" "g' = Printf ''\<newline>'' g1"
    using assms(6) by (auto simp add: genM_name_def split: sum.splits)
  have "macros (out g') = macros (out g1)"
    by (rule macros_quiet) (simp add: 1(2) Printf_macros)
  then show ?thesis
    using genStructM_reads [OF assms(1-5) 1(1)] True
    by (simp add: type_assignment_spec_def type_decl_of_def)
next
  case False
  then have "out g' = out g @ [(indent g, ''\<newline>'')]"
    using assms(6)
    by (auto simp add: genM_name_def genInterfaceM_def isStruct_def split: gotype.splits sum.splits)
  then have "macros (out g') = macros (out g)"
    by (intro macros_quiet) simp
  then show ?thesis using False by (simp add: type_assignment_spec_def type_decl_of_def)
qed

lemma genM_names_reads:
  assumes "prefixed g" "goIdentifier (pkgName g)"
    "list_all (\<lambda>t. goIdentifier (tn_Name t) \<and>
                    list_all (\<lambda>f. goIdentifier (var_Name f)) (exportedFields t) \<and>
                    list_all funcNamed (exportedMethodSet t)) ns"
    "foldP (genM_name h) ns g = Inr g'"
  shows "macros (out g') = macros (out g) @
           map (\<lambda>(s, x, v). Some (x, v))
             (concat (map (type_assignment_spec (pkgName g)) (map type_decl_of ns)))"
  using assms
proof (induction ns arbitrary: g)
  case Nil
  then show ?case by simp
next
  case (Cons t ns)
  from Cons.prems(4) obtain g1 where 1: "genM_name h t g = Inr g1" "foldP (genM_name h) ns g1 = Inr g'"
    by (auto split: sum.splits)
  have f: "frame g1 = frame g" using 1(1) by (rule genM_name_frame)
  then have p: "prefixed g1" "pkgName g1 = pkgName g"
    using Cons.prems(1) prefixed_frame [of g1 g] by (simp_all add: frame_def)
  have a: "macros (out g1) = macros (out g) @
           map (\<lambda>(s, x, v). Some (x, v)) (type_assignment_spec (pkgName g) (type_decl_of t))"
    using Cons.prems(3) by (intro genM_name_reads [OF Cons.prems(1,2) _ _ _ 1(1)]) simp_all
  have "macros (out g') = macros (out g1) @
           map (\<lambda>(s, x, v). Some (x, v))
             (concat (map (type_assignment_spec (pkgName g1)) (map type_decl_of ns)))"
    using Cons.prems(2,3) p by (intro Cons.IH [OF _ _ _ 1(2)]) simp_all
  then show ?case using a p by simp
qed


lemma init_prefixed: "prefixed (fresh (init h g))"
  by (simp add: prefixed_def)

lemma emitted_parts:
  assumes "emitted h g = Inr E"
  shows "\<exists>g2. foldP (genM_name h) (exportedNames (pkg g)) (genM_head (fresh (init h g))) = Inr g2 \<and>
           E = out (fold (\<lambda>obj g. Printf ''\<newline>'' (genFuncM h obj g)) (exportedFuncs (pkg g)) g2)"
proof -
  obtain r g' where g': "genM h (fresh g) = Inr (r, g')" "out g' = E"
    using emitted_Inr [OF assms] by blast
  from g'(1) obtain g2 where
    a: "foldP (genM_name h) (exportedNames (pkg g)) (genM_head (fresh (init h g))) = Inr g2"
    and b: "g' = fold (\<lambda>obj g. Printf ''\<newline>'' (genFuncM h obj g)) (funcs g2) g2"
    by (auto simp add: genM_unfold Let_def init_fresh split: sum.splits)
  have "frame g2 = frame (genM_head (fresh (init h g)))" using a by (rule genM_names_frame)
  then have "funcs g2 = exportedFuncs (pkg g)" by (simp add: frame_def)
  then show ?thesis using a b g'(2) by auto
qed

lemma genM_head_reads:
  assumes "goIdentifier (pkgName g)" "list_all funcNamed (funcs g)" "out g = []"
  shows "macros (out (genM_head g))
         = map (\<lambda>(s, x, v). Some (x, v))
             ([(PackageOf (pkgName g), ''_DESCRIPTOR_'', Descriptor (pkgName g))] @
              map (\<lambda>(i, f). (FreeFunction f, ''_CALL_'' @ f @ ''_'', Code (i + 1)))
                (enumerate 0 (map func_Name (funcs g))))"
proof -
  let ?C = "map (\<lambda>(i, obj). (indent g,
        ''#define _CALL_'' @ func_Name obj @ ''_ '' @ fmt_d (i + 1) @ ''\<newline>''))
       (enumerate 0 (funcs g))"
  have c: "filter isMacro ?C = ?C" by (rule filter_all) (auto simp add: isMacro_def)
  have "filter isMacro (out (genM_head g))
        = (indent g, ''#define _DESCRIPTOR_ '' @ fmt_q (pkgName g) @ ''\<newline>\<newline>'') # ?C"
    using c by (simp add: genM_head_out assms(3) objcPreamble_def isMacro_def)
  then have "macros (out (genM_head g))
        = read_macro (''#define _DESCRIPTOR_ '' @ fmt_q (pkgName g) @ ''\<newline>\<newline>'')
          # map (\<lambda>l. read_macro (snd l)) ?C"
    by (simp add: macros_def)
  then show ?thesis
    by (simp only: read_package_descriptor [OF assms(1)] call_lines_read [OF assms(2)]) simp
qed

lemma emitted_reads:
  assumes "emitted h g = Inr E" "wellNamed (pkg g)"
  shows "macros E = map (\<lambda>(s, x, v). Some (x, v)) (assignment_spec (declaration_model_of (pkg g)))"
proof -
  let ?g0 = "fresh (init h g)"
  obtain g2 where a: "foldP (genM_name h) (exportedNames (pkg g)) (genM_head ?g0) = Inr g2"
    and E: "E = out (fold (\<lambda>obj g. Printf ''\<newline>'' (genFuncM h obj g)) (exportedFuncs (pkg g)) g2)"
    using emitted_parts [OF assms(1)] by blast
  have w: "goIdentifier (pkg_Name (pkg g))" "list_all funcNamed (exportedFuncs (pkg g))"
    "list_all (\<lambda>t. goIdentifier (tn_Name t) \<and>
                    list_all (\<lambda>f. goIdentifier (var_Name f)) (exportedFields t) \<and>
                    list_all funcNamed (exportedMethodSet t)) (exportedNames (pkg g))"
    using assms(2) by (simp_all add: wellNamed_def)
  have fh: "frame (genM_head ?g0) = frame ?g0" by simp
  have ph: "prefixed (genM_head ?g0)" "pkgName (genM_head ?g0) = pkg_Name (pkg g)"
    using prefixed_frame [OF fh] init_prefixed [of h g] frame_fields(3) [OF fh] by simp_all
  have f2: "frame g2 = frame (genM_head ?g0)" using a by (rule genM_names_frame)
  have p2: "prefixed g2" using prefixed_frame [OF f2] ph(1) by simp
  have 1: "macros (out (genM_head ?g0))
         = map (\<lambda>(s, x, v). Some (x, v))
             ([(PackageOf (pkg_Name (pkg g)), ''_DESCRIPTOR_'', Descriptor (pkg_Name (pkg g)))] @
              map (\<lambda>(i, f). (FreeFunction f, ''_CALL_'' @ f @ ''_'', Code (i + 1)))
                (enumerate 0 (map func_Name (exportedFuncs (pkg g)))))"
    using genM_head_reads [of ?g0] w by simp
  have 2: "macros (out g2) = macros (out (genM_head ?g0)) @
           map (\<lambda>(s, x, v). Some (x, v))
             (concat (map (type_assignment_spec (pkg_Name (pkg g)))
                (map type_decl_of (exportedNames (pkg g)))))"
    using genM_names_reads [OF ph(1) _ w(3) a] w(1) ph(2) by simp
  have 3: "macros E = macros (out g2)"
    unfolding E by (rule macros_quiet) (rule genM_funcs_macros [OF w(2) p2])
  show ?thesis
    by (simp only: 3 2 1 assignment_spec_def declaration_model_of_def map_append
        declaration_model.simps append_assoc)
qed


lemma emitted_struct_member:
  assumes "emitted h g = Inr E" "t \<in> set (exportedNames (pkg g))" "isStruct t"
    and c: "\<And>g1 g5. frame g1 = frame (fresh (init h g)) \<Longrightarrow> genStructM h t (fresh g1) = Inr g5
              \<Longrightarrow> c \<in> set (out g5)"
  shows "c \<in> set E"
proof -
  let ?g0 = "fresh (init h g)"
  let ?F = "\<lambda>obj g. Printf ''\<newline>'' (genFuncM h obj g)"
  obtain g2 where a: "foldP (genM_name h) (exportedNames (pkg g)) (genM_head ?g0) = Inr g2"
    and E: "E = out (fold ?F (exportedFuncs (pkg g)) g2)"
    using emitted_parts [OF assms(1)] by blast
  obtain p n where t: "tn_Type t = Named p n Struct"
    using assms(3) by (auto simp add: isStruct_def split: gotype.splits)
  have "c \<in> set (out g2)"
  proof (rule foldP_out_member [of "genM_name h", OF genM_name_prepend _ assms(2) a])
    fix x g g' assume "genM_name h x g = Inr g'"
    then show "frame g' = frame g" by (rule genM_name_frame)
  next
    fix g1 g3 assume f: "frame g1 = frame (genM_head ?g0)" and r: "genM_name h t g1 = Inr g3"
    from r obtain g4 where 4: "genStructM h t g1 = Inr g4" "g3 = Printf ''\<newline>'' g4"
      by (auto simp add: genM_name_def t split: sum.splits)
    obtain g5 where 5: "genStructM h t (fresh g1) = Inr g5" "out g4 = out g1 @ out g5"
      using genStructM_fresh [OF 4(1)] by blast
    have "frame g1 = frame ?g0" using f by simp
    then have "c \<in> set (out g5)" using c 5(1) by blast
    then show "c \<in> set (out g3)" using 4(2) 5(2) by simp
  qed
  moreover have "out (fold ?F (exportedFuncs (pkg g)) g2)
      = out g2 @ out (fold ?F (exportedFuncs (pkg g)) (fresh g2))"
    by (rule out_append_fresh) (rule genM_funcs_prepend)
  ultimately show ?thesis using E by simp
qed

lemma emitted_struct_sends:
  assumes "emitted h g = Inr E" "t \<in> set (exportedNames (pkg g))" "isStruct t"
  shows "(\<forall>f \<in> set (exportedFields t).
           (Suc (indent g), send_line (''_GO_'' @ pkg_Name (pkg g) @ ''_'' @ tn_Name t @ ''_DESCRIPTOR_'')
              (''_GO_'' @ pkg_Name (pkg g) @ ''_'' @ tn_Name t @ ''_FIELD_'' @ var_Name f @ ''_GET_''))
             \<in> set E \<and>
           (Suc (indent g), send_line (''_GO_'' @ pkg_Name (pkg g) @ ''_'' @ tn_Name t @ ''_DESCRIPTOR_'')
              (''_GO_'' @ pkg_Name (pkg g) @ ''_'' @ tn_Name t @ ''_FIELD_'' @ var_Name f @ ''_SET_''))
             \<in> set E) \<and>
         (\<forall>m \<in> set (exportedMethodSet t).
           (Suc (indent g), send_line (''_GO_'' @ pkg_Name (pkg g) @ ''_'' @ tn_Name t @ ''_DESCRIPTOR_'')
              (''_GO_'' @ pkg_Name (pkg g) @ ''_'' @ tn_Name t @ ''_'' @ func_Name m @ ''_''))
             \<in> set E)"
proof -
  have s: "\<And>g1 g5. frame g1 = frame (fresh (init h g)) \<Longrightarrow> genStructM h t (fresh g1) = Inr g5 \<Longrightarrow>
     (\<forall>f \<in> set (exportedFields t).
           (Suc (indent g), send_line (''_GO_'' @ pkg_Name (pkg g) @ ''_'' @ tn_Name t @ ''_DESCRIPTOR_'')
              (''_GO_'' @ pkg_Name (pkg g) @ ''_'' @ tn_Name t @ ''_FIELD_'' @ var_Name f @ ''_GET_''))
             \<in> set (out g5) \<and>
           (Suc (indent g), send_line (''_GO_'' @ pkg_Name (pkg g) @ ''_'' @ tn_Name t @ ''_DESCRIPTOR_'')
              (''_GO_'' @ pkg_Name (pkg g) @ ''_'' @ tn_Name t @ ''_FIELD_'' @ var_Name f @ ''_SET_''))
             \<in> set (out g5)) \<and>
         (\<forall>m \<in> set (exportedMethodSet t).
           (Suc (indent g), send_line (''_GO_'' @ pkg_Name (pkg g) @ ''_'' @ tn_Name t @ ''_DESCRIPTOR_'')
              (''_GO_'' @ pkg_Name (pkg g) @ ''_'' @ tn_Name t @ ''_'' @ func_Name m @ ''_''))
             \<in> set (out g5))"
  proof -
    fix g1 g5 assume f: "frame g1 = frame (fresh (init h g))" and r: "genStructM h t (fresh g1) = Inr g5"
    have i: "indent g1 = indent g" "pkgName g1 = pkg_Name (pkg g)"
      using frame_fields(1) [OF f] frame_fields(3) [OF f] by simp_all
    then have d: "structDesc g1 t = ''_GO_'' @ pkg_Name (pkg g) @ ''_'' @ tn_Name t"
      by (simp add: structDesc_def)
    show "(\<forall>f \<in> set (exportedFields t).
           (Suc (indent g), send_line (''_GO_'' @ pkg_Name (pkg g) @ ''_'' @ tn_Name t @ ''_DESCRIPTOR_'')
              (''_GO_'' @ pkg_Name (pkg g) @ ''_'' @ tn_Name t @ ''_FIELD_'' @ var_Name f @ ''_GET_''))
             \<in> set (out g5) \<and>
           (Suc (indent g), send_line (''_GO_'' @ pkg_Name (pkg g) @ ''_'' @ tn_Name t @ ''_DESCRIPTOR_'')
              (''_GO_'' @ pkg_Name (pkg g) @ ''_'' @ tn_Name t @ ''_FIELD_'' @ var_Name f @ ''_SET_''))
             \<in> set (out g5)) \<and>
         (\<forall>m \<in> set (exportedMethodSet t).
           (Suc (indent g), send_line (''_GO_'' @ pkg_Name (pkg g) @ ''_'' @ tn_Name t @ ''_DESCRIPTOR_'')
              (''_GO_'' @ pkg_Name (pkg g) @ ''_'' @ tn_Name t @ ''_'' @ func_Name m @ ''_''))
             \<in> set (out g5))"
      using genStructM_sends [OF r] by (simp only: d i append_assoc)
  qed
  show ?thesis
  proof (intro conjI ballI)
    fix f assume f: "f \<in> set (exportedFields t)"
    show "(Suc (indent g), send_line (''_GO_'' @ pkg_Name (pkg g) @ ''_'' @ tn_Name t @ ''_DESCRIPTOR_'')
              (''_GO_'' @ pkg_Name (pkg g) @ ''_'' @ tn_Name t @ ''_FIELD_'' @ var_Name f @ ''_GET_''))
             \<in> set E"
      using s f by (intro emitted_struct_member [OF assms]) blast
    show "(Suc (indent g), send_line (''_GO_'' @ pkg_Name (pkg g) @ ''_'' @ tn_Name t @ ''_DESCRIPTOR_'')
              (''_GO_'' @ pkg_Name (pkg g) @ ''_'' @ tn_Name t @ ''_FIELD_'' @ var_Name f @ ''_SET_''))
             \<in> set E"
      using s f by (intro emitted_struct_member [OF assms]) blast
  next
    fix m assume m: "m \<in> set (exportedMethodSet t)"
    show "(Suc (indent g), send_line (''_GO_'' @ pkg_Name (pkg g) @ ''_'' @ tn_Name t @ ''_DESCRIPTOR_'')
              (''_GO_'' @ pkg_Name (pkg g) @ ''_'' @ tn_Name t @ ''_'' @ func_Name m @ ''_''))
             \<in> set E"
      using s m by (intro emitted_struct_member [OF assms]) blast
  qed
qed


lemma wellNamed_testpkg: "wellNamed testpkg"
  by (simp add: wellNamed_def exportedFuncs_def exportedNames_def testpkg_def funcNamed_def
      goIdentifier_def identChar_def testpkg_S_def testpkg_Sum_def testpkg_ReturnsError_def
      List.map_filter_def)

lemma wellNamed_small: "wellNamed badpkg" "wellNamed otherpkg"
  by (simp_all add: wellNamed_def exportedFuncs_def exportedNames_def badpkg_def otherpkg_def
      funcNamed_def goIdentifier_def identChar_def List.map_filter_def)

lemma small_models:
  "declaration_model_of badpkg = declaration_model_of otherpkg"
  "assignment_spec (declaration_model_of badpkg)
     = [(PackageOf ''bad'', ''_DESCRIPTOR_'', Descriptor ''bad''),
        (FreeFunction ''Bad'', ''_CALL_Bad_'', Code 1),
        (FreeFunction ''Good'', ''_CALL_Good_'', Code 2)]"
  by (simp_all add: declaration_model_of_def assignment_spec_def exportedFuncs_def exportedNames_def
      badpkg_def otherpkg_def List.map_filter_def)

lemma testpkg_model:
  "assignment_spec (declaration_model_of testpkg)
     = [(PackageOf ''testpkg'', ''_DESCRIPTOR_'', Descriptor ''testpkg''),
        (FreeFunction ''BytesAppend'', ''_CALL_BytesAppend_'', Code 1),
        (FreeFunction ''CallSSum'', ''_CALL_CallSSum_'', Code 2),
        (FreeFunction ''CollectS'', ''_CALL_CollectS_'', Code 3),
        (FreeFunction ''Hello'', ''_CALL_Hello_'', Code 4),
        (FreeFunction ''Hi'', ''_CALL_Hi_'', Code 5),
        (FreeFunction ''Int'', ''_CALL_Int_'', Code 6),
        (FreeFunction ''NewS'', ''_CALL_NewS_'', Code 7),
        (FreeFunction ''ReturnsError'', ''_CALL_ReturnsError_'', Code 8),
        (FreeFunction ''Sum'', ''_CALL_Sum_'', Code 9),
        (StructOf ''S'', ''_GO_testpkg_S_DESCRIPTOR_'', Descriptor ''go.testpkg.S''),
        (FieldGetter ''S'' ''X'', ''_GO_testpkg_S_FIELD_X_GET_'', Code 0x00f),
        (FieldSetter ''S'' ''X'', ''_GO_testpkg_S_FIELD_X_SET_'', Code 0x01f),
        (FieldGetter ''S'' ''Y'', ''_GO_testpkg_S_FIELD_Y_GET_'', Code 0x10f),
        (FieldSetter ''S'' ''Y'', ''_GO_testpkg_S_FIELD_Y_SET_'', Code 0x11f),
        (Method ''S'' ''Sum'', ''_GO_testpkg_S_Sum_'', Code 0x00c),
        (Method ''S'' ''TryTwoStrings'', ''_GO_testpkg_S_TryTwoStrings_'', Code 0x10c)]"
  by (simp add: declaration_model_of_def assignment_spec_def exportedFuncs_def exportedNames_def
      testpkg_def List.map_filter_def testpkg_S_def testpkg_Sum_def testpkg_ReturnsError_def
      type_decl_of_def isStruct_def testpkg_S_type_def type_assignment_spec_def
      struct_assignment_spec_def or_low_bits)


section \<open>The assignment of descriptors and codes\<close>

text \<open>
  C1. Two independent runs of \<open>genM\<close> that reach their end, for well-named packages with
  the same declaration model (the generators, the helpers, the signatures and the import
  paths may differ), define the same macros with the same values, in the same order: the
  macros of each run, read as a C compiler reads them, are exactly the table that the
  declaration model determines. That table holds the descriptor of the package, the code
  i+1 of its i-th function, and for each struct its descriptor, the getter and setter codes
  of its fields and the codes of its methods. The stub of every accepted function, of
  every field and of every method sends under the macros of its descriptor and its code.
  For the same package, helpers and indentation the two texts are equal as a whole,
  whatever the generators held before, and so is the text of a second run on the generator
  that the first run leaves behind.
\<close>

theorem code_assignment_deterministic:
  assumes "emitted h1 g1 = Inr E1" and "emitted h2 g2 = Inr E2"
    and "wellNamed (pkg g1)" and "wellNamed (pkg g2)"
    and "declaration_model_of (pkg g1) = declaration_model_of (pkg g2)"
  shows "macros E1 = map (\<lambda>(s, x, v). Some (x, v)) (assignment_spec (declaration_model_of (pkg g1))) \<and>
         macros E2 = macros E1 \<and>
         (\<forall>f \<in> set (exportedFuncs (pkg g1)). acceptedResults f \<longrightarrow>
            (Suc (indent g1), send_line ''_DESCRIPTOR_'' (''_CALL_'' @ func_Name f @ ''_'')) \<in> set E1) \<and>
         (\<forall>t \<in> set (exportedNames (pkg g1)). isStruct t \<longrightarrow>
            (\<forall>f \<in> set (exportedFields t).
               (Suc (indent g1),
                send_line (''_GO_'' @ pkg_Name (pkg g1) @ ''_'' @ tn_Name t @ ''_DESCRIPTOR_'')
                  (''_GO_'' @ pkg_Name (pkg g1) @ ''_'' @ tn_Name t @ ''_FIELD_'' @ var_Name f @ ''_GET_''))
                 \<in> set E1 \<and>
               (Suc (indent g1),
                send_line (''_GO_'' @ pkg_Name (pkg g1) @ ''_'' @ tn_Name t @ ''_DESCRIPTOR_'')
                  (''_GO_'' @ pkg_Name (pkg g1) @ ''_'' @ tn_Name t @ ''_FIELD_'' @ var_Name f @ ''_SET_''))
                 \<in> set E1) \<and>
            (\<forall>m \<in> set (exportedMethodSet t).
               (Suc (indent g1),
                send_line (''_GO_'' @ pkg_Name (pkg g1) @ ''_'' @ tn_Name t @ ''_DESCRIPTOR_'')
                  (''_GO_'' @ pkg_Name (pkg g1) @ ''_'' @ tn_Name t @ ''_'' @ func_Name m @ ''_''))
                 \<in> set E1)) \<and>
         (h1 = h2 \<and> pkg g1 = pkg g2 \<and> indent g1 = indent g2 \<longrightarrow> E1 = E2) \<and>
         (genM h1 g1 = Inr (r, g') \<longrightarrow> emitted h1 g' = Inr E1)"
proof (intro conjI ballI impI)
  show 1: "macros E1 = map (\<lambda>(s, x, v). Some (x, v)) (assignment_spec (declaration_model_of (pkg g1)))"
    using assms(1,3) by (rule emitted_reads)
  have "macros E2 = map (\<lambda>(s, x, v). Some (x, v)) (assignment_spec (declaration_model_of (pkg g2)))"
    using assms(2,4) by (rule emitted_reads)
  then show "macros E2 = macros E1" using 1 assms(5) by simp
next
  fix f assume "f \<in> set (exportedFuncs (pkg g1))" "acceptedResults f"
  then show "(Suc (indent g1), send_line ''_DESCRIPTOR_'' (''_CALL_'' @ func_Name f @ ''_'')) \<in> set E1"
    using emitted_sends [OF assms(1)] by blast
next
  fix t f assume "t \<in> set (exportedNames (pkg g1))" "isStruct t" "f \<in> set (exportedFields t)"
  then show "(Suc (indent g1),
                send_line (''_GO_'' @ pkg_Name (pkg g1) @ ''_'' @ tn_Name t @ ''_DESCRIPTOR_'')
                  (''_GO_'' @ pkg_Name (pkg g1) @ ''_'' @ tn_Name t @ ''_FIELD_'' @ var_Name f @ ''_GET_''))
                 \<in> set E1"
    and "(Suc (indent g1),
                send_line (''_GO_'' @ pkg_Name (pkg g1) @ ''_'' @ tn_Name t @ ''_DESCRIPTOR_'')
                  (''_GO_'' @ pkg_Name (pkg g1) @ ''_'' @ tn_Name t @ ''_FIELD_'' @ var_Name f @ ''_SET_''))
                 \<in> set E1"
    using emitted_struct_sends [OF assms(1)] by blast+
next
  fix t m assume "t \<in> set (exportedNames (pkg g1))" "isStruct t" "m \<in> set (exportedMethodSet t)"
  then show "(Suc (indent g1),
                send_line (''_GO_'' @ pkg_Name (pkg g1) @ ''_'' @ tn_Name t @ ''_DESCRIPTOR_'')
                  (''_GO_'' @ pkg_Name (pkg g1) @ ''_'' @ tn_Name t @ ''_'' @ func_Name m @ ''_''))
                 \<in> set E1"
    using emitted_struct_sends [OF assms(1)] by blast
next
  assume "h1 = h2 \<and> pkg g1 = pkg g2 \<and> indent g1 = indent g2"
  then have "emitted h1 g1 = emitted h2 g2"
    using emitted_depends_on_package [of g1 g2 h1] by blast
  then show "E1 = E2" using assms(1,2) by simp
next
  assume "genM h1 g1 = Inr (r, g')"
  then have "frame g' = frame (init h1 g1)" by (rule genM_frame)
  then have "pkg g' = pkg g1" "indent g' = indent g1" by (simp_all add: frame_def)
  then have "emitted h1 g' = emitted h1 g1" by (rule emitted_depends_on_package)
  then show "emitted h1 g' = Inr E1" using assms(1) by simp
qed


lemma small_generable:
  "list_all generable (exportedNames badpkg)" "list_all generable (exportedNames otherpkg)"
  by (simp_all add: exportedNames_def badpkg_def otherpkg_def List.map_filter_def)

lemma testpkg_members:
  "testpkg_Sum \<in> set (exportedFuncs testpkg)" "acceptedResults testpkg_Sum"
  "testpkg_S \<in> set (exportedNames testpkg)" "isStruct testpkg_S"
  "mkvar ''X'' (Basic types_Float64) \<in> set (exportedFields testpkg_S)"
  "mkfunc ''Sum'' [] [mkvar [] (Basic types_Float64)] \<in> set (exportedMethodSet testpkg_S)"
  by (simp_all add: exportedFuncs_def exportedNames_def testpkg_def List.map_filter_def
      testpkg_S_def testpkg_Sum_def testpkg_ReturnsError_def acceptedResults_def isStruct_def
      testpkg_S_type_def)

theorem code_assignment_deterministic_witness:
  "wellNamed testpkg \<and> wellNamed badpkg \<and> wellNamed otherpkg \<and>
   declaration_model_of badpkg = declaration_model_of otherpkg \<and>
   \<not> isl (emitted spec_helpers (newGen testpkg)) \<and>
   \<not> isl (emitted spec_helpers (usedGen testpkg)) \<and>
   \<not> isl (emitted spec_helpers (newGen badpkg)) \<and>
   \<not> isl (emitted spec_helpers (usedGen otherpkg)) \<and>
   macros (projr (emitted spec_helpers (newGen badpkg)))
     = [Some (''_DESCRIPTOR_'', Descriptor ''bad''), Some (''_CALL_Bad_'', Code 1),
        Some (''_CALL_Good_'', Code 2)] \<and>
   macros (projr (emitted spec_helpers (usedGen otherpkg)))
     = macros (projr (emitted spec_helpers (newGen badpkg))) \<and>
   macros (projr (emitted spec_helpers (newGen testpkg)))
     = [Some (''_DESCRIPTOR_'', Descriptor ''testpkg''),
        Some (''_CALL_BytesAppend_'', Code 1), Some (''_CALL_CallSSum_'', Code 2),
        Some (''_CALL_CollectS_'', Code 3), Some (''_CALL_Hello_'', Code 4),
        Some (''_CALL_Hi_'', Code 5), Some (''_CALL_Int_'', Code 6),
        Some (''_CALL_NewS_'', Code 7), Some (''_CALL_ReturnsError_'', Code 8),
        Some (''_CALL_Sum_'', Code 9),
        Some (''_GO_testpkg_S_DESCRIPTOR_'', Descriptor ''go.testpkg.S''),
        Some (''_GO_testpkg_S_FIELD_X_GET_'', Code 0x00f),
        Some (''_GO_testpkg_S_FIELD_X_SET_'', Code 0x01f),
        Some (''_GO_testpkg_S_FIELD_Y_GET_'', Code 0x10f),
        Some (''_GO_testpkg_S_FIELD_Y_SET_'', Code 0x11f),
        Some (''_GO_testpkg_S_Sum_'', Code 0x00c),
        Some (''_GO_testpkg_S_TryTwoStrings_'', Code 0x10c)] \<and>
   (1, send_line ''_DESCRIPTOR_'' ''_CALL_Sum_'')
     \<in> set (projr (emitted spec_helpers (newGen testpkg))) \<and>
   (1, send_line ''_GO_testpkg_S_DESCRIPTOR_'' ''_GO_testpkg_S_FIELD_X_GET_'')
     \<in> set (projr (emitted spec_helpers (newGen testpkg))) \<and>
   (1, send_line ''_GO_testpkg_S_DESCRIPTOR_'' ''_GO_testpkg_S_Sum_'')
     \<in> set (projr (emitted spec_helpers (newGen testpkg))) \<and>
   projr (emitted spec_helpers (newGen testpkg)) = projr (emitted spec_helpers (usedGen testpkg)) \<and>
   emitted spec_helpers (snd (projr (genM spec_helpers (newGen testpkg))))
     = emitted spec_helpers (newGen testpkg)"
proof -
  let ?E = "\<lambda>g. projr (emitted spec_helpers g)"
  have e: "emitted spec_helpers (newGen testpkg) = Inr (?E (newGen testpkg))"
          "emitted spec_helpers (usedGen testpkg) = Inr (?E (usedGen testpkg))"
          "emitted spec_helpers (newGen badpkg) = Inr (?E (newGen badpkg))"
          "emitted spec_helpers (usedGen otherpkg) = Inr (?E (usedGen otherpkg))"
    using testpkg_generable small_generable
    by (simp_all add: emitted_ok [symmetric] usedGen_def)
  obtain r g' where g: "genM spec_helpers (newGen testpkg) = Inr (r, g')"
    using genM_ok [of "newGen testpkg" spec_helpers] testpkg_generable by auto
  have p: "pkg (newGen testpkg) = testpkg" "pkg (usedGen testpkg) = testpkg"
    "pkg (newGen badpkg) = badpkg" "pkg (usedGen otherpkg) = otherpkg"
    "indent (newGen testpkg) = 0" "indent (usedGen testpkg) = 0"
    by (simp_all add: usedGen_def)
  have w: "wellNamed (pkg (newGen testpkg))" "wellNamed (pkg (usedGen testpkg))"
    "wellNamed (pkg (newGen badpkg))" "wellNamed (pkg (usedGen otherpkg))"
    "declaration_model_of (pkg (newGen testpkg)) = declaration_model_of (pkg (usedGen testpkg))"
    "declaration_model_of (pkg (newGen badpkg)) = declaration_model_of (pkg (usedGen otherpkg))"
    using wellNamed_testpkg wellNamed_small small_models(1) by (simp_all only: p)
  note t = code_assignment_deterministic [OF e(1) e(2) w(1) w(2) w(5), where r = r and g' = g']
  note s = code_assignment_deterministic [OF e(3) e(4) w(3) w(4) w(6), where r = r and g' = g']
  have t1: "macros (?E (newGen testpkg))
        = map (\<lambda>(s, x, v). Some (x, v)) (assignment_spec (declaration_model_of testpkg))"
    using t [THEN conjunct1] by (simp only: p)
  have t2: "(1, send_line ''_DESCRIPTOR_'' ''_CALL_Sum_'') \<in> set (?E (newGen testpkg))"
    using t [THEN conjunct2, THEN conjunct2, THEN conjunct1, rule_format, of testpkg_Sum]
      testpkg_members(1,2)
    by (simp add: p(1,5) testpkg_Sum_def)
  note ts = t [THEN conjunct2, THEN conjunct2, THEN conjunct2, THEN conjunct1, rule_format,
      of testpkg_S, unfolded p(1,5)]
  have t3: "(1, send_line ''_GO_testpkg_S_DESCRIPTOR_'' ''_GO_testpkg_S_FIELD_X_GET_'')
       \<in> set (?E (newGen testpkg))"
    using ts [OF testpkg_members(3,4), THEN conjunct1, rule_format, OF testpkg_members(5),
        THEN conjunct1]
    by (simp add: testpkg_def testpkg_S_def)
  have t4: "(1, send_line ''_GO_testpkg_S_DESCRIPTOR_'' ''_GO_testpkg_S_Sum_'') \<in> set (?E (newGen testpkg))"
    using ts [OF testpkg_members(3,4), THEN conjunct2, rule_format, OF testpkg_members(6)]
    by (simp add: testpkg_def testpkg_S_def)
  note tr = t [THEN conjunct2, THEN conjunct2, THEN conjunct2, THEN conjunct2]
  have t5: "?E (newGen testpkg) = ?E (usedGen testpkg)"
    using tr [THEN conjunct1] by (simp add: p)
  have t6: "emitted spec_helpers g' = Inr (?E (newGen testpkg))"
    using tr [THEN conjunct2] g by simp
  note t' = t1 t2 t3 t4 t5 t6
  have s': "macros (?E (newGen badpkg))
        = map (\<lambda>(s, x, v). Some (x, v)) (assignment_spec (declaration_model_of badpkg))"
    "macros (?E (usedGen otherpkg)) = macros (?E (newGen badpkg))"
    using s [THEN conjunct1] s [THEN conjunct2, THEN conjunct1] by (simp_all only: p)
  have i: "\<not> isl (emitted spec_helpers (newGen testpkg))"
          "\<not> isl (emitted spec_helpers (usedGen testpkg))"
          "\<not> isl (emitted spec_helpers (newGen badpkg))"
          "\<not> isl (emitted spec_helpers (usedGen otherpkg))"
    using e by (metis sum.disc(2))+
  have g2: "emitted spec_helpers (snd (projr (genM spec_helpers (newGen testpkg))))
     = emitted spec_helpers (newGen testpkg)"
    using t6 g e(1) by simp
  have m1: "macros (?E (newGen badpkg))
     = [Some (''_DESCRIPTOR_'', Descriptor ''bad''), Some (''_CALL_Bad_'', Code 1),
        Some (''_CALL_Good_'', Code 2)]"
    by (simp only: s'(1) small_models(2)) simp
  have m2: "macros (?E (newGen testpkg))
     = [Some (''_DESCRIPTOR_'', Descriptor ''testpkg''),
        Some (''_CALL_BytesAppend_'', Code 1), Some (''_CALL_CallSSum_'', Code 2),
        Some (''_CALL_CollectS_'', Code 3), Some (''_CALL_Hello_'', Code 4),
        Some (''_CALL_Hi_'', Code 5), Some (''_CALL_Int_'', Code 6),
        Some (''_CALL_NewS_'', Code 7), Some (''_CALL_ReturnsError_'', Code 8),
        Some (''_CALL_Sum_'', Code 9),
        Some (''_GO_testpkg_S_DESCRIPTOR_'', Descriptor ''go.testpkg.S''),
        Some (''_GO_testpkg_S_FIELD_X_GET_'', Code 0x00f),
        Some (''_GO_testpkg_S_FIELD_X_SET_'', Code 0x01f),
        Some (''_GO_testpkg_S_FIELD_Y_GET_'', Code 0x10f),
        Some (''_GO_testpkg_S_FIELD_Y_SET_'', Code 0x11f),
        Some (''_GO_testpkg_S_Sum_'', Code 0x00c),
        Some (''_GO_testpkg_S_TryTwoStrings_'', Code 0x10c)]"
    by (simp only: t1 testpkg_model) simp
  show ?thesis
    using wellNamed_testpkg wellNamed_small small_models(1) i t2 t3 t4 t5 g2 s'(2) m1 m2
    by (intro conjI) assumption+
qed


end
